(* ===== verification/Prelude.thy ===== *)
theory Prelude
  imports "HOL-Library.Word" "HOL-Library.Signed_Division"
begin

unbundle bit_operations_syntax

text \<open>
  Shared vocabulary of the development: the machine types of the target (64 bit, little
  endian), the faults a run of the code can end in, the result type that carries them, the
  bounds-checked \<open>memcpy\<close> and the byte-order functions of the C library, and the generic
  lemmas the component theories use.

  Modelling conventions.
  \<^item> \<open>size_t\<close> is a 64 bit word, so every \<open>+\<close> and \<open>-\<close> on it wraps as in the code.
  \<^item> A block of memory is the list of its bytes. \<open>mem_read\<close> and \<open>mem_write\<close> are \<open>memcpy\<close>
    from and to an offset of a block; an access outside the block is the fault
    \<open>OutOfBounds\<close>, never a silent default value.
  \<^item> \<open>LOG(FATAL)\<close> ends the process: fault \<open>FatalLog\<close>. The other severities only print and
    have no counterpart.
  \<^item> \<open>DCHECK(c)\<close> of the logging library is checked only in debug builds. Every definition
    that contains one takes the build mode \<open>dbg\<close> as its first argument.
\<close>

named_theorems res_simps \<open>evaluation of results, checks and memory accesses\<close>
named_theorems word_arith \<open>unsigned readings of word arithmetic that does not wrap\<close>

section \<open>Machine types and results\<close>

type_synonym byte = "8 word"
type_synonym uint16 = "16 word"
type_synonym uint32 = "32 word"
type_synonym uint64 = "64 word"
type_synonym size_t = "64 word"

datatype fault =
    DCheckFailed
  | FatalLog
  | OutOfBounds
  | NullDereference
  | UndefinedBehaviour

type_synonym 'a res = "fault + 'a"

definition rbind :: "'a res \<Rightarrow> ('a \<Rightarrow> 'b res) \<Rightarrow> 'b res" where
  "rbind m f = (case m of Inl e \<Rightarrow> Inl e | Inr x \<Rightarrow> f x)"

definition DCHECK :: "bool \<Rightarrow> bool \<Rightarrow> unit res" where
  "DCHECK dbg c = (if dbg \<and> \<not> c then Inl DCheckFailed else Inr ())"

definition mem_read :: "byte list \<Rightarrow> size_t \<Rightarrow> size_t \<Rightarrow> byte list res" where
  "mem_read mem off n =
     (if unat off + unat n \<le> length mem
      then Inr (take (unat n) (drop (unat off) mem)) else Inl OutOfBounds)"

definition mem_write :: "byte list \<Rightarrow> size_t \<Rightarrow> byte list \<Rightarrow> byte list res" where
  "mem_write mem off d =
     (if unat off + length d \<le> length mem
      then Inr (take (unat off) mem @ d @ drop (unat off + length d) mem)
      else Inl OutOfBounds)"

lemma rbind_Inl [simp, res_simps]: "rbind (Inl e) f = Inl e"
  by (simp add: rbind_def)

lemma rbind_Inr [simp, res_simps]: "rbind (Inr x) f = f x"
  by (simp add: rbind_def)

lemma rbind_eq_Inr_iff: "rbind m f = Inr y \<longleftrightarrow> (\<exists>x. m = Inr x \<and> f x = Inr y)"
  by (cases m) simp_all

lemma DCHECK_True [simp, res_simps]: "DCHECK dbg True = Inr ()"
  by (simp add: DCHECK_def)

lemma DCHECK_ok [res_simps]: "c \<Longrightarrow> DCHECK dbg c = Inr ()"
  by (simp add: DCHECK_def)

lemma DCHECK_release [simp, res_simps]: "DCHECK False c = Inr ()"
  by (simp add: DCHECK_def)

lemma DCHECK_fails: "DCHECK True False = Inl DCheckFailed"
  by (simp add: DCHECK_def)

lemma mem_read_ok:
  "unat off + unat n \<le> length mem \<Longrightarrow>
     mem_read mem off n = Inr (take (unat n) (drop (unat off) mem))"
  by (simp add: mem_read_def)

lemma mem_write_ok:
  "unat off + length d \<le> length mem \<Longrightarrow>
     mem_write mem off d = Inr (take (unat off) mem @ d @ drop (unat off + length d) mem)"
  by (simp add: mem_write_def)

lemma length_mem_write: "mem_write mem off d = Inr mem' \<Longrightarrow> length mem' = length mem"
  by (auto simp: mem_write_def split: if_splits)

text \<open>What a write leaves at each index: the written bytes inside, the old ones outside.\<close>

lemma nth_splice:
  assumes "off + length d \<le> length mem" and "i < length mem"
  shows "(take off mem @ d @ drop (off + length d) mem) ! i =
    (if off \<le> i \<and> i < off + length d then d ! (i - off) else mem ! i)"
  using assms by (auto simp: nth_append min_def)

lemma take_min_length: "take (min n (length xs)) xs = take n xs"
  by (simp add: min_def)

lemma take_min_drop: "take (min n (length xs - k)) (drop k xs) = take n (drop k xs)"
  using take_min_length [of n "drop k xs"] by simp

section \<open>Word arithmetic that does not wrap\<close>

lemma unat_add_lt [word_arith]:
  fixes a b :: "'a :: len word"
  assumes "unat a + unat b < 2 ^ LENGTH('a)"
  shows "unat (a + b) = unat a + unat b"
  using assms by (simp add: unat_word_ariths)

lemma unat_sub_le [word_arith]:
  fixes a b :: "'a :: len word"
  assumes "unat b \<le> unat a"
  shows "unat (a - b) = unat a - unat b"
  using assms by (simp add: unat_sub word_le_nat_alt)

lemma unat_min [word_arith]: "unat (min a b) = min (unat a) (unat b)"
  for a b :: "'a :: len word"
  by (simp add: min_def word_le_nat_alt)

lemma unat_and_mask: "unat (w AND mask n) = unat w mod 2 ^ n" for w :: "'a :: len word"
  by (simp only: take_bit_eq_mask [symmetric] unsigned_take_bit_eq) (simp add: take_bit_eq_mod)

lemma unat_drop_bit: "unat (drop_bit n w) = unat w div 2 ^ n" for w :: "'a :: len word"
  by (simp only: unat_drop_bit_eq) (simp add: drop_bit_eq_div)

lemma unat_push_bit: "unat (push_bit n w) = unat w * 2 ^ n mod 2 ^ LENGTH('a)"
  for w :: "'a :: len word"
  by (simp only: unsigned_push_bit_eq) (simp add: push_bit_eq_mult take_bit_eq_mod)

lemma unat_ucast_up [word_arith]:
  "LENGTH('a) \<le> LENGTH('b) \<Longrightarrow> unat (ucast w :: 'b :: len word) = unat w" for w :: "'a :: len word"
  by (simp only: unsigned_ucast_eq) (simp add: take_bit_nat_eq_self_iff
    less_le_trans [OF unsigned_less power_increasing])

lemma unat_lt_8: "unat (w :: 8 word) < 256"
  using unsigned_less [of w] by simp

lemma unat_lt_16: "unat (w :: 16 word) < 65536"
  using unsigned_less [of w] by simp

lemma unat_lt_32: "unat (w :: 32 word) < 4294967296"
  using unsigned_less [of w] by simp

lemma unat_lt_64: "unat (w :: 64 word) < 18446744073709551616"
  using unsigned_less [of w] by simp

text \<open>64 bit sums that the code truncates to 32 bits.\<close>

lemma ucast32_add: "(ucast (x + y :: 64 word) :: 32 word) = ucast x + ucast y"
proof (rule unsigned_word_eqI [where 'a = nat])
  have "unat (ucast w :: 32 word) = unat w mod 4294967296" for w :: "64 word"
    by (simp only: unsigned_ucast_eq) (simp add: take_bit_eq_mod)
  then show "unat (ucast (x + y) :: 32 word) = unat (ucast x + ucast y :: 32 word)"
    by (simp add: unat_word_ariths mod_mod_cancel mod_add_eq)
qed

lemma ucast32_up [simp]: "(ucast (ucast (a :: 32 word) :: 64 word) :: 32 word) = a"
  by (rule bit_word_eqI) (simp add: bit_simps)

lemma ucast32_of_nat [simp]: "(ucast (of_nat n :: 64 word) :: 32 word) = of_nat n"
  by (rule unsigned_word_eqI [where 'a = nat])
    (simp add: unat_of_nat unsigned_ucast_eq take_bit_eq_mod mod_mod_cancel)

section \<open>Byte order\<close>

text \<open>
  Integers in memory. The target is little endian, so the bytes of an object are the least
  significant first; \<open>htons\<close>, \<open>htonl\<close> and the macro \<open>htonll\<close> reverse them, and the
  corresponding \<open>ntoh\<close> functions are the same functions.
\<close>

definition host_bytes16 :: "uint16 \<Rightarrow> byte list" where
  "host_bytes16 w = [ucast w, ucast (drop_bit 8 w)]"

definition host_bytes32 :: "uint32 \<Rightarrow> byte list" where
  "host_bytes32 w =
     [ucast w, ucast (drop_bit 8 w), ucast (drop_bit 16 w), ucast (drop_bit 24 w)]"

definition host_bytes64 :: "uint64 \<Rightarrow> byte list" where
  "host_bytes64 w = host_bytes32 (ucast w) @ host_bytes32 (ucast (drop_bit 32 w))"

definition host_word16 :: "byte list \<Rightarrow> uint16" where
  "host_word16 bs = ucast (bs ! 0) OR push_bit 8 (ucast (bs ! 1))"

definition host_word32 :: "byte list \<Rightarrow> uint32" where
  "host_word32 bs = ucast (bs ! 0) OR push_bit 8 (ucast (bs ! 1)) OR
     push_bit 16 (ucast (bs ! 2)) OR push_bit 24 (ucast (bs ! 3))"

definition host_word64 :: "byte list \<Rightarrow> uint64" where
  "host_word64 bs =
     ucast (host_word32 (take 4 bs)) OR push_bit 32 (ucast (host_word32 (drop 4 bs)))"

definition htons :: "uint16 \<Rightarrow> uint16" where
  "htons w = host_word16 (rev (host_bytes16 w))"

definition htonl :: "uint32 \<Rightarrow> uint32" where
  "htonl w = host_word32 (rev (host_bytes32 w))"

text \<open>The macro of \<open>src/base/util.h\<close>, as written for a little endian host.\<close>

definition htonll :: "uint64 \<Rightarrow> uint64" where
  "htonll x =
     push_bit 32 (ucast (htonl (ucast (x AND 0xFFFFFFFF)))) OR ucast (htonl (ucast (drop_bit 32 x)))"

lemma bit_byte_high [simp]: "8 \<le> n \<Longrightarrow> bit (b :: byte) n = False"
  using bit_imp_le_length [of b n] by auto

lemma bit_word32_high [simp]: "32 \<le> n \<Longrightarrow> bit (w :: uint32) n = False"
  using bit_imp_le_length [of w n] by auto

lemma list2E:
  assumes "length xs = 2"
  obtains a b where "xs = [a, b]"
  using assms by (auto simp: length_Suc_conv eval_nat_numeral)

lemma list4E:
  assumes "length xs = 4"
  obtains a b c d where "xs = [a, b, c, d]"
  using assms by (auto simp: length_Suc_conv eval_nat_numeral)

lemma length_host_bytes [simp]:
  "length (host_bytes16 w) = 2" "length (host_bytes32 x) = 4" "length (host_bytes64 y) = 8"
  by (simp_all add: host_bytes16_def host_bytes32_def host_bytes64_def)

lemma host_word16_bytes [simp]: "host_word16 (host_bytes16 w) = w"
  unfolding host_word16_def host_bytes16_def
  by (rule bit_word_eqI) (auto simp: bit_simps)

lemma host_bytes16_word [simp]: "length bs = 2 \<Longrightarrow> host_bytes16 (host_word16 bs) = bs"
  by (erule list2E)
    (auto simp: host_word16_def host_bytes16_def bit_simps intro!: bit_word_eqI)

lemma host_word32_bytes [simp]: "host_word32 (host_bytes32 w) = w"
proof (rule bit_word_eqI)
  fix n assume "n < LENGTH(32)"
  then consider "n < 8" | "8 \<le> n" "n < 16" | "16 \<le> n" "n < 24" | "24 \<le> n" "n < 32"
    by fastforce
  then show "bit (host_word32 (host_bytes32 w)) n = bit w n"
    by cases (auto simp: host_word32_def host_bytes32_def bit_simps)
qed

lemma host_bytes32_word [simp]: "length bs = 4 \<Longrightarrow> host_bytes32 (host_word32 bs) = bs"
  by (erule list4E)
    (auto simp: host_word32_def host_bytes32_def bit_simps intro!: bit_word_eqI)

lemma host_word64_bytes [simp]: "host_word64 (host_bytes64 w) = w"
proof (rule bit_word_eqI)
  fix n assume "n < LENGTH(64)"
  then show "bit (host_word64 (host_bytes64 w)) n = bit w n"
    by (auto simp: host_word64_def host_bytes64_def bit_simps)
qed

lemma host_bytes64_word [simp]: "length bs = 8 \<Longrightarrow> host_bytes64 (host_word64 bs) = bs"
proof -
  assume l: "length bs = 8"
  have "ucast (host_word64 bs) = host_word32 (take 4 bs)"
    "ucast (drop_bit 32 (host_word64 bs)) = host_word32 (drop 4 bs)"
    by (auto simp: host_word64_def bit_simps intro!: bit_word_eqI)
  then show ?thesis using l by (simp add: host_bytes64_def)
qed

lemma host_bytes_hton:
  "host_bytes16 (htons v) = rev (host_bytes16 v)"
  "host_bytes32 (htonl w) = rev (host_bytes32 w)"
  by (simp_all add: htons_def htonl_def)

lemma hton_hton [simp]: "htons (htons v) = v" "htonl (htonl w) = w"
  by (simp_all add: htons_def htonl_def)

lemma host_bytes_htonll: "host_bytes64 (htonll x) = rev (host_bytes64 x)"
proof -
  have "ucast (x AND 0xFFFFFFFF) = (ucast x :: uint32)"
  proof -
    have m: "(0xFFFFFFFF :: uint64) = mask 32" by (simp add: mask_eq_exp_minus_1)
    show ?thesis unfolding m by (rule bit_word_eqI) (simp add: bit_simps del: mask_numeral)
  qed
  moreover have "ucast (push_bit 32 (ucast a) OR ucast b :: uint64) = b"
    "ucast (drop_bit 32 (push_bit 32 (ucast a) OR ucast b :: uint64)) = a" for a b :: uint32
    by (auto simp: bit_simps intro!: bit_word_eqI)
  ultimately show ?thesis
    by (simp add: htonll_def host_bytes64_def host_bytes_hton)
qed

lemma htonll_htonll [simp]: "htonll (htonll x) = x"
proof -
  have "host_bytes64 (htonll (htonll x)) = host_bytes64 x"
    by (simp add: host_bytes_htonll)
  then show ?thesis by (metis host_word64_bytes)
qed

end
