(* ===== verification/Byte_Queue.thy ===== *)
theory Byte_Queue
  imports Prelude
begin

text \<open>
  The contract between the TCP layer and its byte buffer: a bounded FIFO of bytes with
  append, destructive read, read at an offset, and discard. \<open>accepts\<close> is the condition under
  which an append is stored. The lemmas in the locale are what \<open>SendBuffer\<close> relies on: a byte
  is found at the offset it was appended at, discarding acknowledged bytes shifts the offsets
  of the others, and a destructive read is a read at offset 0 followed by a discard.
\<close>

locale byte_queue =
  fixes invar :: "'q \<Rightarrow> bool"
    and contents :: "'q \<Rightarrow> byte list"
    and capacity :: "'q \<Rightarrow> nat"
    and accepts :: "'q \<Rightarrow> bool"
    and enq :: "'q \<Rightarrow> byte list \<Rightarrow> size_t \<Rightarrow> ('q \<times> size_t) res"
    and deq :: "'q \<Rightarrow> size_t \<Rightarrow> ('q \<times> byte list \<times> size_t) res"
    and peek :: "'q \<Rightarrow> size_t \<Rightarrow> size_t \<Rightarrow> (byte list \<times> size_t) res"
    and skip :: "'q \<Rightarrow> size_t \<Rightarrow> ('q \<times> size_t) res"
  assumes bounded: "invar q \<Longrightarrow> length (contents q) \<le> capacity q"
    and small: "invar q \<Longrightarrow> capacity q \<le> 2 ^ 62"
    and enq_law: "invar q \<Longrightarrow> accepts q \<Longrightarrow> unat n \<le> length d \<Longrightarrow>
      \<exists>q' k. enq q d n = Inr (q', k) \<and> invar q' \<and> capacity q' = capacity q \<and>
        unat k = min (unat n) (capacity q - length (contents q)) \<and>
        contents q' = contents q @ take (unat k) d"
    and deq_law: "invar q \<Longrightarrow>
      \<exists>q' k. deq q n = Inr (q', take (unat k) (contents q), k) \<and> invar q' \<and>
        capacity q' = capacity q \<and> unat k = min (unat n) (length (contents q)) \<and>
        contents q' = drop (unat k) (contents q)"
    and peek_law: "invar q \<Longrightarrow> unat off \<le> length (contents q) \<Longrightarrow>
      \<exists>k. peek q off n = Inr (take (unat n) (drop (unat off) (contents q)), k) \<and>
        unat k = min (unat n) (length (contents q) - unat off)"
    and skip_law: "invar q \<Longrightarrow>
      \<exists>q' k. skip q n = Inr (q', k) \<and> invar q' \<and> capacity q' = capacity q \<and>
        unat k = min (unat n) (length (contents q)) \<and> contents q' = drop (unat k) (contents q)"
begin

lemma deq_is_peek_skip:
  assumes "invar q"
  shows "\<exists>q\<^sub>1 q\<^sub>2 bs k. deq q n = Inr (q\<^sub>1, bs, k) \<and> peek q 0 n = Inr (bs, k) \<and>
    skip q n = Inr (q\<^sub>2, k) \<and> contents q\<^sub>1 = contents q\<^sub>2"
proof -
  obtain q\<^sub>1 k\<^sub>1 where d: "deq q n = Inr (q\<^sub>1, take (unat k\<^sub>1) (contents q), k\<^sub>1)"
    "unat k\<^sub>1 = min (unat n) (length (contents q))" "contents q\<^sub>1 = drop (unat k\<^sub>1) (contents q)"
    using deq_law [OF assms] by blast
  obtain q\<^sub>2 k\<^sub>2 where s: "skip q n = Inr (q\<^sub>2, k\<^sub>2)"
    "unat k\<^sub>2 = min (unat n) (length (contents q))" "contents q\<^sub>2 = drop (unat k\<^sub>2) (contents q)"
    using skip_law [OF assms] by blast
  obtain k\<^sub>3 where p: "peek q 0 n = Inr (take (unat n) (contents q), k\<^sub>3)"
    "unat k\<^sub>3 = min (unat n) (length (contents q))"
    using peek_law [OF assms, of 0 n] by auto
  have "k\<^sub>1 = k\<^sub>2" "k\<^sub>1 = k\<^sub>3"
    using d(2) s(2) p(2) by (simp_all add: word_unat_eq_iff)
  moreover have "take (unat k\<^sub>1) (contents q) = take (unat n) (contents q)"
    unfolding d(2) by (rule take_min_length)
  ultimately show ?thesis using d s p by simp
qed

lemma enq_then_peek:
  assumes "invar q" and "accepts q" and "unat n \<le> length d"
    and "unat off = length (contents q)"
  shows "\<exists>q' k. enq q d n = Inr (q', k) \<and> peek q' off k = Inr (take (unat k) d, k)"
proof -
  obtain q' k where e: "enq q d n = Inr (q', k)" "invar q'"
    "unat k = min (unat n) (capacity q - length (contents q))"
    "contents q' = contents q @ take (unat k) d"
    using enq_law [OF assms(1-3)] by blast
  obtain j where p: "peek q' off k = Inr (take (unat k) (drop (unat off) (contents q')), j)"
    "unat j = min (unat k) (length (contents q') - unat off)"
    using peek_law [OF e(2), of off k] e(4) assms(4) by auto
  have "unat k \<le> length d" using e(3) assms(3) by linarith
  then have "j = k" and "take (unat k) (drop (unat off) (contents q')) = take (unat k) d"
    using p(2) e(4) assms(4) by (simp_all add: word_unat_eq_iff)
  then show ?thesis using e(1) p(1) by simp
qed

lemma peek_after_skip:
  assumes "invar q" and "unat m + unat off \<le> length (contents q)"
    and "unat (m + off) = unat m + unat off"
  shows "\<exists>q'. skip q m = Inr (q', m) \<and> peek q' off n = peek q (m + off) n"
proof -
  obtain q' k where s: "skip q m = Inr (q', k)" "invar q'"
    "unat k = min (unat m) (length (contents q))" "contents q' = drop (unat k) (contents q)"
    using skip_law [OF assms(1)] by blast
  have km: "k = m" using s(3) assms(2) by (simp add: word_unat_eq_iff)
  have le: "unat off \<le> length (contents q')" using s(4) km assms(2) by simp
  obtain j\<^sub>1 where p: "peek q' off n = Inr (take (unat n) (drop (unat off) (contents q')), j\<^sub>1)"
    "unat j\<^sub>1 = min (unat n) (length (contents q') - unat off)"
    using peek_law [OF s(2) le] by blast
  obtain j\<^sub>2 where r: "peek q (m + off) n = Inr (take (unat n) (drop (unat (m + off)) (contents q)), j\<^sub>2)"
    "unat j\<^sub>2 = min (unat n) (length (contents q) - unat (m + off))"
    using peek_law [OF assms(1), of "m + off" n] assms(2,3) by auto
  have "j\<^sub>1 = j\<^sub>2"
    using p(2) r(2) s(4) km assms(3) by (simp add: word_unat_eq_iff)
  then show ?thesis
    using s(1) km p(1) r(1) s(4) assms(3) by (simp add: add.commute)
qed

end

end
