(* ===== verification/Ring_Buffer.thy ===== *)
theory Ring_Buffer
  imports Byte_Queue
begin

text \<open>
  \<open>src/base/ring_buffer.{h,cpp}\<close>: the byte queue behind both TCP directions. The state is
  the block of memory and the two indices \<open>begin_\<close> and \<open>end_\<close>; \<open>begin_\<close> stays below the
  capacity while \<open>end_\<close> may run one lap ahead of it.
\<close>

section \<open>Definitions\<close>

record ring_buffer =
  rb_size :: size_t
  rb_buffer :: "byte list"
  rb_begin :: size_t
  rb_end :: size_t

text \<open>The constructor; \<open>fresh\<close> gives the indeterminate bytes of \<open>new char[size]\<close>.\<close>

definition RingBuffer :: "(nat \<Rightarrow> byte) \<Rightarrow> size_t \<Rightarrow> ring_buffer" where
  "RingBuffer fresh sz =
     \<lparr>rb_size = sz, rb_buffer = map fresh [0..<unat sz], rb_begin = 0, rb_end = 0\<rparr>"

definition RingBuffer_empty :: "ring_buffer \<Rightarrow> bool" where
  "RingBuffer_empty rb \<longleftrightarrow> rb_begin rb = rb_end rb"

definition RingBuffer_full :: "ring_buffer \<Rightarrow> bool" where
  "RingBuffer_full rb \<longleftrightarrow> rb_begin rb + rb_size rb = rb_end rb"

definition RingBuffer_remaining :: "ring_buffer \<Rightarrow> size_t" where
  "RingBuffer_remaining rb = rb_end rb - rb_begin rb"

definition RingBuffer_free :: "ring_buffer \<Rightarrow> size_t" where
  "RingBuffer_free rb = rb_size rb - RingBuffer_remaining rb"

text \<open>\<open>read\<close> returns the buffer, the bytes copied out and their number.\<close>

definition RingBuffer_read ::
  "bool \<Rightarrow> ring_buffer \<Rightarrow> size_t \<Rightarrow> (ring_buffer \<times> byte list \<times> size_t) res" where
  "RingBuffer_read dbg rb len =
     (if RingBuffer_empty rb then Inr (rb, [], 0)
      else let n = min len (RingBuffer_remaining rb) in
        rbind (DCHECK dbg (rb_begin rb < rb_size rb)) (\<lambda>_.
        if rb_size rb \<le> rb_begin rb + n then
          rbind (mem_read (rb_buffer rb) (rb_begin rb) (rb_size rb - rb_begin rb)) (\<lambda>p.
          rbind (mem_read (rb_buffer rb) 0 (n - (rb_size rb - rb_begin rb))) (\<lambda>q.
          Inr (rb\<lparr>rb_begin := rb_begin rb + n - rb_size rb,
                  rb_end := rb_end rb - rb_size rb\<rparr>, p @ q, n)))
        else
          rbind (mem_read (rb_buffer rb) (rb_begin rb) n) (\<lambda>p.
          Inr (rb\<lparr>rb_begin := rb_begin rb + n\<rparr>, p, n))))"

text \<open>
  \<open>write\<close> takes the source block and the length asked for. In its first branch
  (\<open>end_ >= size_\<close>) the code copies the bytes and leaves \<open>end_\<close> as it is.
\<close>

definition RingBuffer_write ::
  "bool \<Rightarrow> ring_buffer \<Rightarrow> byte list \<Rightarrow> size_t \<Rightarrow> (ring_buffer \<times> size_t) res" where
  "RingBuffer_write dbg rb data len =
     (if RingBuffer_full rb then Inr (rb, 0)
      else let n = min len (RingBuffer_free rb) in
        rbind (DCHECK dbg (rb_begin rb < rb_size rb)) (\<lambda>_.
        if rb_size rb \<le> rb_end rb then
          rbind (mem_read data 0 n) (\<lambda>p.
          rbind (mem_write (rb_buffer rb) (rb_end rb - rb_size rb) p) (\<lambda>m.
          Inr (rb\<lparr>rb_buffer := m\<rparr>, n)))
        else if rb_size rb \<le> rb_end rb + n then
          rbind (mem_read data 0 (rb_size rb - rb_end rb)) (\<lambda>p.
          rbind (mem_write (rb_buffer rb) (rb_end rb) p) (\<lambda>m.
          rbind (mem_read data (rb_size rb - rb_end rb) (n - (rb_size rb - rb_end rb))) (\<lambda>q.
          rbind (mem_write m 0 q) (\<lambda>m'.
          Inr (rb\<lparr>rb_buffer := m', rb_end := rb_end rb + n\<rparr>, n)))))
        else
          rbind (mem_read data 0 n) (\<lambda>p.
          rbind (mem_write (rb_buffer rb) (rb_end rb) p) (\<lambda>m.
          Inr (rb\<lparr>rb_buffer := m, rb_end := rb_end rb + n\<rparr>, n)))))"

definition RingBuffer_read_offset ::
  "bool \<Rightarrow> ring_buffer \<Rightarrow> size_t \<Rightarrow> size_t \<Rightarrow> (byte list \<times> size_t) res" where
  "RingBuffer_read_offset dbg rb offset len =
     (let begin_off = rb_begin rb + offset;
          n = min len (rb_end rb - begin_off) in
      if n = 0 then Inr ([], 0)
      else
        rbind (DCHECK dbg (begin_off + n \<le> rb_end rb)) (\<lambda>_.
        if begin_off < rb_size rb then
          if rb_size rb \<le> begin_off + n then
            let len1 = rb_size rb - begin_off; len2 = n - len1 in
            rbind (mem_read (rb_buffer rb) begin_off len1) (\<lambda>p.
            rbind (mem_read (rb_buffer rb) 0 len2) (\<lambda>q.
            Inr (p @ q, n)))
          else
            rbind (mem_read (rb_buffer rb) begin_off n) (\<lambda>p. Inr (p, n))
        else
          rbind (mem_read (rb_buffer rb) (begin_off - rb_size rb) n) (\<lambda>p. Inr (p, n))))"

definition RingBuffer_consume ::
  "bool \<Rightarrow> ring_buffer \<Rightarrow> size_t \<Rightarrow> (ring_buffer \<times> size_t) res" where
  "RingBuffer_consume dbg rb len =
     (let n = min len (RingBuffer_remaining rb) in
      rbind (DCHECK dbg (rb_begin rb < rb_size rb)) (\<lambda>_.
      if rb_size rb \<le> rb_begin rb + n then
        Inr (rb\<lparr>rb_begin := rb_begin rb + n - rb_size rb,
                rb_end := rb_end rb - rb_size rb\<rparr>, n)
      else Inr (rb\<lparr>rb_begin := rb_begin rb + n\<rparr>, n)))"

text \<open>
  The representation invariant and the abstraction. The capacity is a positive number of
  bytes up to \<open>2 ^ 62\<close> (far above the 256 KB of the program), so \<open>end_\<close> cannot wrap.
\<close>

definition rb_inv :: "ring_buffer \<Rightarrow> bool" where
  "rb_inv rb \<longleftrightarrow>
     0 < unat (rb_size rb) \<and> unat (rb_size rb) \<le> 2 ^ 62 \<and>
     length (rb_buffer rb) = unat (rb_size rb) \<and>
     unat (rb_begin rb) < unat (rb_size rb) \<and>
     unat (rb_begin rb) \<le> unat (rb_end rb) \<and>
     unat (rb_end rb) \<le> unat (rb_begin rb) + unat (rb_size rb)"

definition rb_contents :: "ring_buffer \<Rightarrow> byte list" where
  "rb_contents rb =
     map (\<lambda>i. rb_buffer rb ! ((unat (rb_begin rb) + i) mod unat (rb_size rb)))
       [0..<unat (rb_end rb) - unat (rb_begin rb)]"

text \<open>Moving \<open>begin_\<close> forward, with the renormalisation both \<open>read\<close> and \<open>consume\<close> do.\<close>

definition rb_advance :: "ring_buffer \<Rightarrow> size_t \<Rightarrow> ring_buffer" where
  "rb_advance rb n =
     (if rb_size rb \<le> rb_begin rb + n
      then rb\<lparr>rb_begin := rb_begin rb + n - rb_size rb, rb_end := rb_end rb - rb_size rb\<rparr>
      else rb\<lparr>rb_begin := rb_begin rb + n\<rparr>)"

text \<open>The buffers a client can build: the constructor followed by any calls that return.\<close>

inductive rb_reachable :: "bool \<Rightarrow> ring_buffer \<Rightarrow> bool" for dbg where
  rb_init: "0 < unat sz \<Longrightarrow> unat sz \<le> 2 ^ 62 \<Longrightarrow> rb_reachable dbg (RingBuffer fresh sz)"
| rb_write: "rb_reachable dbg rb \<Longrightarrow> RingBuffer_write dbg rb data len = Inr (rb', n) \<Longrightarrow>
    unat len \<le> length data \<Longrightarrow> rb_reachable dbg rb'"
| rb_read: "rb_reachable dbg rb \<Longrightarrow> RingBuffer_read dbg rb len = Inr (rb', out, n) \<Longrightarrow>
    rb_reachable dbg rb'"
| rb_consume: "rb_reachable dbg rb \<Longrightarrow> RingBuffer_consume dbg rb len = Inr (rb', n) \<Longrightarrow>
    rb_reachable dbg rb'"

section \<open>Lemmas\<close>

lemma rb_invD:
  assumes "rb_inv rb"
  shows "0 < unat (rb_size rb)" "unat (rb_size rb) \<le> 4611686018427387904"
    "length (rb_buffer rb) = unat (rb_size rb)"
    "unat (rb_begin rb) < unat (rb_size rb)"
    "unat (rb_begin rb) \<le> unat (rb_end rb)"
    "unat (rb_end rb) \<le> unat (rb_begin rb) + unat (rb_size rb)"
  using assms by (simp_all add: rb_inv_def)

lemma length_rb_contents: "length (rb_contents rb) = unat (rb_end rb) - unat (rb_begin rb)"
  by (simp add: rb_contents_def)

lemma nth_rb_contents:
  "i < unat (rb_end rb) - unat (rb_begin rb) \<Longrightarrow>
     rb_contents rb ! i = rb_buffer rb ! ((unat (rb_begin rb) + i) mod unat (rb_size rb))"
  by (simp add: rb_contents_def)

lemma lap_mod: "i < 2 * s \<Longrightarrow> i mod s = (if i < s then i else i - s)" for i s :: nat
  by (simp add: mod_if)

lemma unat_remaining:
  "rb_inv rb \<Longrightarrow> unat (RingBuffer_remaining rb) = length (rb_contents rb)"
  by (simp add: RingBuffer_remaining_def length_rb_contents rb_invD word_arith)

lemma length_contents_le: "rb_inv rb \<Longrightarrow> length (rb_contents rb) \<le> unat (rb_size rb)"
  using rb_invD [of rb] by (simp add: length_rb_contents)

lemma unat_free:
  "rb_inv rb \<Longrightarrow> unat (RingBuffer_free rb) = unat (rb_size rb) - length (rb_contents rb)"
  using length_contents_le [of rb]
  by (simp add: RingBuffer_free_def unat_remaining word_arith)

lemma empty_iff: "rb_inv rb \<Longrightarrow> RingBuffer_empty rb \<longleftrightarrow> rb_contents rb = []"
  using rb_invD [of rb]
  by (auto simp: RingBuffer_empty_def rb_contents_def word_unat_eq_iff)

lemma full_iff:
  assumes "rb_inv rb"
  shows "RingBuffer_full rb \<longleftrightarrow> length (rb_contents rb) = unat (rb_size rb)"
proof -
  have "unat (rb_begin rb + rb_size rb) = unat (rb_begin rb) + unat (rb_size rb)"
    using rb_invD [OF assms] by (intro unat_add_lt) simp
  then show ?thesis
    using rb_invD [OF assms]
    by (auto simp: RingBuffer_full_def length_rb_contents word_unat_eq_iff)
qed

text \<open>
  A slice of the queue in terms of the block of memory: one run of bytes, or two when the
  slice crosses the end of the block.
\<close>

lemma rb_slice:
  assumes "rb_inv rb" and "off + n \<le> length (rb_contents rb)"
    and s: "s = unat (rb_size rb)" and c: "c = unat (rb_begin rb) + off"
  shows "take n (drop off (rb_contents rb)) =
    (if c < s then
       if s \<le> c + n then take (s - c) (drop c (rb_buffer rb)) @ take (n - (s - c)) (rb_buffer rb)
       else take n (drop c (rb_buffer rb))
     else take n (drop (c - s) (rb_buffer rb)))"
proof (rule nth_equalityI)
  note inv = rb_invD [OF assms(1)]
  have le: "off + n \<le> unat (rb_end rb) - unat (rb_begin rb)"
    using assms(2) by (simp add: length_rb_contents)
  show "length (take n (drop off (rb_contents rb))) = length (if c < s then
       if s \<le> c + n then take (s - c) (drop c (rb_buffer rb)) @ take (n - (s - c)) (rb_buffer rb)
       else take n (drop c (rb_buffer rb))
     else take n (drop (c - s) (rb_buffer rb)))"
    using inv le s c by (auto simp: length_rb_contents)
  fix i assume "i < length (take n (drop off (rb_contents rb)))"
  then have i: "i < n" by simp
  have "take n (drop off (rb_contents rb)) ! i = rb_contents rb ! (off + i)"
    using i assms(2) by (simp add: add.commute)
  also have "\<dots> = rb_buffer rb ! ((c + i) mod s)"
    using i le by (simp add: nth_rb_contents s c add.assoc)
  also have "(c + i) mod s = (if c + i < s then c + i else c + i - s)"
    using i le inv s c by (intro lap_mod) linarith
  also have "rb_buffer rb ! \<dots> = (if c < s then
       if s \<le> c + n then take (s - c) (drop c (rb_buffer rb)) @ take (n - (s - c)) (rb_buffer rb)
       else take n (drop c (rb_buffer rb))
     else take n (drop (c - s) (rb_buffer rb))) ! i"
    using i le inv s c by (auto simp: nth_append add.commute)
  finally show "take n (drop off (rb_contents rb)) ! i = (if c < s then
       if s \<le> c + n then take (s - c) (drop c (rb_buffer rb)) @ take (n - (s - c)) (rb_buffer rb)
       else take n (drop c (rb_buffer rb))
     else take n (drop (c - s) (rb_buffer rb))) ! i" .
qed

lemma unat_begin_add:
  assumes "rb_inv rb" and "unat n \<le> length (rb_contents rb)"
  shows "unat (rb_begin rb + n) = unat (rb_begin rb) + unat n"
  using rb_invD [OF assms(1)] assms(2) by (intro unat_add_lt) (simp add: length_rb_contents)

lemma rb_advance_inv:
  assumes "rb_inv rb" and "unat n \<le> length (rb_contents rb)"
  shows "rb_inv (rb_advance rb n)"
  using rb_invD [OF assms(1)] assms(2) unat_begin_add [OF assms]
  by (auto simp: rb_advance_def rb_inv_def word_le_nat_alt length_rb_contents word_arith)

lemma rb_advance_contents:
  assumes "rb_inv rb" and "unat n \<le> length (rb_contents rb)"
  shows "rb_contents (rb_advance rb n) = drop (unat n) (rb_contents rb)"
proof (rule nth_equalityI)
  note inv = rb_invD [OF assms(1)] and bn = unat_begin_add [OF assms]
  have le: "unat n \<le> unat (rb_end rb) - unat (rb_begin rb)"
    using assms(2) by (simp add: length_rb_contents)
  show len: "length (rb_contents (rb_advance rb n)) = length (drop (unat n) (rb_contents rb))"
    using inv le bn
    by (auto simp: rb_advance_def length_rb_contents word_le_nat_alt word_arith)
  fix i assume "i < length (rb_contents (rb_advance rb n))"
  then have i: "i < unat (rb_end rb) - unat (rb_begin rb) - unat n"
    unfolding len by (simp add: length_rb_contents)
  have "(unat (rb_begin rb) + unat n - unat (rb_size rb) + i) mod unat (rb_size rb)
      = (unat (rb_begin rb) + (unat n + i)) mod unat (rb_size rb)"
    if "unat (rb_size rb) \<le> unat (rb_begin rb) + unat n"
    using that by (simp add: le_mod_geq flip: add.assoc)
  then show "rb_contents (rb_advance rb n) ! i = drop (unat n) (rb_contents rb) ! i"
    using inv le bn i
    by (auto simp: rb_advance_def nth_rb_contents length_rb_contents word_le_nat_alt word_arith
        add.assoc)
qed

subsection \<open>The operations, branch by branch\<close>

lemma consume_eq:
  assumes "rb_inv rb"
  shows "RingBuffer_consume dbg rb len =
    Inr (rb_advance rb (min len (RingBuffer_remaining rb)), min len (RingBuffer_remaining rb))"
  using rb_invD [OF assms]
  by (auto simp: RingBuffer_consume_def rb_advance_def Let_def DCHECK_ok word_less_nat_alt)

lemma unat_read_count:
  "rb_inv rb \<Longrightarrow> unat (min len (RingBuffer_remaining rb)) = min (unat len) (length (rb_contents rb))"
  by (simp add: unat_min unat_remaining)

lemma read_eq:
  assumes "rb_inv rb" and n: "n = min len (RingBuffer_remaining rb)"
  shows "RingBuffer_read dbg rb len =
    Inr (rb_advance rb n, take (unat n) (rb_contents rb), n)"
proof (cases "RingBuffer_empty rb")
  case True
  then have "RingBuffer_remaining rb = 0"
    by (simp add: RingBuffer_empty_def RingBuffer_remaining_def)
  then have "n = 0" by (simp add: n)
  moreover have "rb_advance rb 0 = rb"
    using rb_invD [OF assms(1)] by (auto simp: rb_advance_def word_le_nat_alt)
  ultimately show ?thesis
    using True by (simp add: RingBuffer_read_def)
next
  case False
  note inv = rb_invD [OF assms(1)]
  have un: "unat n = min (unat len) (length (rb_contents rb))"
    using unat_read_count [OF assms(1)] by (simp add: n)
  then have le: "unat n \<le> length (rb_contents rb)" by simp
  note bn = unat_begin_add [OF assms(1) le]
  have sb: "unat (rb_size rb - rb_begin rb) = unat (rb_size rb) - unat (rb_begin rb)"
    using inv by (simp add: word_arith)
  have slice: "take (unat n) (rb_contents rb) =
    (if unat (rb_size rb) \<le> unat (rb_begin rb) + unat n
     then drop (unat (rb_begin rb)) (rb_buffer rb) @
       take (unat n - (unat (rb_size rb) - unat (rb_begin rb))) (rb_buffer rb)
     else take (unat n) (drop (unat (rb_begin rb)) (rb_buffer rb)))"
    using rb_slice [OF assms(1), of 0 "unat n" "unat (rb_size rb)" "unat (rb_begin rb)"] le inv
    by simp
  have "unat n \<le> unat (rb_size rb)"
    using le length_contents_le [OF assms(1)] by simp
  then show ?thesis
    using False inv bn
    by (auto simp: RingBuffer_read_def Let_def n [symmetric] rb_advance_def slice DCHECK_ok
        word_less_nat_alt word_le_nat_alt mem_read_ok sb unat_sub_le)
qed

lemma read_offset_eq:
  assumes "rb_inv rb" and "unat off \<le> length (rb_contents rb)"
    and n: "n = min len (rb_end rb - (rb_begin rb + off))"
  shows "unat n = min (unat len) (length (rb_contents rb) - unat off)"
    and "RingBuffer_read_offset dbg rb off len =
      Inr (take (unat len) (drop (unat off) (rb_contents rb)), n)"
proof -
  note inv = rb_invD [OF assms(1)] and bo = unat_begin_add [OF assms(1,2)]
  have le: "unat off \<le> unat (rb_end rb) - unat (rb_begin rb)"
    using assms(2) by (simp add: length_rb_contents)
  show un: "unat n = min (unat len) (length (rb_contents rb) - unat off)"
    using inv le by (simp add: n unat_min unat_sub_le bo length_rb_contents)
  have tk: "take (unat len) (drop (unat off) (rb_contents rb)) =
      take (unat n) (drop (unat off) (rb_contents rb))"
    unfolding un by (simp add: take_min_drop)
  have on: "unat off + unat n \<le> length (rb_contents rb)"
    using un assms(2) by simp
  have bon: "unat (rb_begin rb + off + n) = unat (rb_begin rb) + unat off + unat n"
    using inv on by (subst unat_add_lt) (simp_all add: bo length_rb_contents)
  have sb: "unat (rb_size rb - (rb_begin rb + off)) = unat (rb_size rb) - (unat (rb_begin rb) + unat off)"
    if "unat (rb_begin rb) + unat off < unat (rb_size rb)"
    using that by (simp add: unat_sub_le bo)
  have bs: "unat (rb_begin rb + off - rb_size rb) = unat (rb_begin rb) + unat off - unat (rb_size rb)"
    if "unat (rb_size rb) \<le> unat (rb_begin rb) + unat off"
    using that by (simp add: unat_sub_le bo)
  have ns: "unat n \<le> unat (rb_size rb)"
    using on length_contents_le [OF assms(1)] by simp
  note slice = rb_slice [OF assms(1) on refl refl]
  show "RingBuffer_read_offset dbg rb off len =
      Inr (take (unat len) (drop (unat off) (rb_contents rb)), n)"
  proof (cases "n = 0")
    case True
    then show ?thesis
      unfolding tk by (simp add: RingBuffer_read_offset_def Let_def n [symmetric])
  next
    case False
    have "rb_begin rb + off + n \<le> rb_end rb"
      using on inv by (simp add: word_le_nat_alt bon length_rb_contents)
    then show ?thesis
      unfolding tk slice
      using False inv on ns bon bo
      by (auto simp: RingBuffer_read_offset_def Let_def n [symmetric] DCHECK_ok
          word_less_nat_alt word_le_nat_alt mem_read_ok sb bs unat_sub_le length_rb_contents)
  qed
qed

lemma read_offset_past_end:
  assumes "rb_inv rb" and "length (rb_contents rb) < unat off" and "unat off \<le> 2 ^ 62"
    and "0 < unat len" and "unat len \<le> 2 ^ 62"
  shows "RingBuffer_read_offset True rb off len = Inl DCheckFailed"
proof -
  note inv = rb_invD [OF assms(1)]
  let ?c = "rb_begin rb + off"
  have c: "unat ?c = unat (rb_begin rb) + unat off"
    using inv assms(3) by (intro unat_add_lt) simp
  have past: "unat (rb_end rb) < unat ?c"
    using inv assms(2) by (simp add: c length_rb_contents)
  have nz: "rb_end rb - ?c \<noteq> 0"
    using past by auto
  let ?n = "min len (rb_end rb - ?c)"
  have n0: "?n \<noteq> 0"
    using nz assms(4) by (auto simp: min_def)
  have "unat ?n \<le> unat len" by (simp add: unat_min)
  then have "unat (?c + ?n) = unat ?c + unat ?n"
    using inv assms(3,5) c by (intro unat_add_lt) simp
  then have "\<not> ?c + ?n \<le> rb_end rb"
    using past by (simp add: word_le_nat_alt)
  then show ?thesis
    using n0 by (simp add: RingBuffer_read_offset_def Let_def DCHECK_def)
qed

lemma unat_write_count:
  "rb_inv rb \<Longrightarrow> unat (min len (RingBuffer_free rb)) =
     min (unat len) (unat (rb_size rb) - length (rb_contents rb))"
  by (simp add: unat_min unat_free)

text \<open>
  \<open>write\<close> while \<open>end_\<close> has not lapped: the bytes are appended to the queue, in one run or
  split over the end of the block.
\<close>

lemma write_buffer_nth:
  assumes "rb_inv rb" and "unat (rb_end rb) < unat (rb_size rb)"
    and "length d + length (rb_contents rb) \<le> unat (rb_size rb)"
    and "length m = unat (rb_size rb)"
    and m: "\<And>j. j < unat (rb_size rb) \<Longrightarrow> m ! j =
      (if unat (rb_end rb) \<le> j \<and> j < unat (rb_end rb) + length d then d ! (j - unat (rb_end rb))
       else if j + unat (rb_size rb) < unat (rb_end rb) + length d
         then d ! (j + unat (rb_size rb) - unat (rb_end rb))
       else rb_buffer rb ! j)"
    and e: "unat e = unat (rb_end rb) + length d"
  shows "rb_inv (rb\<lparr>rb_buffer := m, rb_end := e\<rparr>)"
    and "rb_contents (rb\<lparr>rb_buffer := m, rb_end := e\<rparr>) = rb_contents rb @ d"
proof -
  note inv = rb_invD [OF assms(1)]
  have fits: "unat (rb_end rb) + length d \<le> unat (rb_begin rb) + unat (rb_size rb)"
    using assms(3) inv by (simp add: length_rb_contents)
  show "rb_inv (rb\<lparr>rb_buffer := m, rb_end := e\<rparr>)"
    using inv fits assms(4) e by (simp add: rb_inv_def)
  show "rb_contents (rb\<lparr>rb_buffer := m, rb_end := e\<rparr>) = rb_contents rb @ d" (is "?l = _")
  proof (rule nth_equalityI)
    show len: "length ?l = length (rb_contents rb @ d)"
      using inv e by (simp add: length_rb_contents)
    fix i assume "i < length ?l"
    then have i: "i < unat (rb_end rb) - unat (rb_begin rb) + length d"
      unfolding len by (simp add: length_rb_contents)
    have lm: "(unat (rb_begin rb) + i) mod unat (rb_size rb) =
        (if unat (rb_begin rb) + i < unat (rb_size rb) then unat (rb_begin rb) + i
         else unat (rb_begin rb) + i - unat (rb_size rb))"
      using i fits inv by (intro lap_mod) linarith
    have "?l ! i = m ! ((unat (rb_begin rb) + i) mod unat (rb_size rb))"
      using i e inv by (subst nth_rb_contents) simp_all
    also have "\<dots> = (rb_contents rb @ d) ! i"
    proof (cases "i < unat (rb_end rb) - unat (rb_begin rb)")
      case True
      then have lt: "unat (rb_begin rb) + i < unat (rb_end rb)" by linarith
      then have "\<not> unat (rb_begin rb) + i + unat (rb_size rb) < unat (rb_end rb) + length d"
        using fits by linarith
      then show ?thesis
        using True lt assms(2) lm
        by (simp add: m nth_append length_rb_contents nth_rb_contents)
    next
      case False
      then show ?thesis
        using i inv assms(2) fits lm
        by (auto simp: m nth_append length_rb_contents add.commute)
    qed
    finally show "?l ! i = (rb_contents rb @ d) ! i" .
  qed
qed

lemma write_count_facts:
  assumes "rb_inv rb" and "unat len \<le> length data" and n: "n = min len (RingBuffer_free rb)"
  shows "unat n \<le> length data" and "unat n + length (rb_contents rb) \<le> unat (rb_size rb)"
    and "unat n \<le> unat (rb_size rb)"
    and "unat (rb_end rb + n) = unat (rb_end rb) + unat n"
    and "DCHECK dbg (rb_begin rb < rb_size rb) = Inr ()"
proof -
  note inv = rb_invD [OF assms(1)]
  have un: "unat n = min (unat len) (unat (rb_size rb) - length (rb_contents rb))"
    unfolding n by (rule unat_write_count [OF assms(1)])
  show "unat n \<le> length data" using un assms(2) by linarith
  show fits: "unat n + length (rb_contents rb) \<le> unat (rb_size rb)"
    using un length_contents_le [OF assms(1)] by linarith
  then show "unat n \<le> unat (rb_size rb)" by linarith
  show "unat (rb_end rb + n) = unat (rb_end rb) + unat n"
    using inv fits by (intro unat_add_lt) (simp add: length_rb_contents)
  show "DCHECK dbg (rb_begin rb < rb_size rb) = Inr ()"
    using inv by (simp add: DCHECK_ok word_less_nat_alt)
qed

lemma write_one_run:
  assumes "rb_inv rb" and "unat (rb_end rb) < unat (rb_size rb)" and "unat len \<le> length data"
    and n: "n = min len (RingBuffer_free rb)" and lt: "unat (rb_end rb) + unat n < unat (rb_size rb)"
  shows "\<exists>rb'. RingBuffer_write dbg rb data len = Inr (rb', n) \<and> rb_inv rb' \<and>
    rb_size rb' = rb_size rb \<and> rb_contents rb' = rb_contents rb @ take (unat n) data"
proof -
  note inv = rb_invD [OF assms(1)] and cnt = write_count_facts [OF assms(1,3) n]
  let ?s = "unat (rb_size rb)" and ?e = "unat (rb_end rb)" and ?d = "take (unat n) data"
  have ld: "length ?d = unat n" using cnt(1) by simp
  let ?m = "take ?e (rb_buffer rb) @ ?d @ drop (?e + length ?d) (rb_buffer rb)"
  have "\<not> RingBuffer_full rb"
    using assms(2) inv by (simp add: full_iff [OF assms(1)] length_rb_contents)
  then have eq: "RingBuffer_write dbg rb data len =
      Inr (rb\<lparr>rb_buffer := ?m, rb_end := rb_end rb + n\<rparr>, n)"
    using lt inv cnt(1,4)
    by (simp add: RingBuffer_write_def Let_def n [symmetric] cnt(5) word_le_nat_alt mem_read_ok
        mem_write_ok)
  have at: "?m ! j = (if ?e \<le> j \<and> j < ?e + length ?d then ?d ! (j - ?e)
      else if j + ?s < ?e + length ?d then ?d ! (j + ?s - ?e) else rb_buffer rb ! j)"
    if "j < ?s" for j
    using that lt inv ld by (subst nth_splice) auto
  have lm: "length ?m = ?s" using lt inv ld by simp
  show ?thesis
    using write_buffer_nth [OF assms(1,2) _ lm at, of "rb_end rb + n"] cnt(2,4) ld eq
    by auto
qed

lemma write_two_runs:
  assumes "rb_inv rb" and "unat (rb_end rb) < unat (rb_size rb)" and "unat len \<le> length data"
    and n: "n = min len (RingBuffer_free rb)" and ge: "unat (rb_size rb) \<le> unat (rb_end rb) + unat n"
  shows "\<exists>rb'. RingBuffer_write dbg rb data len = Inr (rb', n) \<and> rb_inv rb' \<and>
    rb_size rb' = rb_size rb \<and> rb_contents rb' = rb_contents rb @ take (unat n) data"
proof -
  note inv = rb_invD [OF assms(1)] and cnt = write_count_facts [OF assms(1,3) n]
  let ?s = "unat (rb_size rb)" and ?e = "unat (rb_end rb)" and ?d = "take (unat n) data"
  let ?k = "rb_size rb - rb_end rb"
  have k: "unat ?k = ?s - ?e" using assms(2) by (simp add: unat_sub_le)
  have nk: "unat (n - ?k) = unat n - (?s - ?e)"
    using ge by (subst unat_sub_le) (simp_all add: k)
  have ld: "length ?d = unat n" using cnt(1) by simp
  let ?p = "take (?s - ?e) data" and ?q = "take (unat n - (?s - ?e)) (drop (?s - ?e) data)"
  have lp: "length ?p = ?s - ?e" and lq: "length ?q = unat n - (?s - ?e)"
    using ge cnt(1) by simp_all
  let ?m = "take ?e (rb_buffer rb) @ ?p"
  have lm: "length ?m = ?s" using lp inv assms(2) by simp
  have lqm: "length ?q \<le> length ?m" using cnt(3) unfolding lm lq by linarith
  let ?m' = "?q @ drop (length ?q) ?m"
  have "mem_write (rb_buffer rb) (rb_end rb) ?p = Inr ?m"
    using lp inv assms(2) by (subst mem_write_ok) simp_all
  moreover have "mem_write ?m 0 ?q = Inr ?m'"
    using lqm by (simp add: mem_write_def del: length_append length_take length_drop append_assoc)
  moreover have "mem_read data 0 ?k = Inr ?p"
    using ge cnt(1) by (subst mem_read_ok) (simp_all add: k)
  moreover have "mem_read data ?k (n - ?k) = Inr ?q"
    using ge cnt(1) by (subst mem_read_ok) (simp_all add: k nk)
  moreover have "\<not> RingBuffer_full rb"
    using assms(2) inv by (simp add: full_iff [OF assms(1)] length_rb_contents)
  ultimately have eq: "RingBuffer_write dbg rb data len =
      Inr (rb\<lparr>rb_buffer := ?m', rb_end := rb_end rb + n\<rparr>, n)"
    using assms(2) ge cnt(4)
    by (simp add: RingBuffer_write_def Let_def n [symmetric] cnt(5) word_le_nat_alt
        del: append_assoc)
  have at: "?m' ! j = (if ?e \<le> j \<and> j < ?e + length ?d then ?d ! (j - ?e)
      else if j + ?s < ?e + length ?d then ?d ! (j + ?s - ?e) else rb_buffer rb ! j)"
    if "j < ?s" for j
    using that ge cnt inv assms(2)
    by (auto simp: nth_append lq ld length_rb_contents add.commute)
  have lm': "length ?m' = ?s"
    unfolding length_append [of ?q "drop (length ?q) ?m"] length_drop [of "length ?q" ?m]
    using lqm lm by linarith
  show ?thesis
    using write_buffer_nth [OF assms(1,2) _ lm' at, of "rb_end rb + n"] cnt(2,4) ld eq
    by auto
qed

lemma write_linear:
  assumes "rb_inv rb" and "unat (rb_end rb) < unat (rb_size rb)" and "unat len \<le> length data"
    and "n = min len (RingBuffer_free rb)"
  shows "\<exists>rb'. RingBuffer_write dbg rb data len = Inr (rb', n) \<and> rb_inv rb' \<and>
    rb_size rb' = rb_size rb \<and> rb_contents rb' = rb_contents rb @ take (unat n) data"
  using write_one_run [OF assms] write_two_runs [OF assms] by (metis linorder_not_less)

text \<open>
  \<open>write\<close> once \<open>end_\<close> has lapped: the bytes land in the free part of the block, \<open>end_\<close> does
  not move, and the queue holds what it held before although the count is returned.
\<close>

lemma write_lapped:
  assumes "rb_inv rb" and "unat (rb_size rb) \<le> unat (rb_end rb)" and "unat len \<le> length data"
    and n: "n = min len (RingBuffer_free rb)"
  shows "\<exists>rb'. RingBuffer_write dbg rb data len = Inr (rb', n) \<and> rb_inv rb' \<and>
    rb_size rb' = rb_size rb \<and> rb_contents rb' = rb_contents rb"
proof (cases "RingBuffer_full rb")
  case True
  then have "rb_end rb = rb_begin rb + rb_size rb"
    by (simp add: RingBuffer_full_def)
  then have "RingBuffer_free rb = 0"
    by (simp add: RingBuffer_free_def RingBuffer_remaining_def)
  then have "n = 0" by (simp add: n)
  then show ?thesis using True assms(1) by (simp add: RingBuffer_write_def)
next
  case False
  note inv = rb_invD [OF assms(1)] and cnt = write_count_facts [OF assms(1,3) n]
  let ?s = "unat (rb_size rb)" and ?e = "unat (rb_end rb)" and ?d = "take (unat n) data"
  let ?m = "take (?e - ?s) (rb_buffer rb) @ ?d @ drop (?e - ?s + length ?d) (rb_buffer rb)"
  have es: "unat (rb_end rb - rb_size rb) = ?e - ?s"
    using assms(2) by (rule unat_sub_le)
  have ld: "length ?d = unat n" using cnt(1) by simp
  have fits: "?e - ?s + unat n \<le> unat (rb_begin rb)"
    using cnt(2) inv assms(2) by (simp add: length_rb_contents)
  have eq: "RingBuffer_write dbg rb data len = Inr (rb\<lparr>rb_buffer := ?m\<rparr>, n)"
    using False assms(2) inv fits cnt(1)
    by (simp add: RingBuffer_write_def Let_def n [symmetric] cnt(5) word_le_nat_alt mem_read_ok
        mem_write_ok es)
  have "rb_inv (rb\<lparr>rb_buffer := ?m\<rparr>)"
    using inv fits ld by (simp add: rb_inv_def)
  moreover have "rb_contents (rb\<lparr>rb_buffer := ?m\<rparr>) = rb_contents rb"
  proof (rule nth_equalityI)
    show "length (rb_contents (rb\<lparr>rb_buffer := ?m\<rparr>)) = length (rb_contents rb)"
      by (simp add: length_rb_contents)
    fix i assume "i < length (rb_contents (rb\<lparr>rb_buffer := ?m\<rparr>))"
    then have i: "i < ?e - unat (rb_begin rb)" by (simp add: length_rb_contents)
    let ?j = "(unat (rb_begin rb) + i) mod ?s"
    have "?j = (if unat (rb_begin rb) + i < ?s then unat (rb_begin rb) + i
        else unat (rb_begin rb) + i - ?s)"
      using i inv by (intro lap_mod) linarith
    then have "\<not> (?e - ?s \<le> ?j \<and> ?j < ?e - ?s + length ?d)" and "?j < ?s"
      using fits i ld inv by (auto split: if_splits)
    then have "?m ! ?j = rb_buffer rb ! ?j"
      using fits inv ld by (subst nth_splice) auto
    then show "rb_contents (rb\<lparr>rb_buffer := ?m\<rparr>) ! i = rb_contents rb ! i"
      using i by (simp add: nth_rb_contents)
  qed
  ultimately show ?thesis using eq by simp
qed

lemma write_ok:
  assumes "rb_inv rb" and "unat len \<le> length data"
  shows "\<exists>rb' n. RingBuffer_write dbg rb data len = Inr (rb', n) \<and> rb_inv rb' \<and>
    rb_size rb' = rb_size rb \<and>
    unat n = min (unat len) (unat (rb_size rb) - length (rb_contents rb)) \<and>
    rb_contents rb' = (if unat (rb_end rb) < unat (rb_size rb)
      then rb_contents rb @ take (unat n) data else rb_contents rb)"
  using write_linear [OF assms(1) _ assms(2) refl, of dbg]
    write_lapped [OF assms(1) _ assms(2) refl, of dbg]
    unat_write_count [OF assms(1), of len]
  by (metis linorder_not_less)

lemma RingBuffer_init:
  assumes "0 < unat sz" and "unat sz \<le> 2 ^ 62"
  shows "rb_inv (RingBuffer fresh sz)" and "rb_contents (RingBuffer fresh sz) = []"
  using assms by (simp_all add: RingBuffer_def rb_inv_def rb_contents_def)

subsection \<open>The buffer as a byte queue\<close>

lemmas rb_slack = read_eq consume_eq unat_read_count rb_advance_inv rb_advance_contents

lemma rb_advance_size [simp]: "rb_size (rb_advance rb n) = rb_size rb"
  by (simp add: rb_advance_def)

interpretation rb: byte_queue rb_inv rb_contents "\<lambda>rb. unat (rb_size rb)"
  "\<lambda>rb. unat (rb_end rb) < unat (rb_size rb)" "RingBuffer_write dbg" "RingBuffer_read dbg"
  "RingBuffer_read_offset dbg" "RingBuffer_consume dbg" for dbg
proof (unfold_locales, goal_cases)
  case (1 q) then show ?case by (rule length_contents_le)
next
  case (2 q) then show ?case by (simp add: rb_inv_def)
next
  case (3 q n d)
  then show ?case using write_linear [OF 3 refl] unat_write_count by metis
next
  case (4 q n) then show ?case by (simp add: rb_slack)
next
  case (5 q off n) then show ?case using read_offset_eq [OF 5 refl] by blast
next
  case (6 q n) then show ?case by (simp add: rb_slack)
qed

lemma rb_reachable_inv: "rb_reachable dbg rb \<Longrightarrow> rb_inv rb"
proof (induction rule: rb_reachable.induct)
  case (rb_init sz fresh) then show ?case by (rule RingBuffer_init(1))
next
  case (rb_write rb data len rb' n) then show ?case using write_ok [of rb len data dbg] by auto
next
  case (rb_read rb len rb' out n) then show ?case by (auto simp: rb_slack)
next
  case (rb_consume rb len rb' n) then show ?case by (auto simp: rb_slack)
qed

section \<open>Properties\<close>

text \<open>
  C6: No sequence of calls makes the ring buffer fail. In every buffer a client can reach, the
  indices satisfy the representation invariant, and each further call returns normally: no
  \<open>DCHECK\<close> fires in a debug build and no \<open>memcpy\<close> leaves the block, whatever the arguments,
  provided the source of a \<open>write\<close> holds the bytes announced and the offset of a
  \<open>read_offset\<close> is not past the data.
\<close>

theorem RingBuffer_safe:
  assumes "rb_reachable dbg rb"
  shows "rb_inv rb \<and>
    (unat len \<le> length data \<longrightarrow> (\<exists>r. RingBuffer_write dbg rb data len = Inr r)) \<and>
    (\<exists>r. RingBuffer_read dbg rb len = Inr r) \<and> (\<exists>r. RingBuffer_consume dbg rb len = Inr r) \<and>
    (off \<le> RingBuffer_remaining rb \<longrightarrow> (\<exists>r. RingBuffer_read_offset dbg rb off len = Inr r))"
proof (intro conjI impI)
  show inv: "rb_inv rb" using assms by (rule rb_reachable_inv)
  show "\<exists>r. RingBuffer_read dbg rb len = Inr r" by (simp add: read_eq [OF inv refl])
  show "\<exists>r. RingBuffer_consume dbg rb len = Inr r" by (simp add: consume_eq [OF inv])
  { assume "unat len \<le> length data"
    then show "\<exists>r. RingBuffer_write dbg rb data len = Inr r" using write_ok [OF inv] by blast }
  { assume "off \<le> RingBuffer_remaining rb"
    then show "\<exists>r. RingBuffer_read_offset dbg rb off len = Inr r"
      using read_offset_eq(2) [OF inv _ refl]
      by (auto simp: word_le_nat_alt unat_remaining [OF inv]) }
qed

theorem RingBuffer_safe_witness:
  "rb_reachable True (RingBuffer (\<lambda>_. 0) 5) \<and>
   (\<exists>r. RingBuffer_write True (RingBuffer (\<lambda>_. 0) 5) [97, 98] 2 = Inr r) \<and>
   (\<exists>r. RingBuffer_read_offset True (RingBuffer (\<lambda>_. 0) 5) 0 3 = Inr r)"
proof -
  have r: "rb_reachable True (RingBuffer (\<lambda>_. 0) 5)" by (rule rb_reachable.rb_init) simp_all
  show ?thesis
    using r RingBuffer_safe [OF r, of 2 "[97, 98]" 0] RingBuffer_safe [OF r, of 3 "[]" 0] by simp
qed



text \<open>
  Once \<open>end_\<close> has lapped the block (after the queue has wrapped around), \<open>write\<close> loses
  data: it reports a positive number of bytes as written whenever there is room, but the queue
  holds exactly what it held before, because that branch does not advance \<open>end_\<close>.
\<close>

theorem RingBuffer_write_lapped_loses_data:
  assumes "rb_inv rb" and "rb_size rb \<le> rb_end rb" and "unat len \<le> length data"
    and "\<not> RingBuffer_full rb" and "0 < len"
  shows "\<exists>rb' n. RingBuffer_write dbg rb data len = Inr (rb', n) \<and> 0 < n \<and>
    n = min len (RingBuffer_free rb) \<and> rb_contents rb' = rb_contents rb"
proof -
  have "0 < unat (min len (RingBuffer_free rb))"
    using assms full_iff [OF assms(1)] length_contents_le [OF assms(1)]
    by (simp add: unat_write_count word_less_nat_alt)
  then show ?thesis
    using write_lapped [OF assms(1) _ assms(3) refl, of dbg] assms(2)
    by (auto simp: word_le_nat_alt word_less_nat_alt)
qed

text \<open>
  The witness is the state after writing \<open>hello\<close> into a buffer of five bytes and reading
  \<open>he\<close>: two bytes are free, a write of \<open>xy\<close> returns 2, and the queue still is \<open>llo\<close>.
\<close>

theorem RingBuffer_write_lapped_loses_data_witness:
  "\<exists>rb rb' n. rb_contents rb = [108, 108, 111] \<and>
    RingBuffer_write True rb [120, 121] 2 = Inr (rb', n) \<and> 0 < n \<and> rb_contents rb' = [108, 108, 111]"
proof -
  let ?rb = "\<lparr>rb_size = 5, rb_buffer = [104, 101, 108, 108, 111], rb_begin = 2, rb_end = 5\<rparr>"
  have c: "rb_contents ?rb = [108, 108, 111]"
    by code_simp
  have "rb_inv ?rb" by (simp add: rb_inv_def)
  then show ?thesis
    using RingBuffer_write_lapped_loses_data [of ?rb 2 "[120, 121]" True] c
    by (force simp: RingBuffer_full_def)
qed

text \<open>
  The non-destructive read that retransmission uses agrees with discarding. After
  \<open>consume(m)\<close> the byte found at an offset is the byte that was at that offset plus \<open>m\<close>, and
  \<open>read\<close> is \<open>read_offset\<close> at 0 followed by \<open>consume\<close>.
\<close>

theorem RingBuffer_peek_consume:
  assumes "rb_inv rb" and "unat m + unat off \<le> unat (RingBuffer_remaining rb)"
  shows "(\<exists>rb'. RingBuffer_consume dbg rb m = Inr (rb', m) \<and>
      RingBuffer_read_offset dbg rb' off n = RingBuffer_read_offset dbg rb (m + off) n) \<and>
    (\<exists>rb\<^sub>1 rb\<^sub>2 bs k. RingBuffer_read dbg rb n = Inr (rb\<^sub>1, bs, k) \<and>
      RingBuffer_read_offset dbg rb 0 n = Inr (bs, k) \<and>
      RingBuffer_consume dbg rb n = Inr (rb\<^sub>2, k) \<and> rb_contents rb\<^sub>1 = rb_contents rb\<^sub>2)"
proof (intro conjI)
  have le: "unat m + unat off \<le> length (rb_contents rb)"
    using assms(2) unat_remaining [OF assms(1)] by simp
  have "unat (m + off) = unat m + unat off"
    using le length_contents_le [OF assms(1)] rb_invD(2) [OF assms(1)]
    by (intro unat_add_lt) simp
  with le show "\<exists>rb'. RingBuffer_consume dbg rb m = Inr (rb', m) \<and>
      RingBuffer_read_offset dbg rb' off n = RingBuffer_read_offset dbg rb (m + off) n"
    by (rule rb.peek_after_skip [OF assms(1)])
  show "\<exists>rb\<^sub>1 rb\<^sub>2 bs k. RingBuffer_read dbg rb n = Inr (rb\<^sub>1, bs, k) \<and>
      RingBuffer_read_offset dbg rb 0 n = Inr (bs, k) \<and>
      RingBuffer_consume dbg rb n = Inr (rb\<^sub>2, k) \<and> rb_contents rb\<^sub>1 = rb_contents rb\<^sub>2"
    by (rule rb.deq_is_peek_skip [OF assms(1)])
qed

theorem RingBuffer_peek_consume_witness:
  "\<exists>rb rb'. rb_contents rb = [108, 108, 111] \<and> RingBuffer_consume True rb 1 = Inr (rb', 1) \<and>
    RingBuffer_read_offset True rb' 1 4 = RingBuffer_read_offset True rb 2 4"
proof -
  let ?rb = "\<lparr>rb_size = 5, rb_buffer = [104, 101, 108, 108, 111], rb_begin = 2, rb_end = 5\<rparr>"
  have c: "rb_contents ?rb = [108, 108, 111]"
    by code_simp
  have "rb_inv ?rb" by (simp add: rb_inv_def)
  then show ?thesis
    using RingBuffer_peek_consume [of ?rb 1 1 True 4] c by (force simp: RingBuffer_remaining_def)
qed

text \<open>
  \<open>read_offset\<close> with an offset past the queued data does not return 0: the subtraction
  \<open>end_ - begin_off\<close> wraps around, and in a debug build the \<open>DCHECK\<close> on the end of the range
  stops the process.
\<close>

theorem RingBuffer_read_offset_past_end:
  assumes "rb_inv rb" and "RingBuffer_remaining rb < off" and "unat off \<le> 2 ^ 62"
    and "0 < len" and "unat len \<le> 2 ^ 62"
  shows "RingBuffer_read_offset True rb off len = Inl DCheckFailed"
  using assms read_offset_past_end [OF assms(1), of off len]
  by (simp add: word_less_nat_alt unat_remaining)

theorem RingBuffer_read_offset_past_end_witness:
  "RingBuffer_read_offset True (RingBuffer (\<lambda>_. 0) 5) 1 3 = Inl DCheckFailed"
  using RingBuffer_read_offset_past_end [of "RingBuffer (\<lambda>_. 0) 5" 1 3]
    RingBuffer_init [of 5 "\<lambda>_. 0"]
  by (simp add: RingBuffer_def RingBuffer_remaining_def)

end
