(* ===== verification/Data_Stream.thy ===== *)
theory Data_Stream
  imports Prelude
begin

text \<open>
  \<open>src/base/data_reader.{h,cpp}\<close> and \<open>src/base/data_writer.{h,cpp}\<close>: sequential access to
  the bytes of a packet in network byte order. A reader or writer is a block of memory, the
  capacity the caller announced for it, and a position. Methods that return \<open>bool\<close> in the
  code return it here too; the value stored through the result pointer of a reader is the
  \<open>option\<close> (\<open>None\<close> when the method returns \<open>false\<close> and stores nothing).
\<close>

section \<open>Definitions\<close>

record data_reader =
  dr_buffer :: "byte list"
  dr_capacity :: size_t
  dr_pos :: size_t

definition DataReader :: "byte list \<Rightarrow> size_t \<Rightarrow> data_reader" where
  "DataReader buf capacity = \<lparr>dr_buffer = buf, dr_capacity = capacity, dr_pos = 0\<rparr>"

definition DataReader_readBytes ::
  "data_reader \<Rightarrow> size_t \<Rightarrow> (data_reader \<times> byte list option) res" where
  "DataReader_readBytes r len =
     (if dr_capacity r < dr_pos r + len then Inr (r, None)
      else rbind (mem_read (dr_buffer r) (dr_pos r) len) (\<lambda>bs.
        Inr (r\<lparr>dr_pos := dr_pos r + len\<rparr>, Some bs)))"

definition DataReader_readUInt8 :: "data_reader \<Rightarrow> (data_reader \<times> byte option) res" where
  "DataReader_readUInt8 r =
     rbind (DataReader_readBytes r 1) (\<lambda>(r', v). Inr (r', map_option hd v))"

definition DataReader_readUInt16 :: "data_reader \<Rightarrow> (data_reader \<times> uint16 option) res" where
  "DataReader_readUInt16 r =
     rbind (DataReader_readBytes r 2) (\<lambda>(r', v).
       Inr (r', map_option (\<lambda>bs. htons (host_word16 bs)) v))"

definition DataReader_readUInt32 :: "data_reader \<Rightarrow> (data_reader \<times> uint32 option) res" where
  "DataReader_readUInt32 r =
     rbind (DataReader_readBytes r 4) (\<lambda>(r', v).
       Inr (r', map_option (\<lambda>bs. htonl (host_word32 bs)) v))"

definition DataReader_readUInt64 :: "data_reader \<Rightarrow> (data_reader \<times> uint64 option) res" where
  "DataReader_readUInt64 r =
     rbind (DataReader_readBytes r 8) (\<lambda>(r', v).
       Inr (r', map_option (\<lambda>bs. htonll (host_word64 bs)) v))"

definition DataReader_skip :: "data_reader \<Rightarrow> size_t \<Rightarrow> data_reader \<times> bool" where
  "DataReader_skip r len =
     (if dr_capacity r < dr_pos r + len then (r, False)
      else (r\<lparr>dr_pos := dr_pos r + len\<rparr>, True))"

definition DataReader_reset :: "data_reader \<Rightarrow> data_reader" where
  "DataReader_reset r = r\<lparr>dr_pos := 0\<rparr>"

text \<open>\<open>buffer()\<close> is the memory from the position on; \<open>length()\<close> the announced rest.\<close>

definition DataReader_buffer :: "data_reader \<Rightarrow> byte list" where
  "DataReader_buffer r = drop (unat (dr_pos r)) (dr_buffer r)"

definition DataReader_length :: "data_reader \<Rightarrow> size_t" where
  "DataReader_length r = dr_capacity r - dr_pos r"

record data_writer =
  dw_buffer :: "byte list"
  dw_capacity :: size_t
  dw_length :: size_t

definition DataWriter :: "byte list \<Rightarrow> size_t \<Rightarrow> data_writer" where
  "DataWriter buf len = \<lparr>dw_buffer = buf, dw_capacity = len, dw_length = 0\<rparr>"

definition DataWriter_writeBytes ::
  "data_writer \<Rightarrow> byte list \<Rightarrow> size_t \<Rightarrow> (data_writer \<times> bool) res" where
  "DataWriter_writeBytes w data len =
     (if dw_capacity w < dw_length w + len then Inr (w, False)
      else rbind (mem_read data 0 len) (\<lambda>bs.
        rbind (mem_write (dw_buffer w) (dw_length w) bs) (\<lambda>m.
        Inr (w\<lparr>dw_buffer := m, dw_length := dw_length w + len\<rparr>, True))))"

definition DataWriter_writeUInt8 :: "data_writer \<Rightarrow> byte \<Rightarrow> (data_writer \<times> bool) res" where
  "DataWriter_writeUInt8 w v = DataWriter_writeBytes w [v] 1"

definition DataWriter_writeUInt16 :: "data_writer \<Rightarrow> uint16 \<Rightarrow> (data_writer \<times> bool) res" where
  "DataWriter_writeUInt16 w v = DataWriter_writeBytes w (host_bytes16 (htons v)) 2"

definition DataWriter_writeUInt32 :: "data_writer \<Rightarrow> uint32 \<Rightarrow> (data_writer \<times> bool) res" where
  "DataWriter_writeUInt32 w v = DataWriter_writeBytes w (host_bytes32 (htonl v)) 4"

definition DataWriter_writeUInt64 :: "data_writer \<Rightarrow> uint64 \<Rightarrow> (data_writer \<times> bool) res" where
  "DataWriter_writeUInt64 w v = DataWriter_writeBytes w (host_bytes64 (htonll v)) 8"

text \<open>\<open>writeRandomBytes\<close> fills from index 0 of the block, not from the current end.\<close>

definition DataWriter_writeRandomBytes ::
  "data_writer \<Rightarrow> size_t \<Rightarrow> (data_writer \<times> bool) res" where
  "DataWriter_writeRandomBytes w len =
     (if dw_capacity w < dw_length w + len then Inr (w, False)
      else rbind (mem_write (dw_buffer w) 0 (replicate (unat len) 0x23)) (\<lambda>m.
        Inr (w\<lparr>dw_buffer := m, dw_length := dw_length w + len\<rparr>, True)))"

text \<open>The bytes written so far: the range from \<open>begin()\<close> to \<open>end()\<close>.\<close>

definition DataWriter_written :: "data_writer \<Rightarrow> byte list" where
  "DataWriter_written w = take (unat (dw_length w)) (dw_buffer w)"

text \<open>
  Well-formed: the announced capacity is the size of the block, the position lies inside, and
  the block is small enough for the bounds checks not to wrap around.
\<close>

definition dr_inv :: "data_reader \<Rightarrow> bool" where
  "dr_inv r \<longleftrightarrow> unat (dr_capacity r) = length (dr_buffer r) \<and> dr_pos r \<le> dr_capacity r \<and>
     length (dr_buffer r) \<le> 2 ^ 62"

definition dw_inv :: "data_writer \<Rightarrow> bool" where
  "dw_inv w \<longleftrightarrow> unat (dw_capacity w) = length (dw_buffer w) \<and> dw_length w \<le> dw_capacity w \<and>
     length (dw_buffer w) \<le> 2 ^ 62"

text \<open>A writer after appending the bytes \<open>d\<close>.\<close>

definition dw_append :: "data_writer \<Rightarrow> byte list \<Rightarrow> data_writer" where
  "dw_append w d =
     w\<lparr>dw_buffer := take (unat (dw_length w)) (dw_buffer w) @ d @
         drop (unat (dw_length w) + length d) (dw_buffer w),
       dw_length := dw_length w + of_nat (length d)\<rparr>"

abbreviation dw_room :: "data_writer \<Rightarrow> nat \<Rightarrow> bool" where
  "dw_room w n \<equiv> unat (dw_length w) + n \<le> length (dw_buffer w)"

section \<open>Lemmas\<close>

lemma DataReader_inv:
  "unat n = length buf \<Longrightarrow> length buf \<le> 2 ^ 62 \<Longrightarrow> dr_inv (DataReader buf n)"
  by (simp add: dr_inv_def DataReader_def)

lemma DataWriter_inv:
  "unat n = length buf \<Longrightarrow> length buf \<le> 2 ^ 62 \<Longrightarrow> dw_inv (DataWriter buf n)"
  by (simp add: dw_inv_def DataWriter_def)

lemma dr_pos_le: "dr_inv r \<Longrightarrow> unat (dr_pos r) \<le> length (dr_buffer r)"
  by (simp add: dr_inv_def word_le_nat_alt)

lemma dw_length_le: "dw_inv w \<Longrightarrow> unat (dw_length w) \<le> length (dw_buffer w)"
  by (simp add: dw_inv_def word_le_nat_alt)

lemma length_written: "dw_inv w \<Longrightarrow> length (DataWriter_written w) = unat (dw_length w)"
  by (simp add: DataWriter_written_def dw_length_le)

lemma unat_dr_pos_add:
  assumes "dr_inv r" and "unat n \<le> 2 ^ 62"
  shows "unat (dr_pos r + n) = unat (dr_pos r) + unat n"
  using assms dr_pos_le [OF assms(1)] by (intro unat_add_lt) (simp add: dr_inv_def)

lemma unat_dw_length_add:
  assumes "dw_inv w" and "unat n \<le> 2 ^ 62"
  shows "unat (dw_length w + n) = unat (dw_length w) + unat n"
  using assms dw_length_le [OF assms(1)] by (intro unat_add_lt) (simp add: dw_inv_def)

lemma readBytes_ok:
  assumes "dr_inv r" and "unat n \<le> 2 ^ 62" and "unat (dr_pos r) + unat n \<le> length (dr_buffer r)"
  shows "DataReader_readBytes r n = Inr (r\<lparr>dr_pos := dr_pos r + n\<rparr>,
      Some (take (unat n) (drop (unat (dr_pos r)) (dr_buffer r))))"
    and "dr_inv (r\<lparr>dr_pos := dr_pos r + n\<rparr>)"
  using assms unat_dr_pos_add [OF assms(1,2)]
  by (simp_all add: DataReader_readBytes_def mem_read_ok dr_inv_def word_less_nat_alt
      word_le_nat_alt)

lemma readBytes_short:
  assumes "dr_inv r" and "unat n \<le> 2 ^ 62" and "length (dr_buffer r) < unat (dr_pos r) + unat n"
  shows "DataReader_readBytes r n = Inr (r, None)"
  using assms unat_dr_pos_add [OF assms(1,2)]
  by (simp add: DataReader_readBytes_def dr_inv_def word_less_nat_alt)

lemma writeBytes_full:
  assumes "dw_inv w" and "unat n \<le> 2 ^ 62" and "length (dw_buffer w) < unat (dw_length w) + unat n"
  shows "DataWriter_writeBytes w d n = Inr (w, False)"
  using assms unat_dw_length_add [OF assms(1,2)]
  by (simp add: DataWriter_writeBytes_def dw_inv_def word_less_nat_alt)

subsection \<open>Appending\<close>

lemma unat_of_nat_len: "n \<le> 2 ^ 62 \<Longrightarrow> unat (of_nat n :: size_t) = n"
  by (simp add: unat_of_nat)

lemma dw_append_facts:
  assumes "dw_inv w" and "dw_room w (length d)"
  shows "unat (dw_length (dw_append w d)) = unat (dw_length w) + length d"
    and "dw_inv (dw_append w d)"
    and "length (dw_buffer (dw_append w d)) = length (dw_buffer w)"
    and "dw_capacity (dw_append w d) = dw_capacity w"
    and "DataWriter_written (dw_append w d) = DataWriter_written w @ d"
proof -
  have "length d \<le> 2 ^ 62" using assms by (simp add: dw_inv_def)
  then have n: "unat (of_nat (length d) :: size_t) = length d" by (rule unat_of_nat_len)
  show l: "unat (dw_length (dw_append w d)) = unat (dw_length w) + length d"
    using unat_dw_length_add [OF assms(1), of "of_nat (length d)"] n \<open>length d \<le> 2 ^ 62\<close>
    by (simp add: dw_append_def)
  show "length (dw_buffer (dw_append w d)) = length (dw_buffer w)"
    using assms(2) by (simp add: dw_append_def)
  show "dw_capacity (dw_append w d) = dw_capacity w"
    by (simp add: dw_append_def)
  show "dw_inv (dw_append w d)"
    using assms l by (simp add: dw_inv_def word_le_nat_alt) (simp add: dw_append_def)
  show "DataWriter_written (dw_append w d) = DataWriter_written w @ d"
    unfolding DataWriter_written_def l using assms(2) by (simp add: dw_append_def)
qed

lemma writeBytes_append:
  assumes "dw_inv w" and "dw_room w (length d)" and "unat n = length d"
  shows "DataWriter_writeBytes w d n = Inr (dw_append w d, True)"
proof -
  have "length d \<le> 2 ^ 62" using assms by (simp add: dw_inv_def)
  moreover have "n = of_nat (length d)" by (simp flip: assms(3))
  ultimately show ?thesis
    using assms unat_dw_length_add [OF assms(1), of n]
    by (simp add: DataWriter_writeBytes_def mem_read_ok mem_write_ok dw_inv_def dw_append_def
        word_less_nat_alt)
qed

lemma writeBytes_prefix:
  assumes "unat n \<le> length d"
  shows "DataWriter_writeBytes w d n = DataWriter_writeBytes w (take (unat n) d) n"
  using assms by (simp add: DataWriter_writeBytes_def mem_read_def)

lemma dw_append_rest:
  assumes "dw_room w (length d)" and "unat (dw_length w) + length d \<le> i"
    and "i < length (dw_buffer w)"
  shows "dw_buffer (dw_append w d) ! i = dw_buffer w ! i"
  using assms by (simp add: dw_append_def nth_splice)

lemma dw_append_append:
  assumes "dw_inv w" and "dw_room w (length a + length b)"
  shows "dw_append (dw_append w a) b = dw_append w (a @ b)"
proof -
  have room: "dw_room w (length a)" using assms(2) by simp
  have l: "unat (dw_length (dw_append w a)) = unat (dw_length w) + length a"
    by (rule dw_append_facts(1) [OF assms(1) room])
  show ?thesis
    unfolding dw_append_def [of "dw_append w a"] l
    using room assms(2)
    by (simp add: dw_append_def add.assoc add.commute [of "length b"])
qed

subsection \<open>Fields of fixed width\<close>

text \<open>
  The contract of a fixed-width field: a writer method and a reader method that agree on an
  encoding. Every integer method of the two classes is an instance; the lemmas are what the
  packet formats build on.
\<close>

locale wire_codec =
  fixes enc :: "'a \<Rightarrow> byte list"
    and dec :: "byte list \<Rightarrow> 'a"
    and width :: size_t
    and put :: "data_writer \<Rightarrow> 'a \<Rightarrow> (data_writer \<times> bool) res"
    and get :: "data_reader \<Rightarrow> (data_reader \<times> 'a option) res"
  assumes put_law: "put w v = DataWriter_writeBytes w (enc v) width"
    and get_law: "get r =
      rbind (DataReader_readBytes r width) (\<lambda>(r', x). Inr (r', map_option dec x))"
    and enc_width: "length (enc v) = unat width"
    and dec_enc: "dec (enc v) = v"
    and width_small: "unat width \<le> 2 ^ 62"
begin

lemma put_append: "dw_inv w \<Longrightarrow> dw_room w (unat width) \<Longrightarrow> put w v = Inr (dw_append w (enc v), True)"
  by (simp add: put_law writeBytes_append enc_width)

lemma put_full:
  "dw_inv w \<Longrightarrow> \<not> dw_room w (unat width) \<Longrightarrow> put w v = Inr (w, False)"
  using width_small by (simp add: put_law writeBytes_full)

lemma get_field:
  assumes "dr_inv r" and "drop (unat (dr_pos r)) (dr_buffer r) = enc v @ rest"
  shows "get r = Inr (r\<lparr>dr_pos := dr_pos r + width\<rparr>, Some v)"
    and "dr_inv (r\<lparr>dr_pos := dr_pos r + width\<rparr>)"
    and "drop (unat (dr_pos r + width)) (dr_buffer r) = rest"
proof -
  have "length (drop (unat (dr_pos r)) (dr_buffer r)) = unat width + length rest"
    using assms(2) by (simp add: enc_width)
  then have le: "unat (dr_pos r) + unat width \<le> length (dr_buffer r)"
    using dr_pos_le [OF assms(1)] by simp
  have "take (unat width) (drop (unat (dr_pos r)) (dr_buffer r)) = enc v"
    unfolding assms(2) using enc_width [of v] by simp
  then show "get r = Inr (r\<lparr>dr_pos := dr_pos r + width\<rparr>, Some v)"
    using readBytes_ok(1) [OF assms(1) width_small le] by (simp add: get_law dec_enc)
  show "dr_inv (r\<lparr>dr_pos := dr_pos r + width\<rparr>)"
    by (rule readBytes_ok(2) [OF assms(1) width_small le])
  have "drop (unat (dr_pos r + width)) (dr_buffer r) =
      drop (unat width) (drop (unat (dr_pos r)) (dr_buffer r))"
    using unat_dr_pos_add [OF assms(1) width_small] by (simp add: add.commute)
  then show "drop (unat (dr_pos r + width)) (dr_buffer r) = rest"
    unfolding assms(2) using enc_width [of v] by simp
qed

lemma get_any:
  assumes "dr_inv r" and "unat (dr_pos r) + unat width \<le> length (dr_buffer r)"
  shows "get r = Inr (r\<lparr>dr_pos := dr_pos r + width\<rparr>,
    Some (dec (take (unat width) (drop (unat (dr_pos r)) (dr_buffer r)))))"
  using assms width_small by (simp add: get_law readBytes_ok)

lemma get_short:
  assumes "dr_inv r" and "length (dr_buffer r) < unat (dr_pos r) + unat width"
  shows "get r = Inr (r, None)"
  using assms width_small by (simp add: get_law readBytes_short)

end

interpretation u8: wire_codec "\<lambda>v. [v]" hd 1 DataWriter_writeUInt8 DataReader_readUInt8
  by unfold_locales (simp_all add: DataWriter_writeUInt8_def DataReader_readUInt8_def)

interpretation u16: wire_codec "\<lambda>v. rev (host_bytes16 v)" "\<lambda>bs. htons (host_word16 bs)" 2
  DataWriter_writeUInt16 DataReader_readUInt16
  by unfold_locales
    (simp_all add: DataWriter_writeUInt16_def DataReader_readUInt16_def host_bytes_hton
      flip: htons_def)

interpretation u32: wire_codec "\<lambda>v. rev (host_bytes32 v)" "\<lambda>bs. htonl (host_word32 bs)" 4
  DataWriter_writeUInt32 DataReader_readUInt32
  by unfold_locales
    (simp_all add: DataWriter_writeUInt32_def DataReader_readUInt32_def host_bytes_hton
      flip: htonl_def)

lemma host_word64_rev: "host_word64 (rev (host_bytes64 v)) = htonll v"
  by (metis host_bytes_htonll host_word64_bytes)

interpretation u64: wire_codec "\<lambda>v. rev (host_bytes64 v)" "\<lambda>bs. htonll (host_word64 bs)" 8
  DataWriter_writeUInt64 DataReader_readUInt64
  by unfold_locales
    (simp_all add: DataWriter_writeUInt64_def DataReader_readUInt64_def host_bytes_htonll
      host_word64_rev)

section \<open>Properties\<close>

text \<open>
  C25: What is written is what is read. Writing an 8, a 16, a 32 and a 64 bit integer into a
  writer with room for the 15 bytes succeeds, puts them on the wire most significant byte
  first, and a reader placed where the writing started returns the same four values.
\<close>

theorem DataStream_roundtrip:
  assumes "dw_inv w" and "dw_room w 15"
  shows "\<exists>w\<^sub>1 w\<^sub>2 w\<^sub>3 w\<^sub>4 r\<^sub>1 r\<^sub>2 r\<^sub>3 r\<^sub>4.
    DataWriter_writeUInt8 w a = Inr (w\<^sub>1, True) \<and> DataWriter_writeUInt16 w\<^sub>1 b = Inr (w\<^sub>2, True) \<and>
    DataWriter_writeUInt32 w\<^sub>2 c = Inr (w\<^sub>3, True) \<and> DataWriter_writeUInt64 w\<^sub>3 d = Inr (w\<^sub>4, True) \<and>
    DataWriter_written w\<^sub>4 = DataWriter_written w @ [a] @ rev (host_bytes16 b) @
      rev (host_bytes32 c) @ rev (host_bytes64 d) \<and>
    DataReader_readUInt8 \<lparr>dr_buffer = dw_buffer w\<^sub>4, dr_capacity = dw_capacity w\<^sub>4,
      dr_pos = dw_length w\<rparr> = Inr (r\<^sub>1, Some a) \<and>
    DataReader_readUInt16 r\<^sub>1 = Inr (r\<^sub>2, Some b) \<and> DataReader_readUInt32 r\<^sub>2 = Inr (r\<^sub>3, Some c) \<and>
    DataReader_readUInt64 r\<^sub>3 = Inr (r\<^sub>4, Some d)"
proof -
  let ?A = "[a]" and ?B = "rev (host_bytes16 b)" and ?C = "rev (host_bytes32 c)"
    and ?D = "rev (host_bytes64 d)"
  let ?w1 = "dw_append w ?A" and ?w2 = "dw_append w (?A @ ?B)" and ?w3 = "dw_append w (?A @ ?B @ ?C)"
    and ?w4 = "dw_append w (?A @ ?B @ ?C @ ?D)"
  note app = dw_append_facts [OF assms(1)]
  have w: "DataWriter_writeUInt8 w a = Inr (?w1, True)" "DataWriter_writeUInt16 ?w1 b = Inr (?w2, True)"
    "DataWriter_writeUInt32 ?w2 c = Inr (?w3, True)" "DataWriter_writeUInt64 ?w3 d = Inr (?w4, True)"
    using assms by (simp_all add: u8.put_append u16.put_append u32.put_append u64.put_append app
        dw_append_append)
  let ?r = "\<lparr>dr_buffer = dw_buffer ?w4, dr_capacity = dw_capacity ?w4, dr_pos = dw_length w\<rparr>"
  have inv: "dr_inv ?r"
    using app(2) [of "?A @ ?B @ ?C @ ?D"] assms
    by (simp add: dr_inv_def dw_inv_def dw_append_def)
  obtain rest where rest:
    "drop (unat (dr_pos ?r)) (dr_buffer ?r) = ?A @ ?B @ ?C @ ?D @ rest"
    using assms by (simp add: dw_append_def)
  note s1 = u8.get_field [OF inv, where v = a, OF rest]
  note s2 = u16.get_field [OF s1(2), where v = b, simplified, OF s1(3) [simplified]]
  note s3 = u32.get_field [OF s2(2), where v = c, simplified, OF s2(3) [simplified]]
  note s4 = u64.get_field [OF s3(2), where v = d, simplified, OF s3(3) [simplified]]
  show ?thesis
    using w s1(1) s2(1) s3(1) s4(1) app(5) [of "?A @ ?B @ ?C @ ?D"] assms(2) by simp
qed

theorem DataStream_roundtrip_witness:
  "\<exists>w\<^sub>1 w\<^sub>2 w\<^sub>3 w\<^sub>4 r\<^sub>1 r\<^sub>2.
    DataWriter_writeUInt8 (DataWriter (replicate 20 0) 20) 69 = Inr (w\<^sub>1, True) \<and>
    DataWriter_writeUInt16 w\<^sub>1 10086 = Inr (w\<^sub>2, True) \<and>
    DataWriter_writeUInt32 w\<^sub>2 1 = Inr (w\<^sub>3, True) \<and> DataWriter_writeUInt64 w\<^sub>3 2 = Inr (w\<^sub>4, True) \<and>
    DataReader_readUInt8 \<lparr>dr_buffer = dw_buffer w\<^sub>4, dr_capacity = dw_capacity w\<^sub>4,
      dr_pos = 0\<rparr> = Inr (r\<^sub>1, Some 69) \<and>
    DataReader_readUInt16 r\<^sub>1 = Inr (r\<^sub>2, Some 10086)"
proof -
  have "dw_inv (DataWriter (replicate 20 0) 20)" by (rule DataWriter_inv) simp_all
  moreover have "dw_room (DataWriter (replicate 20 0) 20) 15" by (simp add: DataWriter_def)
  ultimately show ?thesis
    using DataStream_roundtrip [of "DataWriter (replicate 20 0) 20" 69 10086 1 2]
    by (simp add: DataWriter_def) blast
qed

text \<open>
  A write never leaves the block and never half-succeeds. With room for the bytes,
  \<open>writeBytes\<close> appends exactly them and touches nothing behind them; without, it returns
  \<open>false\<close> and the writer is unchanged.
\<close>

theorem DataWriter_writeBytes_bounded:
  assumes "dw_inv w" and "unat n \<le> length d" and "unat n \<le> 2 ^ 62"
  shows "if dw_room w (unat n)
    then \<exists>w'. DataWriter_writeBytes w d n = Inr (w', True) \<and> dw_inv w' \<and>
      DataWriter_written w' = DataWriter_written w @ take (unat n) d \<and>
      (\<forall>i. unat (dw_length w) + unat n \<le> i \<and> i < length (dw_buffer w) \<longrightarrow>
        dw_buffer w' ! i = dw_buffer w ! i)
    else DataWriter_writeBytes w d n = Inr (w, False)"
proof (cases "dw_room w (unat n)")
  case True
  have l: "length (take (unat n) d) = unat n" using assms(2) by simp
  have "DataWriter_writeBytes w d n = Inr (dw_append w (take (unat n) d), True)"
    using writeBytes_append [OF assms(1), of "take (unat n) d" n] True l
    by (simp add: writeBytes_prefix [OF assms(2), symmetric])
  then show ?thesis
    using True l dw_append_facts [OF assms(1), of "take (unat n) d"]
      dw_append_rest [of w "take (unat n) d"]
    by auto
next
  case False
  then show ?thesis using writeBytes_full [OF assms(1,3)] by simp
qed

theorem DataWriter_writeBytes_bounded_witness:
  "\<exists>w'. DataWriter_writeBytes (DataWriter [0, 0, 9] 3) [1, 2, 3] 2 = Inr (w', True) \<and>
     DataWriter_written w' = [1, 2] \<and> dw_buffer w' ! 2 = 9"
proof -
  have "dw_inv (DataWriter [0, 0, 9] 3)" by (rule DataWriter_inv) simp_all
  then show ?thesis
    using DataWriter_writeBytes_bounded [of "DataWriter [0, 0, 9] 3" 2 "[1, 2, 3]"]
    by (fastforce simp: DataWriter_def DataWriter_written_def)
qed

text \<open>
  \<open>writeRandomBytes\<close> does not pad. The fill starts at index 0 of the buffer, so the first
  bytes already written are replaced by the filler and the region it accounts for keeps
  whatever the memory held.
\<close>

theorem DataWriter_writeRandomBytes_overwrites:
  assumes "dw_inv w" and "dw_room w (unat n)" and "n \<le> dw_length w"
  shows "\<exists>w'. DataWriter_writeRandomBytes w n = Inr (w', True) \<and>
    take (unat n) (DataWriter_written w') = replicate (unat n) 0x23 \<and>
    drop (unat (dw_length w)) (DataWriter_written w') =
      take (unat n) (drop (unat (dw_length w)) (dw_buffer w))"
proof -
  have le: "unat n \<le> unat (dw_length w)" using assms(3) by (simp add: word_le_nat_alt)
  have "unat n \<le> 2 ^ 62" using assms(1,2) by (simp add: dw_inv_def)
  note add = unat_dw_length_add [OF assms(1) this]
  let ?m = "replicate (unat n) 0x23 @ drop (unat n) (dw_buffer w)"
  have "DataWriter_writeRandomBytes w n =
      Inr (w\<lparr>dw_buffer := ?m, dw_length := dw_length w + n\<rparr>, True)"
    using assms le add
    by (simp add: DataWriter_writeRandomBytes_def mem_write_ok word_less_nat_alt dw_inv_def)
  then show ?thesis
    using assms(2) le add by (simp add: DataWriter_written_def drop_take)
qed

theorem DataWriter_writeRandomBytes_overwrites_witness:
  "\<exists>w'. DataWriter_writeRandomBytes \<lparr>dw_buffer = [1, 2, 3, 4], dw_capacity = 4, dw_length = 2\<rparr> 1 =
     Inr (w', True) \<and> take 1 (DataWriter_written w') = [0x23] \<and>
     drop 2 (DataWriter_written w') = [3]"
  using DataWriter_writeRandomBytes_overwrites
    [of "\<lparr>dw_buffer = [1, 2, 3, 4], dw_capacity = 4, dw_length = 2\<rparr>" 1]
  by (simp add: dw_inv_def)

end
