(* ===== verification/Rand_Generator.thy ===== *)
theory Rand_Generator
  imports Prelude
begin

text \<open>
  \<open>src/base/rand_generator.{h,cpp}\<close>: the Park--Miller generator behind initial sequence
  numbers and ephemeral ports, computed with 32 bit words and without division. The lemmas
  relate it to multiplication by 48271 modulo \<open>2 ^ 31 - 1\<close>.
\<close>

section \<open>Definitions\<close>

record rand_generator =
  rg_seed :: uint32
  rg_rand :: uint32

definition RandGenerator :: "uint32 \<Rightarrow> rand_generator" where
  "RandGenerator seed = \<lparr>rg_seed = seed, rg_rand = seed\<rparr>"

definition RandGenerator_rand :: "rand_generator \<Rightarrow> rand_generator \<times> uint32" where
  "RandGenerator_rand g =
     (let low = (rg_rand g AND 0x7fff) * 48271;
          high = drop_bit 15 (rg_rand g) * 48271;
          x = low + push_bit 15 (high AND 0xffff) + drop_bit 16 high;
          v = (x AND 0x7fffffff) + drop_bit 31 x
      in (g\<lparr>rg_rand := v\<rparr>, v))"

text \<open>\<open>rand(lower, upper)\<close>; a zero divisor is undefined behaviour in C++.\<close>

definition RandGenerator_rand_range ::
  "bool \<Rightarrow> rand_generator \<Rightarrow> uint32 \<Rightarrow> uint32 \<Rightarrow> (rand_generator \<times> uint32) res" where
  "RandGenerator_rand_range dbg g lower upper =
     rbind (DCHECK dbg (lower < upper)) (\<lambda>_.
     let (g', v) = RandGenerator_rand g in
     if upper - lower = 0 then Inl UndefinedBehaviour
     else Inr (g', lower + v mod (upper - lower)))"

definition RandGenerator_rand_upper ::
  "bool \<Rightarrow> rand_generator \<Rightarrow> uint32 \<Rightarrow> (rand_generator \<times> uint32) res" where
  "RandGenerator_rand_upper dbg g upper = RandGenerator_rand_range dbg g 0 upper"

text \<open>The modulus, and the states the generator is meant to move in.\<close>

definition lehmer_p :: nat where
  "lehmer_p = 2147483647"

definition rg_valid :: "rand_generator \<Rightarrow> bool" where
  "rg_valid g \<longleftrightarrow> 0 < unat (rg_rand g) \<and> unat (rg_rand g) < lehmer_p"

text \<open>The generator after n draws.\<close>

primrec rand_after :: "nat \<Rightarrow> rand_generator \<Rightarrow> rand_generator" where
  "rand_after 0 g = g"
| "rand_after (Suc n) g = fst (RandGenerator_rand (rand_after n g))"

text \<open>The intermediate value \<open>x\<close> of one step, without the word arithmetic.\<close>

definition lehmer_x :: "nat \<Rightarrow> nat" where
  "lehmer_x r = (let high = (r div 32768) * 48271
    in (r mod 32768) * 48271 + (high mod 65536) * 32768 + high div 65536)"

section \<open>Lemmas\<close>

lemma masks:
  "(0x7fff :: uint32) = mask 15" "(0xffff :: uint32) = mask 16" "(0x7fffffff :: uint32) = mask 31"
  by (simp_all add: mask_eq_exp_minus_1)

lemma lehmer_x_bound: "r < 2147483648 \<Longrightarrow> lehmer_x r < 3729222702"
proof -
  assume "r < 2147483648"
  then have "r div 32768 < 65536" and "r mod 32768 < 32768" by simp_all
  then have "(r div 32768) * 48271 \<le> 65535 * 48271" and "(r mod 32768) * 48271 \<le> 32767 * 48271"
    by simp_all
  moreover from this have "(r div 32768) * 48271 div 65536 \<le> 48270"
    by (simp add: div_le_mono [of "(r div 32768) * 48271" "65535 * 48271" 65536, simplified])
  moreover have "((r div 32768) * 48271) mod 65536 * 32768 \<le> 65535 * 32768"
    by simp
  ultimately show ?thesis unfolding lehmer_x_def Let_def by linarith
qed

lemma fold_bound:
  assumes "x < 3729222702"
  shows "x mod 2147483648 + x div 2147483648 \<le> lehmer_p"
proof (cases "x < 2147483648")
  case False
  with assms have "x div 2147483648 = 1" by (simp add: div_if)
  moreover from False assms have "x mod 2147483648 = x - 2147483648" by (simp add: mod_if)
  ultimately show ?thesis using assms by (simp add: lehmer_p_def)
qed (simp add: lehmer_p_def)

text \<open>None of the 32 bit operations of one step wraps around, given a 31 bit state.\<close>

lemma rand_value:
  assumes "unat (rg_rand g) < 2147483648" and r: "r = unat (rg_rand g)"
  shows "unat (snd (RandGenerator_rand g)) = lehmer_x r mod 2147483648 + lehmer_x r div 2147483648"
proof -
  let ?low = "(rg_rand g AND 0x7fff) * 48271" and ?high = "drop_bit 15 (rg_rand g) * 48271"
  let ?m = "push_bit 15 (?high AND 0xffff)"
  have "r div 32768 < 65536" and "r mod 32768 < 32768" using assms by simp_all
  then have b: "(r div 32768) * 48271 < 4294967296" "(r mod 32768) * 48271 < 4294967296" by simp_all
  have low: "unat ?low = (r mod 32768) * 48271"
    using b(2) by (simp add: unat_word_ariths masks unat_and_mask r)
  have high: "unat ?high = (r div 32768) * 48271"
    using b(1) by (simp add: unat_word_ariths unat_drop_bit r)
  have m: "unat ?m = ((r div 32768) * 48271 mod 65536) * 32768"
    by (simp only: unat_push_bit masks unat_and_mask high) simp
  let ?x = "?low + ?m + drop_bit 16 ?high"
  have x: "unat ?x = lehmer_x r"
  proof -
    have lt: "lehmer_x r < 4294967296" using lehmer_x_bound [of r] assms by simp
    have lm: "unat (?low + ?m) = unat ?low + unat ?m"
      using lt by (intro unat_add_lt) (simp only: low m lehmer_x_def Let_def, simp)
    have "unat ?x = unat (?low + ?m) + unat (drop_bit 16 ?high)"
      using lt by (intro unat_add_lt)
        (simp only: lm low m unat_drop_bit high lehmer_x_def Let_def, simp)
    then show ?thesis by (simp only: lm low m unat_drop_bit high lehmer_x_def Let_def) simp
  qed
  have "unat ((?x AND 0x7fffffff) + drop_bit 31 ?x) =
      lehmer_x r mod 2147483648 + lehmer_x r div 2147483648"
    using fold_bound [OF lehmer_x_bound [of r]] assms unfolding lehmer_p_def masks(3)
    by (subst unat_add_lt) (simp_all only: unat_and_mask unat_drop_bit x, simp_all)
  then show ?thesis by (simp add: RandGenerator_rand_def Let_def)
qed

lemma lehmer_split:
  "48271 * r = lehmer_x r + (r div 32768) * 48271 div 65536 * lehmer_p"
proof -
  have r: "r = r div 32768 * 32768 + r mod 32768" by simp
  let ?h = "r div 32768 * 48271"
  have h: "?h = ?h div 65536 * 65536 + ?h mod 65536" by simp
  have "48271 * r = ?h * 32768 + r mod 32768 * 48271"
    using r by linarith
  also have "?h * 32768 = ?h div 65536 * 2147483648 + ?h mod 65536 * 32768"
    using h by linarith
  finally show ?thesis by (simp add: lehmer_x_def Let_def lehmer_p_def)
qed

lemma lehmer_x_mod: "lehmer_x r mod lehmer_p = 48271 * r mod lehmer_p"
  by (simp add: lehmer_split)

lemma fold_mod: "(x mod 2147483648 + x div 2147483648) mod lehmer_p = x mod lehmer_p"
proof -
  have "x = (x mod 2147483648 + x div 2147483648) + x div 2147483648 * lehmer_p"
    by (simp add: lehmer_p_def)
  then show ?thesis by (metis mod_mult_self1)
qed

lemma coprime_48271: "coprime (48271 :: nat) lehmer_p"
proof (rule coprimeI)
  fix d :: nat assume "d dvd 48271" and "d dvd lehmer_p"
  then have "d dvd 48271 * 1899818559 - lehmer_p * 42704" by (intro dvd_diff_nat dvd_mult2)
  then show "d dvd 1" by (simp add: lehmer_p_def)
qed

lemma rand_lehmer:
  assumes "rg_valid g"
  shows "unat (snd (RandGenerator_rand g)) = 48271 * unat (rg_rand g) mod lehmer_p"
    and "rg_valid (fst (RandGenerator_rand g))"
proof -
  let ?r = "unat (rg_rand g)" and ?v = "unat (snd (RandGenerator_rand g))"
  have r: "0 < ?r" "?r < lehmer_p" using assms by (simp_all add: rg_valid_def)
  have b: "?r < 2147483648" using r(2) by (simp add: lehmer_p_def)
  note val = rand_value [OF b refl]
  have vm: "?v mod lehmer_p = 48271 * ?r mod lehmer_p"
    unfolding val by (simp only: fold_mod lehmer_x_mod)
  have "\<not> lehmer_p dvd ?r" using r by (auto dest: dvd_imp_le)
  then have "\<not> lehmer_p dvd 48271 * ?r"
    using coprime_48271 by (simp add: coprime_commute coprime_dvd_mult_right_iff)
  then have nz: "?v mod lehmer_p \<noteq> 0" by (simp add: vm mod_eq_0_iff_dvd)
  have "?v \<le> lehmer_p"
    unfolding val by (rule fold_bound [OF lehmer_x_bound [OF b]])
  moreover have "?v \<noteq> lehmer_p" using nz by auto
  ultimately have lt: "?v < lehmer_p" by simp
  with vm show "?v = 48271 * ?r mod lehmer_p" by simp
  have "0 < ?v" using nz by (cases "?v = 0") simp_all
  with lt show "rg_valid (fst (RandGenerator_rand g))"
    by (simp add: rg_valid_def RandGenerator_rand_def Let_def)
qed

lemma rand_range_ok:
  assumes "lower < upper"
  shows "\<exists>v. RandGenerator_rand_range dbg g lower upper = Inr (fst (RandGenerator_rand g), v) \<and>
    lower \<le> v \<and> v < upper \<and>
    unat v = unat lower + unat (snd (RandGenerator_rand g)) mod (unat upper - unat lower)"
proof -
  let ?x = "snd (RandGenerator_rand g)" and ?d = "upper - lower"
  have d: "unat ?d = unat upper - unat lower" and d0: "?d \<noteq> 0"
    using assms by (auto simp: unat_sub_le word_less_nat_alt)
  have m: "unat (?x mod ?d) = unat ?x mod (unat upper - unat lower)"
    by (simp add: unat_mod_distrib d)
  then have lt: "unat (?x mod ?d) < unat upper - unat lower"
    using assms by (simp add: word_less_nat_alt)
  have "unat (lower + ?x mod ?d) = unat lower + unat (?x mod ?d)"
    using lt unat_lt_32 [of upper] by (intro unat_add_lt) simp
  moreover have "unat lower + unat ?x mod (unat upper - unat lower) < unat upper"
    using lt m by linarith
  ultimately show ?thesis
    using assms d0 unfolding m
    by (simp add: RandGenerator_rand_range_def DCHECK_ok case_prod_unfold Let_def word_less_nat_alt
        word_le_nat_alt)
qed

lemma rand_seed: "rg_rand (fst (RandGenerator_rand g)) = snd (RandGenerator_rand g)"
  by (simp add: RandGenerator_rand_def Let_def)

lemma rand_iterate:
  assumes "rg_valid g"
  shows "rg_valid (rand_after n g) \<and>
    unat (rg_rand (rand_after n g)) = 48271 ^ n * unat (rg_rand g) mod lehmer_p"
proof (induction n)
  case 0
  then show ?case using assms by (simp add: rg_valid_def)
next
  case (Suc n)
  then show ?case using rand_lehmer [of "rand_after n g"]
    by (simp add: rand_seed mod_mult_right_eq mult.assoc)
qed

lemma lehmer_inj:
  assumes "48271 * a mod lehmer_p = 48271 * b mod lehmer_p" and "a < lehmer_p" and "b < lehmer_p"
  shows "a = b"
proof -
  have inv: "1899818559 * 48271 mod lehmer_p = 1" by (simp add: lehmer_p_def)
  have undo: "1899818559 * (48271 * x mod lehmer_p) mod lehmer_p = x" if "x < lehmer_p" for x
  proof -
    have "1899818559 * (48271 * x mod lehmer_p) mod lehmer_p =
        (1899818559 * 48271 mod lehmer_p) * x mod lehmer_p"
      unfolding mod_mult_right_eq mod_mult_left_eq mult.assoc ..
    then show ?thesis using that unfolding inv by simp
  qed
  show ?thesis using undo [OF assms(2)] undo [OF assms(3)] unfolding assms(1) by simp
qed

section \<open>Properties\<close>

text \<open>
  From a valid seed, the n-th value drawn is \<open>48271 ^ n * seed\<close> modulo the Mersenne
  prime \<open>2 ^ 31 - 1\<close>: the shift-and-mask arithmetic computes the Lehmer step exactly, with no
  32 bit overflow, and never reaches 0 or the modulus.
\<close>

theorem RandGenerator_lehmer:
  assumes "0 < seed" and "seed < 0x7fffffff"
  shows "let g = rand_after n (RandGenerator seed)
    in rg_valid g \<and> unat (rg_rand g) = 48271 ^ n * unat seed mod lehmer_p"
proof -
  have "rg_valid (RandGenerator seed)"
    using assms by (simp add: rg_valid_def RandGenerator_def word_less_nat_alt lehmer_p_def)
  from rand_iterate [OF this, of n] show ?thesis by (simp add: RandGenerator_def Let_def)
qed

theorem RandGenerator_lehmer_witness:
  "(0 :: uint32) < 42 \<and> (42 :: uint32) < 0x7fffffff \<and>
   rg_valid (rand_after 3 (RandGenerator 42)) \<and>
   rg_rand (rand_after 3 (RandGenerator 42)) = 551494037"
  using RandGenerator_lehmer [of 42 3]
  by (simp add: RandGenerator_def RandGenerator_rand_def numeral_3_eq_3 lehmer_p_def Let_def)

text \<open>
  Distinct valid states have distinct successors, so no two seeds ever merge into the same
  sequence (the step is a permutation of the valid states).
\<close>

theorem RandGenerator_rand_injective:
  assumes "rg_valid g" and "rg_valid h" and "rg_rand g \<noteq> rg_rand h"
  shows "snd (RandGenerator_rand g) \<noteq> snd (RandGenerator_rand h)"
proof
  assume "snd (RandGenerator_rand g) = snd (RandGenerator_rand h)"
  then have "48271 * unat (rg_rand g) mod lehmer_p = 48271 * unat (rg_rand h) mod lehmer_p"
    unfolding rand_lehmer(1) [OF assms(1), symmetric] rand_lehmer(1) [OF assms(2), symmetric]
    by (rule arg_cong)
  then have "unat (rg_rand g) = unat (rg_rand h)"
    using assms(1,2) unfolding rg_valid_def by (elim conjE) (rule lehmer_inj)
  with assms(3) show False by (auto dest: unsigned_word_eqI)
qed

theorem RandGenerator_rand_injective_witness:
  "rg_valid (RandGenerator 1) \<and> rg_valid (RandGenerator 2) \<and>
   rg_rand (RandGenerator 1) \<noteq> rg_rand (RandGenerator 2) \<and>
   snd (RandGenerator_rand (RandGenerator 1)) \<noteq> snd (RandGenerator_rand (RandGenerator 2))"
  using RandGenerator_rand_injective [of "RandGenerator 1" "RandGenerator 2"]
  by (simp add: RandGenerator_def rg_valid_def lehmer_p_def)

text \<open>
  \<open>rand(lower, upper)\<close> with \<open>lower < upper\<close> neither fails nor wraps: it advances the
  generator once and returns a value in the half-open interval.
\<close>

theorem RandGenerator_rand_range_bounds:
  assumes "lower < upper"
  shows "\<exists>v. RandGenerator_rand_range dbg g lower upper = Inr (fst (RandGenerator_rand g), v) \<and>
    lower \<le> v \<and> v < upper"
  using rand_range_ok [OF assms] by blast

theorem RandGenerator_rand_range_bounds_witness:
  "(49162 :: uint32) < 65536 \<and>
   (\<exists>v. RandGenerator_rand_range True (RandGenerator 42) 49162 65536 =
      Inr (fst (RandGenerator_rand (RandGenerator 42)), v) \<and> 49162 \<le> v \<and> v < 65536)"
  using RandGenerator_rand_range_bounds [of 49162 65536 True "RandGenerator 42"] by simp

end
