(* ===== verification/Ip_Address.thy ===== *)
theory Ip_Address
  imports Data_Stream
begin

text \<open>
  \<open>src/ip/ip_address.{h,cpp}\<close> and the address sizes of \<open>src/ip/type.h\<close>: the wrapper of a
  network address. The union of the code is the list of its 16 bytes, as they lie in memory;
  \<open>s_addr\<close> reads the first four of them as a little endian word.

  The C library's \<open>inet_pton\<close> and \<open>inet_ntop\<close> are parameters. \<open>inet_pton text\<close> is the
  value returned and the four bytes stored, \<open>None\<close> when nothing is stored;
  \<open>inet_ntop bytes\<close> is the text, \<open>None\<close> for the null pointer. The system calls of
  \<open>fromDeviceName\<close> are parameters too.
\<close>

section \<open>Definitions\<close>

definition kIPv4AddressSize :: size_t where
  "kIPv4AddressSize = 32 div 8"

definition kIPv6AddressSize :: size_t where
  "kIPv6AddressSize = 128 div 8"

datatype ip_family = IP_V4 | IP_V6 | IP_UNSPEC

record ip_address =
  ip_bytes :: "byte list"
  ip_family :: ip_family

type_synonym pton = "string \<Rightarrow> int \<times> byte list option"

definition ip_s_addr :: "ip_address \<Rightarrow> uint32" where
  "ip_s_addr ip = host_word32 (take 4 (ip_bytes ip))"

definition IPAddress_in_addr :: "uint32 \<Rightarrow> ip_address" where
  "IPAddress_in_addr s_addr =
     \<lparr>ip_bytes = host_bytes32 s_addr @ replicate 12 0, ip_family = IP_V4\<rparr>"

definition IPAddress :: ip_address where
  "IPAddress = \<lparr>ip_bytes = replicate 16 0, ip_family = IP_UNSPEC\<rparr>"

definition IPAddress_eq :: "ip_address \<Rightarrow> ip_address \<Rightarrow> bool" where
  "IPAddress_eq lhs rhs =
     (if ip_family lhs \<noteq> ip_family rhs then False
      else case ip_family lhs of
        IP_V4 \<Rightarrow> take (unat kIPv4AddressSize) (ip_bytes lhs) = take (unat kIPv4AddressSize) (ip_bytes rhs)
      | IP_V6 \<Rightarrow> take (unat kIPv6AddressSize) (ip_bytes lhs) = take (unat kIPv6AddressSize) (ip_bytes rhs)
      | IP_UNSPEC \<Rightarrow> True)"

text \<open>A short read leaves the address 0 and is not reported.\<close>

definition IPAddress_reader :: "data_reader \<Rightarrow> (data_reader \<times> ip_address) res" where
  "IPAddress_reader r =
     rbind (DataReader_readBytes r kIPv4AddressSize) (\<lambda>(r', v).
       Inr (r', \<lparr>ip_bytes = (case v of None \<Rightarrow> replicate 16 0 | Some bs \<Rightarrow> bs @ replicate 12 0),
                 ip_family = IP_V4\<rparr>))"

definition IPAddress_toString :: "(byte list \<Rightarrow> string option) \<Rightarrow> ip_address \<Rightarrow> string" where
  "IPAddress_toString inet_ntop ip =
     (if ip_family ip \<noteq> IP_V4 then ''unknown ipv4 address''
      else case inet_ntop (take 4 (ip_bytes ip)) of
        None \<Rightarrow> ''unknown ipv4 address''
      | Some str \<Rightarrow> str)"

definition IPAddress_writeTo :: "ip_address \<Rightarrow> data_writer \<Rightarrow> (data_writer \<times> bool) res" where
  "IPAddress_writeTo ip w =
     (if ip_family ip \<noteq> IP_V4 then Inl FatalLog
      else DataWriter_writeBytes w (take 4 (ip_bytes ip)) kIPv4AddressSize)"

text \<open>
  \<open>fromDeviceName\<close>: \<open>sock\<close> is what opening the socket returns, \<open>ioctl fd name\<close> the returned
  value and the \<open>s_addr\<close> stored in the request, \<open>close fd\<close> what closing returns.
  \<open>strncpy\<close> keeps \<open>IFNAMSIZ - 1\<close> = 15 characters of the name.
\<close>

definition IPAddress_fromDeviceName ::
  "int \<Rightarrow> (int \<Rightarrow> string \<Rightarrow> int \<times> uint32) \<Rightarrow> (int \<Rightarrow> int) \<Rightarrow> string \<Rightarrow> ip_address res" where
  "IPAddress_fromDeviceName sock ioctl close device_name =
     (if sock < 0 then Inl FatalLog
      else let (rv, addr) = ioctl sock (take 15 device_name) in
        if rv < 0 then Inl FatalLog
        else if close sock < 0 then Inl FatalLog
        else Inr (IPAddress_in_addr addr))"

definition IPAddress_text :: "pton \<Rightarrow> string \<Rightarrow> ip_address" where
  "IPAddress_text inet_pton text =
     (let (rv, stored) = inet_pton text;
          ip = (case stored of None \<Rightarrow> IPAddress
                | Some bs \<Rightarrow> IPAddress\<lparr>ip_bytes := bs @ drop 4 (ip_bytes IPAddress)\<rparr>)
      in if rv < 0 then ip else ip\<lparr>ip_family := IP_V4\<rparr>)"

definition IPAddress_fullMask :: "pton \<Rightarrow> ip_address" where
  "IPAddress_fullMask inet_pton = IPAddress_text inet_pton ''255.255.255.255''"

definition IPAddress_inaddrAny :: "pton \<Rightarrow> ip_address" where
  "IPAddress_inaddrAny inet_pton = IPAddress_text inet_pton ''0.0.0.0''"

definition IPAddress_and :: "ip_address \<Rightarrow> ip_address \<Rightarrow> ip_address" where
  "IPAddress_and lhs rhs =
     (if ip_family lhs \<noteq> ip_family rhs then IPAddress
      else case ip_family lhs of
        IP_V4 \<Rightarrow> IPAddress_in_addr (ip_s_addr lhs AND ip_s_addr rhs)
      | IP_V6 \<Rightarrow> IPAddress
      | IP_UNSPEC \<Rightarrow> IPAddress)"

definition IPAddress_isInaddrAny :: "ip_address \<Rightarrow> bool" where
  "IPAddress_isInaddrAny ip =
     (if ip_family ip \<noteq> IP_V4 then False else ip_s_addr ip = 0)"

definition IpAddressHash :: "ip_address \<Rightarrow> size_t" where
  "IpAddressHash ip = ucast (ip_s_addr ip)"

text \<open>What every constructor establishes: 16 bytes, and only the first four ever set.\<close>

definition ip_wf :: "ip_address \<Rightarrow> bool" where
  "ip_wf ip \<longleftrightarrow> length (ip_bytes ip) = 16 \<and> drop 4 (ip_bytes ip) = replicate 12 0 \<and>
     ip_family ip \<noteq> IP_V6 \<and> (ip_family ip = IP_UNSPEC \<longrightarrow> ip_bytes ip = replicate 16 0)"

abbreviation ip_v4 :: "ip_address \<Rightarrow> bool" where
  "ip_v4 ip \<equiv> ip_wf ip \<and> ip_family ip = IP_V4"

text \<open>The documented contract of \<open>inet_pton\<close> that the code relies on.\<close>

definition pton_contract :: "pton \<Rightarrow> bool" where
  "pton_contract inet_pton \<longleftrightarrow>
     (\<forall>text. case inet_pton text of
        (rv, None) \<Rightarrow> rv \<le> 0
      | (rv, Some bs) \<Rightarrow> rv = 1 \<and> length bs = 4)"

section \<open>Lemmas\<close>

lemma address_sizes [simp]: "unat kIPv4AddressSize = 4" "unat kIPv6AddressSize = 16"
  by (simp_all add: kIPv4AddressSize_def kIPv6AddressSize_def)

lemma ip_wf_default [simp]: "ip_wf IPAddress"
  by (simp add: ip_wf_def IPAddress_def)

lemma ip_v4_in_addr [simp]: "ip_wf (IPAddress_in_addr s)" "ip_family (IPAddress_in_addr s) = IP_V4"
  by (simp_all add: ip_wf_def IPAddress_in_addr_def)

lemma ip_s_addr_in_addr [simp]: "ip_s_addr (IPAddress_in_addr s) = s"
  by (simp add: ip_s_addr_def IPAddress_in_addr_def)

lemma ip_bytes_split: "ip_wf ip \<Longrightarrow> ip_bytes ip = take 4 (ip_bytes ip) @ replicate 12 0"
  unfolding ip_wf_def by (metis append_take_drop_id)

lemma ip_v4_cases:
  assumes "ip_v4 ip"
  obtains s where "ip = IPAddress_in_addr s"
proof
  show "ip = IPAddress_in_addr (ip_s_addr ip)"
    using assms ip_bytes_split [of ip]
    by (simp add: IPAddress_in_addr_def ip_s_addr_def ip_wf_def)
qed

lemma host_bytes32_inject [simp]: "host_bytes32 a = host_bytes32 b \<longleftrightarrow> a = b"
  by (metis host_word32_bytes)

lemma in_addr_inject [simp]: "IPAddress_in_addr a = IPAddress_in_addr b \<longleftrightarrow> a = b"
  by (simp add: IPAddress_in_addr_def)

lemma ip_eq_v4 [simp]: "IPAddress_eq (IPAddress_in_addr a) (IPAddress_in_addr b) \<longleftrightarrow> a = b"
  by (simp add: IPAddress_in_addr_def IPAddress_eq_def)

text \<open>On the addresses the constructors make, \<open>==\<close> is equality of the objects.\<close>

lemma ip_eq_iff:
  assumes "ip_wf a" and "ip_wf b"
  shows "IPAddress_eq a b \<longleftrightarrow> a = b"
  using assms ip_bytes_split [OF assms(1)] ip_bytes_split [OF assms(2)]
  by (cases a; cases b) (auto simp: ip_wf_def IPAddress_eq_def split: ip_family.splits)

lemma ip_eq_wf [simp]: "ip_wf a \<Longrightarrow> ip_wf b \<Longrightarrow> IPAddress_eq a b = (a = b)"
  by (rule ip_eq_iff)

lemma IPAddress_text_wf:
  assumes "pton_contract inet_pton"
  shows "ip_wf (IPAddress_text inet_pton text)"
  using assms [unfolded pton_contract_def, rule_format, of "text"]
  by (auto simp: IPAddress_text_def ip_wf_def IPAddress_def Let_def split: option.splits if_splits)

lemma IPAddress_and_wf [simp]: "ip_wf (IPAddress_and a b)"
  by (auto simp: IPAddress_and_def split: ip_family.splits)

lemma IPAddress_and_v4 [simp]:
  "IPAddress_and (IPAddress_in_addr a) (IPAddress_in_addr b) = IPAddress_in_addr (a AND b)"
  by (simp add: IPAddress_and_def)

lemma IPAddress_reader_wf:
  assumes "dr_inv r"
  shows "\<exists>r' ip. IPAddress_reader r = Inr (r', ip) \<and> dr_inv r' \<and> ip_v4 ip \<and>
    dr_buffer r' = dr_buffer r"
proof (cases "unat (dr_pos r) + 4 \<le> length (dr_buffer r)")
  case True
  then show ?thesis using assms readBytes_ok [OF assms, of kIPv4AddressSize]
    by (auto simp: IPAddress_reader_def ip_wf_def)
next
  case False
  then show ?thesis using assms readBytes_short [OF assms, of kIPv4AddressSize]
    by (auto simp: IPAddress_reader_def ip_wf_def)
qed

lemma IPAddress_writeTo_append:
  assumes "ip_v4 ip" and "dw_inv w" and "dw_room w 4"
  shows "IPAddress_writeTo ip w = Inr (dw_append w (take 4 (ip_bytes ip)), True)"
  using assms writeBytes_append [of w "take 4 (ip_bytes ip)" kIPv4AddressSize]
  by (simp add: IPAddress_writeTo_def ip_wf_def)

lemma IPAddress_writeTo_full:
  assumes "ip_family ip = IP_V4" and "dw_inv w" and "\<not> dw_room w 4"
  shows "IPAddress_writeTo ip w = Inr (w, False)"
  using assms writeBytes_full [of w kIPv4AddressSize "take 4 (ip_bytes ip)"]
  by (simp add: IPAddress_writeTo_def)

lemma IPAddress_reader_field:
  assumes "dr_inv r" and "ip_v4 ip"
    and "drop (unat (dr_pos r)) (dr_buffer r) = take 4 (ip_bytes ip) @ rest"
  shows "IPAddress_reader r = Inr (r\<lparr>dr_pos := dr_pos r + 4\<rparr>, ip)"
    and "dr_inv (r\<lparr>dr_pos := dr_pos r + 4\<rparr>)"
    and "drop (unat (dr_pos r + 4)) (dr_buffer r) = rest"
proof -
  have k: "kIPv4AddressSize = 4" by (simp add: kIPv4AddressSize_def)
  have l: "length (take 4 (ip_bytes ip)) = 4" using assms(2) by (simp add: ip_wf_def)
  have "length (drop (unat (dr_pos r)) (dr_buffer r)) = 4 + length rest"
    unfolding assms(3) length_append [of "take 4 (ip_bytes ip)"] l ..
  then have fits: "unat (dr_pos r) + unat (4 :: size_t) \<le> length (dr_buffer r)" by simp
  note ok = readBytes_ok [OF assms(1) _ fits, simplified]
  show "dr_inv (r\<lparr>dr_pos := dr_pos r + 4\<rparr>)" by (rule ok(2))
  show "IPAddress_reader r = Inr (r\<lparr>dr_pos := dr_pos r + 4\<rparr>, ip)"
    using l ok(1) ip_bytes_split [of ip] assms(2) unfolding IPAddress_reader_def k assms(3)
    by (cases ip) simp
  have "unat (dr_pos r + 4) = unat (dr_pos r) + 4" using unat_dr_pos_add [OF assms(1), of 4] by simp
  then show "drop (unat (dr_pos r + 4)) (dr_buffer r) = rest"
    using arg_cong [OF assms(3), of "drop 4"] l by (simp add: add.commute)
qed

section \<open>Properties\<close>

text \<open>
  An IPv4 address written to a packet and read back at the same position is the same
  address; the write appends exactly its four bytes in network order.
\<close>

theorem IPAddress_wire_roundtrip:
  assumes "ip_v4 ip" and "dw_inv w" and "dw_room w 4"
  shows "\<exists>w' r'. IPAddress_writeTo ip w = Inr (w', True) \<and>
    DataWriter_written w' = DataWriter_written w @ host_bytes32 (ip_s_addr ip) \<and>
    IPAddress_reader \<lparr>dr_buffer = dw_buffer w', dr_capacity = dw_capacity w',
      dr_pos = dw_length w\<rparr> = Inr (r', ip) \<and> dr_pos r' = dw_length w'"
proof -
  let ?d = "take 4 (ip_bytes ip)" and ?w = "dw_append w (take 4 (ip_bytes ip))"
  have l: "length ?d = 4" using assms(1) by (simp add: ip_wf_def)
  note app = dw_append_facts [OF assms(2), of ?d, unfolded l, OF assms(3)]
  let ?r = "\<lparr>dr_buffer = dw_buffer ?w, dr_capacity = dw_capacity ?w, dr_pos = dw_length w\<rparr>"
  have inv: "dr_inv ?r" using app(2,3,4) assms(2) by (simp add: dr_inv_def dw_inv_def)
  have "drop (unat (dr_pos ?r)) (dr_buffer ?r) = ?d @ drop (unat (dw_length w) + 4) (dw_buffer w)"
    using assms(3) l by (simp add: dw_append_def)
  note field = IPAddress_reader_field [OF inv assms(1) this]
  have "dw_length ?w = dw_length w + 4" using l by (simp add: dw_append_def)
  then show ?thesis
    using field(1) app(5) IPAddress_writeTo_append [OF assms] l by (simp add: ip_s_addr_def)
qed

theorem IPAddress_wire_roundtrip_witness:
  "\<exists>w' r'. IPAddress_writeTo (IPAddress_in_addr 0x0100000A) (DataWriter [0, 0, 0, 0, 0] 5) = Inr (w', True) \<and>
    DataWriter_written w' = [10, 0, 0, 1] \<and>
    IPAddress_reader \<lparr>dr_buffer = dw_buffer w', dr_capacity = dw_capacity w', dr_pos = 0\<rparr> =
      Inr (r', IPAddress_in_addr 0x0100000A) \<and> dr_pos r' = dw_length w'"
proof -
  have "dw_inv (DataWriter [0, 0, 0, 0, 0] 5)" by (rule DataWriter_inv) simp_all
  moreover have "host_bytes32 0x0100000A = [10, 0, 0, 1]" by code_simp
  ultimately show ?thesis
    using IPAddress_wire_roundtrip [of "IPAddress_in_addr 0x0100000A" "DataWriter [0, 0, 0, 0, 0] 5"]
    by (simp add: DataWriter_def DataWriter_written_def)
qed

text \<open>
  Masking implements subnet membership: two IPv4 addresses are equal under a mask exactly
  when they agree on every bit the mask has set.
\<close>

theorem IPAddress_mask_agree:
  assumes "ip_v4 a" and "ip_v4 b" and "ip_v4 m"
  shows "IPAddress_eq (IPAddress_and a m) (IPAddress_and b m) \<longleftrightarrow>
    (\<forall>n. bit (ip_s_addr m) n \<longrightarrow> bit (ip_s_addr a) n = bit (ip_s_addr b) n)"
proof -
  obtain x y z where v: "a = IPAddress_in_addr x" "b = IPAddress_in_addr y" "m = IPAddress_in_addr z"
    using assms by (metis ip_v4_cases)
  show ?thesis unfolding v
    by (simp add: bit_eq_iff bit_and_iff) (metis bit_word32_high not_le)
qed

theorem IPAddress_mask_agree_witness:
  "IPAddress_eq (IPAddress_and (IPAddress_in_addr 0x0100000A) (IPAddress_in_addr 0x00FFFFFF))
     (IPAddress_and (IPAddress_in_addr 0x0200000A) (IPAddress_in_addr 0x00FFFFFF)) \<longleftrightarrow>
   (\<forall>n. bit (0x00FFFFFF :: uint32) n \<longrightarrow> bit (0x0100000A :: uint32) n = bit (0x0200000A :: uint32) n)"
  using IPAddress_mask_agree [of "IPAddress_in_addr 0x0100000A" "IPAddress_in_addr 0x0200000A"
    "IPAddress_in_addr 0x00FFFFFF"] by (simp del: ip_eq_v4 IPAddress_and_v4)

text \<open>
  A text that \<open>inet_pton\<close> rejects as malformed (it returns 0 and stores nothing) still
  constructs an IPv4 address, the wildcard 0.0.0.0: only a negative return value is an error.
\<close>

theorem IPAddress_malformed_is_wildcard:
  assumes "pton_contract inet_pton" and "fst (inet_pton s) = 0"
  shows "ip_family (IPAddress_text inet_pton s) = IP_V4 \<and>
    IPAddress_isInaddrAny (IPAddress_text inet_pton s)"
proof -
  have "inet_pton s = (0, None)"
    using assms(1) [unfolded pton_contract_def, rule_format, of s] assms(2)
    by (auto split: option.splits)
  then show ?thesis
    by (simp add: IPAddress_text_def IPAddress_isInaddrAny_def IPAddress_def ip_s_addr_def
        host_word32_def eval_nat_numeral)
qed

theorem IPAddress_malformed_is_wildcard_witness:
  "pton_contract (\<lambda>s. (0, None)) \<and>
   ip_family (IPAddress_text (\<lambda>s. (0, None)) ''10.0.0'') = IP_V4 \<and>
   IPAddress_isInaddrAny (IPAddress_text (\<lambda>s. (0, None)) ''10.0.0'')"
  using IPAddress_malformed_is_wildcard [of "\<lambda>s. (0, None)" "''10.0.0''"]
  by (simp add: pton_contract_def)

end
