(* ===== verification/Checksum.thy ===== *)
theory Checksum
  imports Ip_Address
begin

text \<open>
  \<open>src/base/checksum.{h,cpp}\<close>: the internet checksum of TCP segments. The lemmas relate the
  folded 32 bit accumulation of the code to the sum of the big endian 16 bit words of the
  data modulo 65535 (RFC 1071).
\<close>

section \<open>Definitions\<close>

record checksum =
  cs_sum :: uint16

definition fold16 :: "uint32 \<Rightarrow> uint32" where
  "fold16 s = (s AND 0xffff) + drop_bit 16 s"

text \<open>The loop of the constructor over the pairs of bytes from \<open>begin\<close> to \<open>end\<close>.\<close>

fun Checksum_loop :: "uint32 \<Rightarrow> byte list \<Rightarrow> uint32" where
  "Checksum_loop s (a # b # data) =
     Checksum_loop (fold16 (s + ucast (htons (host_word16 [a, b])))) data"
| "Checksum_loop s data = s"

definition Checksum :: "byte list \<Rightarrow> checksum" where
  "Checksum d =
     (let (s, body) = (if odd (length d) then (push_bit 8 (ucast (last d)), butlast d) else (0, d))
      in \<lparr>cs_sum = ucast (Checksum_loop s body)\<rparr>)"

definition Checksum_getChecksum :: "checksum \<Rightarrow> uint16" where
  "Checksum_getChecksum c = cs_sum c"

definition Checksum_addHostUInt16 :: "checksum \<Rightarrow> uint16 \<Rightarrow> checksum" where
  "Checksum_addHostUInt16 c v = c\<lparr>cs_sum := ucast (fold16 (ucast (cs_sum c) + ucast v))\<rparr>"

definition Checksum_addNetworkUint16 :: "checksum \<Rightarrow> uint16 \<Rightarrow> checksum" where
  "Checksum_addNetworkUint16 c v = Checksum_addHostUInt16 c (htons v)"

text \<open>
  \<open>addIPAddress\<close> serialises the address inside a \<open>DCHECK\<close>: a release build does not, and
  sums the uninitialised local instead. Its four bytes are the argument \<open>junk\<close>. The writer
  over it is announced with capacity 8.
\<close>

definition Checksum_addIPAddress ::
  "bool \<Rightarrow> byte list \<Rightarrow> checksum \<Rightarrow> ip_address \<Rightarrow> checksum res" where
  "Checksum_addIPAddress dbg junk c ip =
     (let w = DataWriter junk 8 in
      rbind (if dbg then rbind (IPAddress_writeTo ip w) (\<lambda>(w', ok).
               rbind (DCHECK dbg ok) (\<lambda>_. Inr w'))
             else Inr w) (\<lambda>w.
      let buf = host_word32 (dw_buffer w);
          c = Checksum_addNetworkUint16 c (ucast (drop_bit 16 buf))
      in Inr (Checksum_addNetworkUint16 c (ucast buf))))"

definition Checksum_writeTo :: "checksum \<Rightarrow> byte list \<Rightarrow> size_t \<Rightarrow> byte list res" where
  "Checksum_writeTo c mem off =
     (let cs = NOT (cs_sum c) in mem_write mem off [ucast (drop_bit 8 cs), ucast cs])"

text \<open>
  The reference: the sum of the big endian words of the data, an odd last byte padded with
  zero, and its one's complement reduction to 16 bits.
\<close>

fun be_sum :: "byte list \<Rightarrow> nat" where
  "be_sum [] = 0"
| "be_sum [a] = unat a * 256"
| "be_sum (a # b # d) = unat a * 256 + unat b + be_sum d"

definition ones_complement :: "nat \<Rightarrow> nat" where
  "ones_complement n = (if n = 0 then 0 else if n mod 65535 = 0 then 65535 else n mod 65535)"

section \<open>Lemmas\<close>

lemma oc_le: "ones_complement n \<le> 65535"
  by (auto simp: ones_complement_def intro: less_imp_le)

lemma oc_id: "n \<le> 65535 \<Longrightarrow> ones_complement n = n"
  by (cases "n = 65535") (simp_all add: ones_complement_def)

lemma oc_cong: "a mod 65535 = b mod 65535 \<Longrightarrow> a = 0 \<longleftrightarrow> b = 0 \<Longrightarrow> ones_complement a = ones_complement b"
  by (simp add: ones_complement_def)

lemma oc_mod: "ones_complement n mod 65535 = n mod 65535"
  by (simp add: ones_complement_def)

lemma oc_zero [simp]: "ones_complement n = 0 \<longleftrightarrow> n = 0"
  by (simp add: ones_complement_def)

lemma oc_add: "ones_complement (ones_complement a + b) = ones_complement (a + b)"
  by (rule oc_cong) (simp_all add: mod_add_cong [OF oc_mod])

lemma fold16_value:
  assumes "unat s \<le> 131070"
  shows "unat (fold16 s) = ones_complement (unat s)"
proof -
  have m: "(0xffff :: uint32) = mask 16" by (simp add: mask_eq_exp_minus_1)
  have a: "unat (s AND 0xffff) = unat s mod 65536" unfolding m unat_and_mask by simp
  have "unat (fold16 s) = unat s mod 65536 + unat s div 65536"
    unfolding fold16_def using assms a div_le_mono [OF assms, of 65536]
    by (subst unat_add_lt) (simp_all add: a unat_drop_bit)
  also have "\<dots> = ones_complement (unat s)"
  proof (cases "unat s \<le> 65535")
    case False
    then have "unat s div 65536 = 1" "unat s mod 65536 = unat s - 65536"
      using assms by (simp_all add: div_if mod_if)
    moreover have "ones_complement (unat s) = ones_complement (unat s - 65535)"
      using False by (intro oc_cong) (simp_all add: le_mod_geq)
    ultimately show ?thesis using False assms by (simp add: oc_id)
  qed (simp add: oc_id)
  finally show ?thesis .
qed

lemma be_word: "unat (htons (host_word16 [a, b])) = unat a * 256 + unat b"
proof -
  have "htons (host_word16 [a, b]) = push_bit 8 (ucast a) OR ucast b"
    by (simp add: htons_def host_bytes16_word) (simp add: host_word16_def or.commute)
  also have "\<dots> = push_bit 8 (ucast a) + ucast b"
    by (rule disjunctive_add [symmetric]) (auto simp: bit_simps)
  also have "unat \<dots> = unat a * 256 + unat b"
    using unat_lt_8 [of a] unat_lt_8 [of b]
    by (subst unat_add_lt) (simp_all add: unat_push_bit unat_ucast_up)
  finally show ?thesis .
qed

lemma fold16_add:
  assumes "unat s \<le> 65535"
  shows "unat (fold16 (s + ucast (v :: uint16))) = ones_complement (unat s + unat v)"
proof -
  have "unat (s + ucast v) = unat s + unat v"
    using assms unat_lt_16 [of v] by (subst unat_add_lt) (simp_all add: unat_ucast_up)
  then show ?thesis using assms unat_lt_16 [of v] by (simp add: fold16_value)
qed

lemma Checksum_loop_value:
  "unat s \<le> 65535 \<Longrightarrow> even (length d) \<Longrightarrow>
     unat (Checksum_loop s d) = ones_complement (unat s + be_sum d)"
proof (induction s d rule: Checksum_loop.induct)
  case (1 s a b data)
  let ?v = "htons (host_word16 [a, b])"
  have "unat (fold16 (s + ucast ?v)) = ones_complement (unat s + unat ?v)"
    by (rule fold16_add) (rule 1)
  then show ?case using 1 oc_le by (simp add: oc_add be_word add.assoc)
qed (simp_all add: oc_id)

lemma be_sum_append: "even (length a) \<Longrightarrow> be_sum (a @ b) = be_sum a + be_sum b"
  by (induction a rule: be_sum.induct) simp_all

lemma unat_ucast_16:
  assumes "unat (w :: uint32) \<le> 65535"
  shows "unat (ucast w :: uint16) = unat w"
  using assms by (simp only: unsigned_ucast_eq) (simp add: take_bit_nat_eq_self_iff)

lemma Checksum_value: "unat (cs_sum (Checksum d)) = ones_complement (be_sum d)"
proof (cases "even (length d)")
  case True
  then show ?thesis using Checksum_loop_value [of 0 d] oc_le [of "be_sum d"]
    by (simp add: Checksum_def unat_ucast_16)
next
  case False
  then have d: "d = butlast d @ [last d]" "even (length (butlast d))"
    by (cases d rule: rev_cases; simp)+
  let ?s = "push_bit 8 (ucast (last d)) :: uint32"
  have s: "unat ?s = unat (last d) * 256" "unat ?s \<le> 65535"
    using unat_lt_8 [of "last d"] by (simp_all add: unat_push_bit unat_ucast_up)
  have "be_sum d = be_sum (butlast d) + unat (last d) * 256"
    by (subst d(1)) (simp only: be_sum_append [OF d(2)] be_sum.simps)
  then show ?thesis
    using Checksum_loop_value [OF s(2) d(2)] oc_le [of "be_sum d"] False
    by (simp add: Checksum_def unat_ucast_16 s(1) add.commute)
qed

lemma addHostUInt16_value:
  "unat (cs_sum (Checksum_addHostUInt16 c v)) = ones_complement (unat (cs_sum c) + unat v)"
proof -
  have u: "unat (ucast (cs_sum c) :: uint32) = unat (cs_sum c)" by (simp add: unat_ucast_up)
  then have "unat (fold16 (ucast (cs_sum c) + ucast v)) = ones_complement (unat (cs_sum c) + unat v)"
    using fold16_add [of "ucast (cs_sum c)" v] unat_lt_16 [of "cs_sum c"] by simp
  then show ?thesis by (simp add: Checksum_addHostUInt16_def unat_ucast_16 oc_le)
qed

lemma cs_eqI: "unat (cs_sum a) = unat (cs_sum b) \<Longrightarrow> a = b" for a b :: checksum
  by (cases a; cases b) (auto dest: unsigned_word_eqI)

lemma addNetworkUint16_append:
  assumes "even (length d)"
  shows "Checksum_addNetworkUint16 (Checksum d) (host_word16 [a, b]) = Checksum (d @ [a, b])"
  using assms by (intro cs_eqI)
    (simp add: Checksum_addNetworkUint16_def addHostUInt16_value Checksum_value be_word
      be_sum_append oc_add)

lemma be_sum_swap:
  "even (length d) \<Longrightarrow> Checksum (d @ [a, b, c, e]) = Checksum (d @ [c, e, a, b])"
  by (intro cs_eqI) (simp add: Checksum_value be_sum_append add.commute add.left_commute)

lemma addNetworkUint16_pair:
  assumes "even (length d)"
  shows "Checksum_addNetworkUint16 (Checksum_addNetworkUint16 (Checksum d) (host_word16 [c, e]))
    (host_word16 [a, b]) = Checksum (d @ [a, b, c, e])"
proof -
  have "Checksum_addNetworkUint16 (Checksum (d @ [c, e])) (host_word16 [a, b]) =
      Checksum ((d @ [c, e]) @ [a, b])"
    by (rule addNetworkUint16_append) (use assms in simp)
  then show ?thesis
    using be_sum_swap [OF assms, of a b c e] by (simp add: addNetworkUint16_append [OF assms])
qed

lemma host_word32_halves:
  "ucast (host_word32 [a, b, c, d]) = host_word16 [a, b]"
  "ucast (drop_bit 16 (host_word32 [a, b, c, d])) = host_word16 [c, d]"
  by (auto simp: host_word32_def host_word16_def bit_simps intro!: bit_word_eqI)

text \<open>The pseudo-header additions, without an assumption on the parity of the data.\<close>

lemma addNetworkUint16_value:
  "unat (cs_sum (Checksum_addNetworkUint16 c (host_word16 [a, b]))) =
     ones_complement (unat (cs_sum c) + be_sum [a, b])"
  by (simp add: Checksum_addNetworkUint16_def addHostUInt16_value be_word)

lemma addNetworkUint16_pair_value:
  "unat (cs_sum (Checksum_addNetworkUint16 (Checksum_addNetworkUint16 c (host_word16 [d, e]))
     (host_word16 [a, b]))) = ones_complement (unat (cs_sum c) + be_sum [a, b, d, e])"
  by (simp only: addNetworkUint16_value oc_add) (simp add: ac_simps)

lemma addIPAddress_value:
  assumes "ip_v4 ip" and "length junk = 4"
  shows "\<exists>c'. Checksum_addIPAddress dbg junk c ip = Inr c' \<and> unat (cs_sum c') =
    ones_complement (unat (cs_sum c) + be_sum (if dbg then take 4 (ip_bytes ip) else junk))"
proof -
  have "length (take 4 (ip_bytes ip)) = 4" using assms(1) by (simp add: ip_wf_def)
  then obtain e0 e1 e2 e3 where e: "take 4 (ip_bytes ip) = [e0, e1, e2, e3]" by (rule list4E)
  obtain j0 j1 j2 j3 where j: "junk = [j0, j1, j2, j3]" using assms(2) by (rule list4E)
  have "IPAddress_writeTo ip (DataWriter junk 8) =
      Inr (\<lparr>dw_buffer = [e0, e1, e2, e3], dw_capacity = 8, dw_length = 4\<rparr>, True)"
    using assms(1) by (simp add: IPAddress_writeTo_def DataWriter_writeBytes_def DataWriter_def e j
        kIPv4AddressSize_def mem_read_def mem_write_def)
  then show ?thesis
    by (cases dbg) (simp_all add: Checksum_addIPAddress_def Let_def host_word32_halves e j
        addNetworkUint16_pair_value DataWriter_def del: be_sum.simps)
qed

lemma checksum_bytes: "host_word16 [ucast c, ucast (drop_bit 8 c)] = c"
  using host_word16_bytes [of c] by (simp add: host_bytes16_def)

lemma be_sum_checksum: "be_sum [ucast (drop_bit 8 c), ucast c] = unat c" for c :: uint16
proof -
  have "htons (host_word16 [ucast (drop_bit 8 c), ucast c]) = c"
    by (simp add: htons_def) (simp add: checksum_bytes)
  then show ?thesis using be_word [of "ucast (drop_bit 8 c)" "ucast c"] by simp
qed

lemma unat_not_16: "unat (NOT c) = 65535 - unat c" for c :: uint16
proof -
  have m: "unat (- 1 :: uint16) = 65535"
    unfolding unsigned_minus_1_eq_mask by (simp add: mask_eq_exp_minus_1)
  have "NOT c = - 1 - c" unfolding not_eq_complement by (rule minus_diff_commute)
  moreover have "unat (- 1 - c) = unat (- 1 :: uint16) - unat c"
    using unat_lt_16 [of c] unfolding m [symmetric] by (intro unat_sub_le) (simp only: m)
  ultimately show ?thesis by (simp only: m)
qed

lemma complement_mod:
  fixes x c s :: nat
  assumes "x + c = s + 65535" and "c mod 65535 = s mod 65535"
  shows "x mod 65535 = 0"
proof -
  have "int s mod 65535 = int c mod 65535" 
    using arg_cong [OF assms(2), of int] by (simp only: of_nat_mod of_nat_numeral)
  then have "65535 dvd int s - int c" by (rule mod_eq_dvd_iff [THEN iffD1])
  then have "65535 dvd (int s - int c) + 65535" by simp
  moreover have "(int s - int c) + 65535 = int x" using assms(1) by linarith
  ultimately have "int 65535 dvd int x" by (simp only: of_nat_numeral)
  then show ?thesis by (simp only: int_dvd_int_iff mod_eq_0_iff_dvd)
qed

lemma complement_pos: "x + c = s + 65535 \<Longrightarrow> c = ones_complement s \<Longrightarrow> x \<noteq> 0"
  using oc_le [of s] oc_id [of 0] by (cases "s = 0") auto

lemma complement_total:
  assumes "x + c = s + 65535" and "c = ones_complement s"
  shows "ones_complement x = 65535"
  using complement_mod [OF assms(1)] complement_pos [OF assms] oc_mod [of s] assms(2)
  by (simp add: ones_complement_def)

section \<open>Properties\<close>

text \<open>
  C9: The checksum of a range of bytes is the one's complement sum of its big endian 16 bit
  words, an odd last byte padded with zero: the folding after every addition never loses a
  carry, and the final truncation to 16 bits drops nothing.
\<close>

theorem Checksum_rfc1071:
  "unat (Checksum_getChecksum (Checksum d)) = ones_complement (be_sum d)"
  by (simp add: Checksum_getChecksum_def Checksum_value)

text \<open>
  C10: Writing the complement of the checksum into a zeroed field at an even offset makes the
  data verify: the checksum of the completed packet is \<open>0xffff\<close>.
\<close>

theorem Checksum_verifies:
  assumes "even (length a)" and "off = of_nat (length a)" and "length a + 2 \<le> 2 ^ 62"
  shows "\<exists>mem. Checksum_writeTo (Checksum (a @ [0, 0] @ b)) (a @ [0, 0] @ b) off = Inr mem \<and>
    length mem = length a + 2 + length b \<and> take (length a) mem = a \<and>
    drop (length a + 2) mem = b \<and> Checksum_getChecksum (Checksum mem) = 0xffff"
proof -
  let ?d = "a @ [0, 0] @ b"
  let ?c = "cs_sum (Checksum ?d)"
  let ?f = "[ucast (drop_bit 8 (NOT ?c)), ucast (NOT ?c)] :: byte list"
  have off: "unat off = length a" using assms(2,3) by (simp add: unat_of_nat)
  have c: "unat ?c = ones_complement (be_sum a + be_sum b)"
    using Checksum_value [of ?d] assms(1) by (simp add: be_sum_append)
  have "be_sum (a @ ?f @ b) = be_sum a + (65535 - unat ?c) + be_sum b"
    using assms(1) be_sum_checksum [of "NOT ?c"] by (simp add: be_sum_append unat_not_16)
  then have eq: "be_sum (a @ ?f @ b) + unat ?c = (be_sum a + be_sum b) + 65535"
    using oc_le [of "be_sum a + be_sum b"] c by simp
  have "be_sum (a @ ?f @ b) mod 65535 = 0"
    by (rule complement_mod [OF eq]) (simp only: c oc_mod)
  moreover have "be_sum (a @ ?f @ b) \<noteq> 0"
    by (rule complement_pos [OF eq c])
  ultimately have "unat (cs_sum (Checksum (a @ ?f @ b))) = unat (0xffff :: uint16)"
    by (simp add: Checksum_value ones_complement_def del: append_assoc append.simps)
  then have "cs_sum (Checksum (a @ ?f @ b)) = 0xffff" by (rule unsigned_word_eqI)
  moreover have "Checksum_writeTo (Checksum ?d) ?d off = Inr (a @ ?f @ b)"
    using off by (simp add: Checksum_writeTo_def Let_def mem_write_ok)
  ultimately show ?thesis by (simp add: Checksum_getChecksum_def)
qed

theorem Checksum_verifies_witness:
  "\<exists>mem. Checksum_writeTo (Checksum [0x45, 0, 0, 0, 7]) [0x45, 0, 0, 0, 7] 2 = Inr mem \<and>
    length mem = 5 \<and> Checksum_getChecksum (Checksum mem) = 0xffff"
  using Checksum_verifies [of "[0x45, 0]" 2 "[7]"] by auto

text \<open>
  In a debug build, adding a pseudo-header address gives the checksum of the data with
  the four address bytes appended, whatever the uninitialised local held.
\<close>

theorem Checksum_addIPAddress_debug:
  assumes "ip_v4 ip" and "even (length d)" and "length junk = 4"
  shows "Checksum_addIPAddress True junk (Checksum d) ip =
    Inr (Checksum (d @ take 4 (ip_bytes ip)))"
proof -
  have "length (take 4 (ip_bytes ip)) = 4" using assms(1) by (simp add: ip_wf_def)
  then obtain e0 e1 e2 e3 where e: "take 4 (ip_bytes ip) = [e0, e1, e2, e3]" by (rule list4E)
  have "IPAddress_writeTo ip (DataWriter junk 8) =
      Inr (\<lparr>dw_buffer = [e0, e1, e2, e3], dw_capacity = 8, dw_length = 4\<rparr>, True)"
    using assms(1,3)
    by (simp add: IPAddress_writeTo_def DataWriter_writeBytes_def DataWriter_def e
        kIPv4AddressSize_def mem_read_def mem_write_def)
  then show ?thesis
    using addNetworkUint16_pair [OF assms(2), of e2 e3 e0 e1]
    by (simp add: Checksum_addIPAddress_def e host_word32_halves Let_def)
qed

theorem Checksum_addIPAddress_debug_witness:
  "Checksum_addIPAddress True [1, 2, 3, 4] (Checksum []) (IPAddress_in_addr 0x0100000A) =
     Inr (Checksum [10, 0, 0, 1])"
proof -
  have "host_bytes32 0x0100000A = [10, 0, 0, 1]" by code_simp
  then show ?thesis
    using Checksum_addIPAddress_debug [of "IPAddress_in_addr 0x0100000A" "[]" "[1, 2, 3, 4]"]
    by (simp add: IPAddress_in_addr_def ip_wf_def)
qed

text \<open>
  In a release build the serialisation inside \<open>DCHECK\<close> is compiled out: the result does
  not depend on the address at all, only on the stale bytes of the local variable.
\<close>

theorem Checksum_addIPAddress_release:
  assumes "even (length d)" and "length junk = 4"
  shows "Checksum_addIPAddress False junk (Checksum d) ip = Inr (Checksum (d @ junk))"
proof -
  obtain e0 e1 e2 e3 where e: "junk = [e0, e1, e2, e3]" using assms(2) by (rule list4E)
  show ?thesis
    using addNetworkUint16_pair [OF assms(1), of e2 e3 e0 e1]
    by (simp add: Checksum_addIPAddress_def DataWriter_def e host_word32_halves Let_def)
qed

theorem Checksum_addIPAddress_release_witness:
  "Checksum_addIPAddress False [1, 2, 3, 4] (Checksum []) (IPAddress_in_addr 0x0100000A) =
     Inr (Checksum [1, 2, 3, 4])"
  using Checksum_addIPAddress_release [of "[]" "[1, 2, 3, 4]"] by simp

end
