(* ===== verification/Time_Base.thy ===== *)
theory Time_Base
  imports Prelude
begin

text \<open>
  \<open>src/base/time_base.{h,cpp}\<close>: points in time and time offsets, both a signed 64 bit number
  of microseconds. They are integers here, and every arithmetic operator reduces its result to
  the signed 64 bit range with \<open>wrap64\<close>, as the two's complement target does. C++ division
  and remainder truncate towards zero: \<open>sdiv\<close> and \<open>smod\<close>. The two operators that multiply
  by a \<open>double\<close> are not modelled (nothing in the sources calls them).
\<close>

section \<open>Definitions\<close>

definition wrap64 :: "int \<Rightarrow> int" where
  "wrap64 x = (x + 2 ^ 63) mod 2 ^ 64 - 2 ^ 63"

definition int64 :: "int \<Rightarrow> bool" where
  "int64 x \<longleftrightarrow> - (2 ^ 63) \<le> x \<and> x < 2 ^ 63"

type_synonym time = int
type_synonym delta = int

definition kInfiniteTimeUs :: int where
  "kInfiniteTimeUs = 2 ^ 63 - 1"

subsection \<open>Offsets\<close>

definition Delta_zero :: delta where
  "Delta_zero = 0"

definition Delta_infinite :: delta where
  "Delta_infinite = kInfiniteTimeUs"

definition Delta_fromSeconds :: "int \<Rightarrow> delta" where
  "Delta_fromSeconds secs = wrap64 (wrap64 (secs * 1000) * 1000)"

definition Delta_fromMilliseconds :: "int \<Rightarrow> delta" where
  "Delta_fromMilliseconds ms = wrap64 (ms * 1000)"

definition Delta_fromMicroseconds :: "int \<Rightarrow> delta" where
  "Delta_fromMicroseconds us = us"

definition Delta_toSeconds :: "delta \<Rightarrow> int" where
  "Delta_toSeconds d = (d sdiv 1000) sdiv 1000"

definition Delta_toMilliseconds :: "delta \<Rightarrow> int" where
  "Delta_toMilliseconds d = d sdiv 1000"

definition Delta_toMicroseconds :: "delta \<Rightarrow> int" where
  "Delta_toMicroseconds d = d"

definition Delta_toTimeval :: "delta \<Rightarrow> int \<times> int" where
  "Delta_toTimeval d = (d sdiv 1000000, d smod 1000000)"

definition Delta_isZero :: "delta \<Rightarrow> bool" where
  "Delta_isZero d \<longleftrightarrow> d = 0"

definition Delta_isInfinite :: "delta \<Rightarrow> bool" where
  "Delta_isInfinite d \<longleftrightarrow> d = kInfiniteTimeUs"

text \<open>Decimal output of an integer, as a C++ stream prints it.\<close>

fun show_nat :: "nat \<Rightarrow> string" where
  "show_nat n =
     (if n < 10 then [char_of (48 + n)] else show_nat (n div 10) @ [char_of (48 + n mod 10)])"

definition show_int :: "int \<Rightarrow> string" where
  "show_int x = (if x < 0 then CHR ''-'' # show_nat (nat (- x)) else show_nat (nat x))"

definition Delta_toDebugValue :: "delta \<Rightarrow> string" where
  "Delta_toDebugValue d =
     (let one_ms = 1000; one_s = 1000 * one_ms; absolute_value = wrap64 \<bar>d\<bar> in
      (if one_s < absolute_value \<and> absolute_value smod one_s = 0
       then ''s'' @ show_int (d sdiv one_s) else []) @
      (if one_ms < absolute_value \<and> absolute_value smod one_ms = 0
       then ''ms'' @ show_int (d sdiv one_ms) else []) @
      ''us'' @ show_int d)"

definition Delta_lt :: "delta \<Rightarrow> delta \<Rightarrow> bool" where
  "Delta_lt lhs rhs \<longleftrightarrow> lhs < rhs"

definition Delta_gt :: "delta \<Rightarrow> delta \<Rightarrow> bool" where
  "Delta_gt lhs rhs \<longleftrightarrow> Delta_lt rhs lhs"

definition Delta_min :: "delta \<Rightarrow> delta \<Rightarrow> delta" where
  "Delta_min a b = (if Delta_lt b a then b else a)"

text \<open>The shifts; an amount of 64 or more is undefined behaviour.\<close>

definition Delta_shl :: "delta \<Rightarrow> size_t \<Rightarrow> delta res" where
  "Delta_shl d n = (if n < 64 then Inr (wrap64 (d * 2 ^ unat n)) else Inl UndefinedBehaviour)"

definition Delta_shr :: "delta \<Rightarrow> size_t \<Rightarrow> delta res" where
  "Delta_shr d n = (if n < 64 then Inr (d div 2 ^ unat n) else Inl UndefinedBehaviour)"

definition Delta_plus :: "delta \<Rightarrow> delta \<Rightarrow> delta" where
  "Delta_plus lhs rhs = wrap64 (lhs + rhs)"

definition Delta_minus :: "delta \<Rightarrow> delta \<Rightarrow> delta" where
  "Delta_minus lhs rhs = wrap64 (lhs - rhs)"

definition Delta_times :: "delta \<Rightarrow> int \<Rightarrow> delta" where
  "Delta_times lhs rhs = wrap64 (lhs * rhs)"

subsection \<open>Points in time\<close>

definition TimeBase_zero :: time where
  "TimeBase_zero = 0"

definition TimeBase_infinite :: time where
  "TimeBase_infinite = kInfiniteTimeUs"

definition TimeBase_isInitialized :: "time \<Rightarrow> bool" where
  "TimeBase_isInitialized t \<longleftrightarrow> 0 \<noteq> t"

definition TimeBase_lt :: "time \<Rightarrow> time \<Rightarrow> bool" where
  "TimeBase_lt lhs rhs \<longleftrightarrow> lhs < rhs"

definition TimeBase_ge :: "time \<Rightarrow> time \<Rightarrow> bool" where
  "TimeBase_ge lhs rhs \<longleftrightarrow> \<not> TimeBase_lt lhs rhs"

definition TimeBase_plus :: "time \<Rightarrow> delta \<Rightarrow> time" where
  "TimeBase_plus lhs rhs = wrap64 (lhs + rhs)"

definition TimeBase_minus :: "time \<Rightarrow> delta \<Rightarrow> time" where
  "TimeBase_minus lhs rhs = wrap64 (lhs - rhs)"

definition TimeBase_diff :: "time \<Rightarrow> time \<Rightarrow> delta" where
  "TimeBase_diff lhs rhs = wrap64 (lhs - rhs)"

section \<open>Lemmas\<close>

lemma wrap64_int64 [simp]: "int64 (wrap64 x)"
  using pos_mod_bound [of "2 ^ 64" "x + 2 ^ 63"] pos_mod_sign [of "2 ^ 64" "x + 2 ^ 63"]
  by (simp add: int64_def wrap64_def)

lemma wrap64_id: "int64 x \<Longrightarrow> wrap64 x = x"
  by (simp add: int64_def wrap64_def)

lemma wrap64_mod: "wrap64 x mod 2 ^ 64 = x mod 2 ^ 64"
  unfolding wrap64_def mod_diff_left_eq by simp

lemma wrap64_cong: "x mod 2 ^ 64 = y mod 2 ^ 64 \<Longrightarrow> wrap64 x = wrap64 y"
  unfolding wrap64_def by (metis mod_add_left_eq)

lemma wrap64_plus [simp]: "wrap64 (wrap64 x + y) = wrap64 (x + y)"
  by (rule wrap64_cong) (metis mod_add_left_eq wrap64_mod)

lemma wrap64_plus_right [simp]: "wrap64 (x + wrap64 y) = wrap64 (x + y)"
  using wrap64_plus [of y x] by (simp add: add.commute)

lemma wrap64_minus [simp]: "wrap64 (wrap64 x - y) = wrap64 (x - y)"
  by (rule wrap64_cong) (metis mod_diff_left_eq wrap64_mod)

lemma wrap64_minus_right [simp]: "wrap64 (x - wrap64 y) = wrap64 (x - y)"
  by (rule wrap64_cong) (metis mod_diff_right_eq wrap64_mod)

lemmas time_simps = TimeBase_plus_def TimeBase_minus_def TimeBase_diff_def Delta_plus_def
  Delta_minus_def TimeBase_lt_def TimeBase_ge_def TimeBase_zero_def TimeBase_isInitialized_def
  Delta_lt_def Delta_gt_def Delta_zero_def Delta_min_def Delta_toMicroseconds_def

lemma fromSeconds_small: "\<bar>s\<bar> \<le> 9000000000000 \<Longrightarrow> Delta_fromSeconds s = s * 1000000"
proof -
  assume "\<bar>s\<bar> \<le> 9000000000000"
  then have "int64 (s * 1000)" "int64 (s * 1000 * 1000)" by (simp_all add: int64_def abs_le_iff)
  then show ?thesis by (simp add: Delta_fromSeconds_def wrap64_id)
qed

lemma sdiv_smod_bounds:
  fixes d m :: int
  assumes "0 < m"
  shows "d = (d sdiv m) * m + d smod m" and "\<bar>d smod m\<bar> < m" and "0 \<le> d \<longrightarrow> 0 \<le> d smod m"
    and "d \<le> 0 \<longrightarrow> d smod m \<le> 0"
proof -
  show "d = (d sdiv m) * m + d smod m" by (simp add: sdiv_mult_smod_eq)
  show "\<bar>d smod m\<bar> < m" using assms smod_int_range [of m d] by (auto simp: abs_if)
  show "0 \<le> d \<longrightarrow> 0 \<le> d smod m" "d \<le> 0 \<longrightarrow> d smod m \<le> 0"
    using assms by (auto simp: smod_int_alt_def sgn_if)
qed

section \<open>Properties\<close>

text \<open>
  Time arithmetic is exact modulo 64 bits: moving a point by the difference of two points
  lands on the target, moving forth and back returns, and the offset between a point and the
  same point moved by d is d.
\<close>

theorem TimeBase_affine:
  assumes "int64 t" and "int64 u" and "int64 d"
  shows "TimeBase_plus t (TimeBase_diff u t) = u \<and> TimeBase_minus (TimeBase_plus t d) d = t \<and>
    TimeBase_diff (TimeBase_plus t d) t = d"
  using assms by (simp add: time_simps wrap64_id)

theorem TimeBase_affine_witness:
  "int64 5 \<and> int64 (2 ^ 63 - 1) \<and> int64 (- (2 ^ 63)) \<and>
   TimeBase_plus 5 (TimeBase_diff (2 ^ 63 - 1) 5) = 2 ^ 63 - 1 \<and>
   TimeBase_minus (TimeBase_plus 5 (- (2 ^ 63))) (- (2 ^ 63)) = 5"
  using TimeBase_affine [of 5 "2 ^ 63 - 1" "- (2 ^ 63)"] by (simp add: int64_def)

text \<open>
  \<open>toTimeval\<close> splits an offset into seconds and microseconds that add up to it, the
  microseconds below one second in magnitude and of the sign of the offset.
\<close>

theorem Delta_toTimeval_split:
  "case Delta_toTimeval d of (sec, usec) \<Rightarrow>
     d = sec * 1000000 + usec \<and> \<bar>usec\<bar> < 1000000 \<and> (d \<ge> 0 \<longrightarrow> usec \<ge> 0) \<and> (d \<le> 0 \<longrightarrow> usec \<le> 0)"
  unfolding Delta_toTimeval_def using sdiv_smod_bounds [of 1000000 d] by simp

theorem Delta_toTimeval_split_witness:
  "Delta_toTimeval (- 1500000) = (- 1, - 500000) \<and>
   (case Delta_toTimeval (- 1500000) of (sec, usec) \<Rightarrow> - 1500000 = sec * 1000000 + usec)"
  using Delta_toTimeval_split [of "- 1500000"]
  by (simp add: Delta_toTimeval_def signed_divide_int_def signed_modulo_int_def)

end
