(* ===== verification/Alarms.thy ===== *)
theory Alarms
  imports Time_Base
begin

text \<open>
  \<open>src/base/alarm.{h,cpp}\<close>: the abstract class \<open>Alarm\<close>. An alarm is an address (a number)
  at which the state holds its deadline and the iterator of its entry in the multimap of its
  server. The base class is generic in the two virtual methods \<open>setImpl\<close> and \<open>cancelImpl\<close>,
  which are arguments here; the delegate called by \<open>fire\<close> is an argument as well.

  The multimap \<open>alarm_map_\<close> that \<open>EpollServer\<close> and \<open>MockAlarmFactory\<close> keep is the list of
  its entries in iteration order. An iterator is the identity number of an entry, never
  reused; erasing through an iterator that is not in the map is undefined behaviour.

  The locale \<open>alarm_impl\<close> states what a derived class promises to the base class, and derives
  that every operation of an alarm keeps the invariant: an alarm is set exactly when the map
  has one entry for it, at its deadline.
\<close>

section \<open>State\<close>

type_synonym alarm_id = nat
type_synonym token = nat

record alarm =
  al_deadline :: time
  al_token :: "token option"

record alarm_server =
  as_map :: "(time \<times> token \<times> alarm_id) list"
  as_fresh :: token
  as_alarms :: "alarm_id \<Rightarrow> alarm"
  as_now :: time

abbreviation entry_token :: "time \<times> token \<times> alarm_id \<Rightarrow> token" where
  "entry_token e \<equiv> fst (snd e)"

text \<open>\<open>emplace\<close> of the standard multimap: after the entries with an equal key.\<close>

fun map_emplace ::
  "time \<times> token \<times> alarm_id \<Rightarrow> (time \<times> token \<times> alarm_id) list \<Rightarrow> (time \<times> token \<times> alarm_id) list" where
  "map_emplace e [] = [e]"
| "map_emplace e (f # m) = (if TimeBase_lt (fst e) (fst f) then e # f # m else f # map_emplace e m)"

definition map_erase ::
  "token \<Rightarrow> (time \<times> token \<times> alarm_id) list \<Rightarrow> (time \<times> token \<times> alarm_id) list res" where
  "map_erase t m =
     (if t \<in> entry_token ` set m then Inr (filter (\<lambda>e. entry_token e \<noteq> t) m)
      else Inl UndefinedBehaviour)"

definition put_deadline :: "alarm_id \<Rightarrow> time \<Rightarrow> 'a alarm_server_scheme \<Rightarrow> 'a alarm_server_scheme" where
  "put_deadline a d s = s\<lparr>as_alarms := (as_alarms s)(a := (as_alarms s a)\<lparr>al_deadline := d\<rparr>)\<rparr>"

definition put_token :: "alarm_id \<Rightarrow> token \<Rightarrow> 'a alarm_server_scheme \<Rightarrow> 'a alarm_server_scheme" where
  "put_token a t s = s\<lparr>as_alarms := (as_alarms s)(a := (as_alarms s a)\<lparr>al_token := Some t\<rparr>)\<rparr>"

abbreviation deadline :: "'a alarm_server_scheme \<Rightarrow> alarm_id \<Rightarrow> time" where
  "deadline s a \<equiv> al_deadline (as_alarms s a)"

section \<open>The base class\<close>

definition Alarm :: "alarm_id \<Rightarrow> 'a alarm_server_scheme \<Rightarrow> 'a alarm_server_scheme" where
  "Alarm a s = s\<lparr>as_alarms := (as_alarms s)(a := \<lparr>al_deadline = TimeBase_zero, al_token = None\<rparr>)\<rparr>"

definition Alarm_isSet :: "'a alarm_server_scheme \<Rightarrow> alarm_id \<Rightarrow> bool" where
  "Alarm_isSet s a = TimeBase_isInitialized (deadline s a)"

type_synonym 's setImpl = "alarm_id \<Rightarrow> 's \<Rightarrow> 's"
type_synonym 's cancelImpl = "alarm_id \<Rightarrow> 's \<Rightarrow> 's res"
type_synonym 's onAlarm = "alarm_id \<Rightarrow> 's \<Rightarrow> 's res"

definition Alarm_set ::
  "bool \<Rightarrow> 'a alarm_server_scheme setImpl \<Rightarrow> alarm_id \<Rightarrow> time \<Rightarrow> 'a alarm_server_scheme \<Rightarrow>
     'a alarm_server_scheme res" where
  "Alarm_set dbg setImpl a new_deadline s =
     rbind (DCHECK dbg (\<not> Alarm_isSet s a)) (\<lambda>_.
     rbind (DCHECK dbg (TimeBase_isInitialized new_deadline)) (\<lambda>_.
     Inr (setImpl a (put_deadline a new_deadline s))))"

definition Alarm_cancel ::
  "'a alarm_server_scheme cancelImpl \<Rightarrow> alarm_id \<Rightarrow> 'a alarm_server_scheme \<Rightarrow>
     'a alarm_server_scheme res" where
  "Alarm_cancel cancelImpl a s =
     (if \<not> Alarm_isSet s a then Inr s else cancelImpl a (put_deadline a TimeBase_zero s))"

definition Alarm_fire ::
  "'a alarm_server_scheme onAlarm \<Rightarrow> alarm_id \<Rightarrow> 'a alarm_server_scheme \<Rightarrow>
     'a alarm_server_scheme res" where
  "Alarm_fire onAlarm a s =
     (if \<not> Alarm_isSet s a then Inr s else onAlarm a (put_deadline a TimeBase_zero s))"

definition Alarm_updateImpl ::
  "'a alarm_server_scheme setImpl \<Rightarrow> 'a alarm_server_scheme cancelImpl \<Rightarrow> alarm_id \<Rightarrow>
     'a alarm_server_scheme \<Rightarrow> 'a alarm_server_scheme res" where
  "Alarm_updateImpl setImpl cancelImpl a s =
     (let new_deadline = deadline s a in
      rbind (cancelImpl a (put_deadline a TimeBase_zero s)) (\<lambda>s.
      Inr (setImpl a (put_deadline a new_deadline s))))"

definition Alarm_update ::
  "'a alarm_server_scheme setImpl \<Rightarrow> 'a alarm_server_scheme cancelImpl \<Rightarrow> alarm_id \<Rightarrow> time \<Rightarrow> delta \<Rightarrow>
     'a alarm_server_scheme \<Rightarrow> 'a alarm_server_scheme res" where
  "Alarm_update setImpl cancelImpl a new_deadline granularity s =
     (if \<not> TimeBase_isInitialized new_deadline then Alarm_cancel cancelImpl a s
      else if wrap64 \<bar>Delta_toMicroseconds (TimeBase_diff new_deadline (deadline s a))\<bar>
          < Delta_toMicroseconds granularity then Inr s
      else let was_set = Alarm_isSet s a; s = put_deadline a new_deadline s in
        if was_set then Alarm_updateImpl setImpl cancelImpl a s else Inr (setImpl a s))"

definition default_granularity :: delta where
  "default_granularity = Delta_fromMilliseconds 1"

section \<open>Registration and firing\<close>

text \<open>
  What \<open>EpollServer\<close> and \<open>MockAlarmFactory\<close> have verbatim in common: registering an alarm under
  its deadline, erasing an entry, and the loop of \<open>runAlarmEvent\<close>, which fires the first entry
  while it is due and erases it after its delegate has run. A delegate may arm alarms that are
  due at once, so the loop need not end: a run without end is the value \<open>None\<close>.
\<close>

definition as_register ::
  "alarm_id \<Rightarrow> 'a alarm_server_scheme \<Rightarrow> 'a alarm_server_scheme \<times> token" where
  "as_register a s =
     (s\<lparr>as_map := map_emplace (deadline s a, as_fresh s, a) (as_map s), as_fresh := Suc (as_fresh s)\<rparr>,
      as_fresh s)"

definition as_unregister ::
  "token \<Rightarrow> 'a alarm_server_scheme \<Rightarrow> 'a alarm_server_scheme res" where
  "as_unregister t s = rbind (map_erase t (as_map s)) (\<lambda>m. Inr (s\<lparr>as_map := m\<rparr>))"

partial_function (option) alarm_loop ::
  "'a alarm_server_scheme onAlarm \<Rightarrow> 'a alarm_server_scheme \<Rightarrow> 'a alarm_server_scheme res option" where
  "alarm_loop onAlarm s =
     (case as_map s of
        [] \<Rightarrow> Some (Inr s)
      | e # m \<Rightarrow>
          if TimeBase_ge (as_now s) (fst e)
          then case rbind (Alarm_fire onAlarm (snd (snd e)) s) (as_unregister (entry_token e)) of
                 Inl err \<Rightarrow> Some (Inl err)
               | Inr s' \<Rightarrow> alarm_loop onAlarm s'
          else Some (Inr s))"

declare alarm_loop.simps [code]

section \<open>Invariant\<close>

text \<open>
  \<open>as_base\<close>: the map is sorted by time, its keys are 64 bit values, its iterators are distinct
  and allocated.
  \<open>as_links St s a\<close>: outside the iterators in \<open>St\<close>, the entries of alarm \<open>a\<close> are exactly the
  one its iterator points to, at its deadline, if it is set, and none otherwise. \<open>St\<close> holds
  the entry that is being fired: it is erased only after the delegate has run.
\<close>

definition as_base :: "'a alarm_server_scheme \<Rightarrow> bool" where
  "as_base s \<longleftrightarrow> sorted (map fst (as_map s)) \<and> distinct (map entry_token (as_map s)) \<and>
     (\<forall>e \<in> set (as_map s). entry_token e < as_fresh s \<and> int64 (fst e))"

definition entries :: "token set \<Rightarrow> 'a alarm_server_scheme \<Rightarrow> alarm_id \<Rightarrow> (time \<times> token) set" where
  "entries St s a = {(k, t). (k, t, a) \<in> set (as_map s) \<and> t \<notin> St}"

definition as_links :: "token set \<Rightarrow> 'a alarm_server_scheme \<Rightarrow> alarm_id \<Rightarrow> bool" where
  "as_links St s a \<longleftrightarrow>
     (if deadline s a = 0 then entries St s a = {}
      else \<exists>t. al_token (as_alarms s a) = Some t \<and> entries St s a = {(deadline s a, t)})"

definition as_inv :: "token set \<Rightarrow> 'a alarm_server_scheme \<Rightarrow> bool" where
  "as_inv St s \<longleftrightarrow> as_base s \<and> (\<forall>a. as_links St s a) \<and> (\<forall>t \<in> St. t < as_fresh s)"

section \<open>Lemmas\<close>

lemma set_map_emplace [simp]: "set (map_emplace e m) = insert e (set m)"
  by (induction e m rule: map_emplace.induct) auto

lemma sorted_map_emplace: "sorted (map fst m) \<Longrightarrow> sorted (map fst (map_emplace e m))"
  by (induction e m rule: map_emplace.induct) (auto simp: TimeBase_lt_def)

lemma distinct_map_emplace:
  "distinct (map entry_token (map_emplace e m)) \<longleftrightarrow>
     entry_token e \<notin> entry_token ` set m \<and> distinct (map entry_token m)"
  by (induction e m rule: map_emplace.induct) auto

lemma put_deadline_simps [simp]:
  "as_map (put_deadline a d s) = as_map s" "as_fresh (put_deadline a d s) = as_fresh s"
  "as_now (put_deadline a d s) = as_now s" "entries St (put_deadline a d s) = entries St s"
  "as_base (put_deadline a d s) = as_base s"
  "as_alarms (put_deadline a d s) b =
     (if b = a then (as_alarms s a)\<lparr>al_deadline := d\<rparr> else as_alarms s b)"
  by (simp_all add: put_deadline_def entries_def as_base_def fun_eq_iff)

lemma put_token_simps [simp]:
  "as_map (put_token a t s) = as_map s" "as_fresh (put_token a t s) = as_fresh s"
  "as_now (put_token a t s) = as_now s" "entries St (put_token a t s) = entries St s"
  "as_base (put_token a t s) = as_base s"
  "as_alarms (put_token a t s) b =
     (if b = a then (as_alarms s a)\<lparr>al_token := Some t\<rparr> else as_alarms s b)"
  by (simp_all add: put_token_def entries_def as_base_def fun_eq_iff)

lemma isSet_iff [simp]: "Alarm_isSet s a \<longleftrightarrow> deadline s a \<noteq> 0"
  by (auto simp: Alarm_isSet_def TimeBase_isInitialized_def)

text \<open>Halfway through an operation on alarm \<open>a\<close>: everything is consistent but \<open>a\<close> itself.\<close>

definition as_unlinked :: "token set \<Rightarrow> 'a alarm_server_scheme \<Rightarrow> alarm_id \<Rightarrow> bool" where
  "as_unlinked St s a \<longleftrightarrow> as_base s \<and> (\<forall>b. b \<noteq> a \<longrightarrow> as_links St s b) \<and> (\<forall>t \<in> St. t < as_fresh s)"

lemma as_links_put_other: "b \<noteq> a \<Longrightarrow> as_links St (put_deadline a d s) b = as_links St s b"
  by (simp add: as_links_def)

lemma as_unlinked_put [simp]: "as_unlinked St (put_deadline a d s) a = as_unlinked St s a"
  by (auto simp: as_unlinked_def as_links_put_other)

lemma as_inv_unlinked: "as_inv St s \<Longrightarrow> as_unlinked St s a"
  by (simp add: as_inv_def as_unlinked_def)

lemma as_inv_iff: "as_inv St s \<longleftrightarrow> as_unlinked St s a \<and> as_links St s a"
  by (auto simp: as_inv_def as_unlinked_def)

lemma unset_no_entry: "as_inv St s \<Longrightarrow> deadline s a = 0 \<Longrightarrow> entries St s a = {}"
  using as_inv_iff [of St s a] by (simp add: as_links_def)

lemma set_entryE:
  assumes "as_inv St s" and "deadline s a \<noteq> 0"
  obtains t where "al_token (as_alarms s a) = Some t" and "entries St s a = {(deadline s a, t)}"
  using assms as_inv_iff [of St s a] by (auto simp: as_links_def)

lemma granularity [simp]: "default_granularity = 1000"
  by (simp add: default_granularity_def Delta_fromMilliseconds_def wrap64_id int64_def)

lemma update_unset:
  assumes "deadline s a = 0" and "1000 \<le> d" and "int64 d"
  shows "Alarm_update setImpl cancelImpl a d default_granularity s = Alarm_set False setImpl a d s"
  using assms by (simp add: Alarm_update_def Alarm_set_def TimeBase_isInitialized_def
      Delta_toMicroseconds_def TimeBase_diff_def wrap64_id)

lemma as_inv_now [simp]: "as_inv St (s\<lparr>as_now := t\<rparr>) = as_inv St s"
  by (simp add: as_inv_def as_base_def as_links_def entries_def)

section \<open>What a derived class promises\<close>

locale alarm_impl =
  fixes setImpl :: "'a alarm_server_scheme setImpl"
    and cancelImpl :: "'a alarm_server_scheme cancelImpl"
  assumes set_links: "as_unlinked St s a \<Longrightarrow> entries St s a = {} \<Longrightarrow> deadline s a \<noteq> 0 \<Longrightarrow>
      int64 (deadline s a) \<Longrightarrow> as_inv St (setImpl a s)"
    and set_now: "as_now (setImpl a s) = as_now s"
    and set_deadline: "deadline (setImpl a s) b = deadline s b"
    and set_map: "set (as_map (setImpl a s)) = insert (deadline s a, as_fresh s, a) (set (as_map s))"
    and cancel_links: "as_unlinked St s a \<Longrightarrow> al_token (as_alarms s a) = Some t \<Longrightarrow>
      entries St s a = {(k, t)} \<Longrightarrow> deadline s a = 0 \<Longrightarrow>
      \<exists>s'. cancelImpl a s = Inr s' \<and> as_inv St s' \<and> as_now s' = as_now s \<and>
        (\<forall>b. deadline s' b = deadline s b) \<and> set (as_map s') = set (as_map s) - {(k, t, a)}"
begin

lemma set_ok:
  assumes "as_inv St s" and "deadline s a = 0" and "d \<noteq> 0" and "int64 d"
  shows "\<exists>s'. Alarm_set dbg setImpl a d s = Inr s' \<and> as_inv St s' \<and> deadline s' a = d \<and>
    (\<forall>b. b \<noteq> a \<longrightarrow> deadline s' b = deadline s b) \<and> as_now s' = as_now s \<and>
    set (as_map s') = insert (d, as_fresh s, a) (set (as_map s))"
proof -
  have "entries St s a = {}" using assms(1,2) by (rule unset_no_entry)
  then have "as_inv St (setImpl a (put_deadline a d s))"
    using assms as_inv_unlinked by (intro set_links) auto
  then show ?thesis using assms(2,3)
    by (simp add: Alarm_set_def TimeBase_isInitialized_def set_now set_deadline set_map)
qed

lemma cancel_ok:
  assumes "as_inv St s"
  shows "\<exists>s'. Alarm_cancel cancelImpl a s = Inr s' \<and> as_inv St s' \<and> deadline s' a = 0 \<and>
    (\<forall>b. b \<noteq> a \<longrightarrow> deadline s' b = deadline s b) \<and> as_now s' = as_now s \<and>
    set (as_map s') = set (as_map s) - {(k, t, b). b = a \<and> t \<notin> St}"
proof (cases "deadline s a = 0")
  case True
  then have "entries St s a = {}" using assms by (intro unset_no_entry)
  then have "set (as_map s) - {(k, t, b). b = a \<and> t \<notin> St} = set (as_map s)"
    by (auto simp: entries_def)
  then show ?thesis using True assms by (simp add: Alarm_cancel_def)
next
  case False
  then obtain t where t: "al_token (as_alarms s a) = Some t" "entries St s a = {(deadline s a, t)}"
    using assms set_entryE by blast
  have e: "set (as_map s) - {(k, t, b). b = a \<and> t \<notin> St} = set (as_map s) - {(deadline s a, t, a)}"
    using t(2) by (auto simp: entries_def)
  show ?thesis
    using cancel_links [of St "put_deadline a 0 s" a t "deadline s a"] t as_inv_unlinked [OF assms]
      False unfolding e by (auto simp: Alarm_cancel_def TimeBase_zero_def)
qed

lemma update_ok:
  assumes "as_inv St s" and "int64 d"
  shows "\<exists>s'. Alarm_update setImpl cancelImpl a d g s = Inr s' \<and> as_inv St s' \<and>
    deadline s' a = (if d \<noteq> 0 \<and> wrap64 \<bar>TimeBase_diff d (deadline s a)\<bar> < g then deadline s a else d) \<and>
    (\<forall>b. b \<noteq> a \<longrightarrow> deadline s' b = deadline s b) \<and> as_now s' = as_now s"
proof (cases "d = 0 \<or> wrap64 \<bar>TimeBase_diff d (deadline s a)\<bar> < g")
  case True
  then show ?thesis using cancel_ok [OF assms(1), of a] assms(1)
    by (auto simp: Alarm_update_def TimeBase_isInitialized_def Delta_toMicroseconds_def)
next
  case False
  show ?thesis
  proof (cases "deadline s a = 0")
    case True
    have "entries St s a = {}" using assms(1) True by (rule unset_no_entry)
    then have "as_inv St (setImpl a (put_deadline a d s))"
      using assms False as_inv_unlinked by (intro set_links) auto
    then show ?thesis using False True
      by (simp add: Alarm_update_def TimeBase_isInitialized_def Delta_toMicroseconds_def set_now
          set_deadline)
  next
    case set: False
    obtain t where t: "al_token (as_alarms s a) = Some t" "entries St s a = {(deadline s a, t)}"
      using assms set set_entryE by blast
    obtain s1 where s1: "cancelImpl a (put_deadline a 0 (put_deadline a d s)) = Inr s1"
      "as_inv St s1" "as_now s1 = as_now s" "deadline s1 a = 0"
      "\<forall>b. b \<noteq> a \<longrightarrow> deadline s1 b = deadline s b"
      using cancel_links [of St "put_deadline a 0 (put_deadline a d s)" a t "deadline s a"] t
        as_inv_unlinked [OF assms(1)] by auto
    have "entries St s1 a = {}" using s1(2,4) by (rule unset_no_entry)
    then have "as_inv St (setImpl a (put_deadline a d s1))"
      using s1(2) False as_inv_unlinked assms(2) by (intro set_links) auto
    then show ?thesis using False set s1
      by (simp add: Alarm_update_def Alarm_updateImpl_def TimeBase_isInitialized_def
          TimeBase_zero_def Delta_toMicroseconds_def set_now set_deadline Let_def)
  qed
qed

end

section \<open>Registration keeps the invariant\<close>

lemma register_links:
  assumes "as_unlinked St s a" and "entries St s a = {}" and "deadline s a \<noteq> 0"
    and "int64 (deadline s a)"
  shows "as_inv St (put_token a (snd (as_register a s)) (fst (as_register a s)))"
proof -
  let ?s = "put_token a (as_fresh s) (fst (as_register a s))"
  have fresh: "as_fresh s \<notin> St" "as_fresh s \<notin> entry_token ` set (as_map s)"
    using assms(1) by (auto simp: as_unlinked_def as_base_def)
  have "entries St ?s b = (if b = a then {(deadline s a, as_fresh s)} else entries St s b)" for b
    using assms(2) fresh(1) by (auto simp: entries_def as_register_def)
  moreover have "as_base ?s"
    using assms(1,4) fresh(2)
    by (auto simp: as_base_def as_unlinked_def as_register_def sorted_map_emplace
        distinct_map_emplace)
  ultimately show ?thesis
    using assms(1,3) by (auto simp: as_inv_def as_links_def as_unlinked_def as_register_def)
qed

lemma token_unique:
  assumes "as_base s" and "(k, t, a) \<in> set (as_map s)" and "(l, t, b) \<in> set (as_map s)"
  shows "k = l \<and> a = b"
proof -
  have "inj_on entry_token (set (as_map s))" using assms(1) by (simp add: as_base_def distinct_map)
  from inj_onD [OF this _ assms(2,3)] show ?thesis by simp
qed

lemma erase_set:
  assumes "as_base s" and "(k, t, a) \<in> set (as_map s)"
  shows "\<exists>m. as_unregister t s = Inr (s\<lparr>as_map := m\<rparr>) \<and> as_base (s\<lparr>as_map := m\<rparr>) \<and>
    set m = set (as_map s) - {(k, t, a)}"
proof -
  let ?m = "filter (\<lambda>e. entry_token e \<noteq> t) (as_map s)"
  have only: "e = (k, t, a)" if "e \<in> set (as_map s)" "entry_token e = t" for e
    using token_unique [OF assms] that by (cases e) auto
  have "entry_token (k, t, a) = t" by simp
  with only have "set ?m = set (as_map s) - {(k, t, a)}" unfolding set_filter by blast
  moreover have "as_unregister t s = Inr (s\<lparr>as_map := ?m\<rparr>)"
    using assms(2) by (force simp: as_unregister_def map_erase_def)
  moreover have "as_base (s\<lparr>as_map := ?m\<rparr>)"
    using assms(1) by (auto simp: as_base_def sorted_filter distinct_map_filter)
  ultimately show ?thesis by blast
qed

lemma cancel_unregister:
  assumes "as_unlinked St s a" and "entries St s a = {(k, t)}" and "deadline s a = 0"
  shows "\<exists>m. as_unregister t s = Inr (s\<lparr>as_map := m\<rparr>) \<and> as_inv St (s\<lparr>as_map := m\<rparr>) \<and>
    set m = set (as_map s) - {(k, t, a)}"
proof -
  have mem: "(k, t, a) \<in> set (as_map s)" using assms(2) by (auto simp: entries_def)
  obtain m where m: "as_unregister t s = Inr (s\<lparr>as_map := m\<rparr>)" "as_base (s\<lparr>as_map := m\<rparr>)"
    "set m = set (as_map s) - {(k, t, a)}"
    using erase_set [OF _ mem] assms(1) by (auto simp: as_unlinked_def)
  have "entries St (s\<lparr>as_map := m\<rparr>) b = (if b = a then {} else entries St s b)" for b
    using assms(2) m(3) by (auto simp: entries_def)
  then have "as_inv St (s\<lparr>as_map := m\<rparr>)"
    using assms(1,3) m(2) by (auto simp: as_inv_def as_links_def as_unlinked_def)
  with m show ?thesis by blast
qed

section \<open>The firing loop\<close>

definition due :: "'a alarm_server_scheme \<Rightarrow> (time \<times> token \<times> alarm_id) set" where
  "due s = {e \<in> set (as_map s). fst e \<le> as_now s}"

text \<open>
  The contract of a delegate while the clock is between \<open>lo\<close> and \<open>hi\<close>: it returns, keeps the
  invariant and the entry being fired, leaves the clock alone, and arms no alarm that is
  already due.
\<close>

definition delegate_ok :: "time \<Rightarrow> time \<Rightarrow> 'a alarm_server_scheme onAlarm \<Rightarrow> bool" where
  "delegate_ok lo hi onAlarm \<longleftrightarrow>
     (\<forall>a t s. lo \<le> as_now s \<and> as_now s \<le> hi \<and> as_inv {t} s \<and> deadline s a = 0 \<and>
        t \<in> entry_token ` set (as_map s) \<longrightarrow>
        (\<exists>s'. onAlarm a s = Inr s' \<and> as_inv {t} s' \<and> as_now s' = as_now s \<and>
           t \<in> entry_token ` set (as_map s') \<and> due s' \<subseteq> due s))"

lemma finite_due [simp]: "finite (due s)"
  by (simp add: due_def)

lemma fire_links:
  assumes "as_inv {} s" and "(k, t, a) \<in> set (as_map s)"
  shows "deadline s a = k" and "k \<noteq> 0" and "as_inv {t} (put_deadline a 0 s)"
proof -
  have e: "(k, t) \<in> entries {} s a" using assms(2) by (simp add: entries_def)
  have l: "as_links {} s b" for b using assms(1) by (simp add: as_inv_def)
  have base: "as_base s" "t < as_fresh s" using assms by (auto simp: as_inv_def as_base_def)
  show d: "deadline s a = k" "k \<noteq> 0"
    using l [of a] e by (auto simp: as_links_def split: if_splits)
  then have "entries {} s a = {(k, t)}" using l [of a] e by (auto simp: as_links_def)
  then have "entries {t} s a = {}" by (auto simp: entries_def)
  moreover have "entries {t} s b = entries {} s b" if "b \<noteq> a" for b
    using token_unique [OF base(1) assms(2)] that by (auto simp: entries_def)
  ultimately show "as_inv {t} (put_deadline a 0 s)"
    using l base by (simp add: as_inv_def as_links_def)
qed

lemma erase_stale:
  assumes "as_inv {t} s" and "t \<in> entry_token ` set (as_map s)"
  shows "\<exists>m. as_unregister t s = Inr (s\<lparr>as_map := m\<rparr>) \<and> as_inv {} (s\<lparr>as_map := m\<rparr>) \<and>
    set m \<subseteq> set (as_map s) \<and> t \<notin> entry_token ` set m"
proof -
  obtain k a where e: "(k, t, a) \<in> set (as_map s)" using assms(2) by force
  have base: "as_base s" using assms(1) by (simp add: as_inv_def)
  obtain m where m: "as_unregister t s = Inr (s\<lparr>as_map := m\<rparr>)" "as_base (s\<lparr>as_map := m\<rparr>)"
    "set m = set (as_map s) - {(k, t, a)}"
    using erase_set [OF base e] by blast
  have "entries {} (s\<lparr>as_map := m\<rparr>) b = entries {t} s b" for b
    using m(3) token_unique [OF base e] by (auto simp: entries_def)
  then have "as_inv {} (s\<lparr>as_map := m\<rparr>)"
    using assms(1) m(2) by (simp add: as_inv_def as_links_def)
  moreover have "t \<notin> entry_token ` set m"
  proof
    assume "t \<in> entry_token ` set m"
    then obtain l b where "(l, t, b) \<in> set m" by force
    with m(3) token_unique [OF base e, of l b] show False by simp
  qed
  ultimately show ?thesis using m(1,3) by (intro exI [of _ m]) simp
qed

text \<open>One round of the loop: the first entry is due, its alarm is fired, and it is erased.\<close>

lemma fire_round:
  assumes ok: "delegate_ok lo hi onAlarm" and now: "lo \<le> as_now s" "as_now s \<le> hi"
    and inv: "as_inv {} s" and first: "as_map s = e # m" and is_due: "fst e \<le> as_now s"
  shows "\<exists>s'. rbind (Alarm_fire onAlarm (snd (snd e)) s) (as_unregister (entry_token e)) = Inr s' \<and>
    as_inv {} s' \<and> as_now s' = as_now s \<and> due s' \<subset> due s"
proof -
  obtain k t a where e: "e = (k, t, a)" by (cases e)
  have mem: "(k, t, a) \<in> set (as_map s)" using first e by simp
  note links = fire_links [OF inv mem]
  have "t \<in> entry_token ` set (as_map (put_deadline a 0 s))" using mem by force
  then obtain s1 where s1: "onAlarm a (put_deadline a 0 s) = Inr s1" "as_inv {t} s1"
    "as_now s1 = as_now s" "t \<in> entry_token ` set (as_map s1)" "due s1 \<subseteq> due (put_deadline a 0 s)"
    using ok [unfolded delegate_ok_def, rule_format, of "put_deadline a 0 s" t a] now links(3) by auto
  obtain m' where m': "as_unregister t s1 = Inr (s1\<lparr>as_map := m'\<rparr>)" "as_inv {} (s1\<lparr>as_map := m'\<rparr>)"
    "set m' \<subseteq> set (as_map s1)" "t \<notin> entry_token ` set m'"
    using erase_stale [OF s1(2,4)] by blast
  have "due (s1\<lparr>as_map := m'\<rparr>) \<subseteq> due s1" using m'(3) by (auto simp: due_def)
  moreover have "due (put_deadline a 0 s) = due s" by (simp add: due_def)
  moreover have "(k, t, a) \<in> due s" using mem is_due e by (simp add: due_def)
  moreover have "(k, t, a) \<notin> due (s1\<lparr>as_map := m'\<rparr>)" using m'(4) by (force simp: due_def)
  ultimately have sub: "due (s1\<lparr>as_map := m'\<rparr>) \<subset> due s" using s1(5) by blast
  have "rbind (Alarm_fire onAlarm a s) (as_unregister t) = Inr (s1\<lparr>as_map := m'\<rparr>)"
    using s1(1) m'(1) links by (simp add: Alarm_fire_def TimeBase_zero_def)
  then show ?thesis
    using s1(3) m'(2) sub by (intro exI [of _ "s1\<lparr>as_map := m'\<rparr>"]) (simp add: e)
qed

lemma alarm_loop_ok:
  assumes ok: "delegate_ok lo hi onAlarm" and "lo \<le> as_now s" "as_now s \<le> hi" and "as_inv {} s"
  shows "\<exists>s'. alarm_loop onAlarm s = Some (Inr s') \<and> as_inv {} s' \<and> as_now s' = as_now s \<and>
    due s' = {}"
  using assms(2-4)
proof (induction "card (due s)" arbitrary: s rule: less_induct)
  case less
  show ?case
  proof (cases "as_map s")
    case Nil
    then show ?thesis using less.prems
      by (subst alarm_loop.simps) (simp add: due_def)
  next
    case (Cons e m)
    show ?thesis
    proof (cases "fst e \<le> as_now s")
      case True
      obtain s' where s': "rbind (Alarm_fire onAlarm (snd (snd e)) s) (as_unregister (entry_token e)) = Inr s'"
        "as_inv {} s'" "as_now s' = as_now s" "due s' \<subset> due s"
        using fire_round [OF ok less.prems(1,2,3) Cons True] by blast
      have "card (due s') < card (due s)" using s'(4) by (rule psubset_card_mono [OF finite_due])
      from less.hyps [OF this] less.prems s'(2,3)
      have "\<exists>s''. alarm_loop onAlarm s' = Some (Inr s'') \<and> as_inv {} s'' \<and> as_now s'' = as_now s \<and>
        due s'' = {}" by simp
      then show ?thesis using Cons True s'(1)
        by (subst alarm_loop.simps) (simp add: TimeBase_ge_def TimeBase_lt_def)
    next
      case False
      have "sorted (map fst (as_map s))" using less.prems(3) by (simp add: as_inv_def as_base_def)
      then have "due s = {}" using Cons False by (auto simp: due_def)
      then show ?thesis using Cons False less.prems
        by (subst alarm_loop.simps) (simp add: TimeBase_ge_def TimeBase_lt_def)
    qed
  qed
qed

text \<open>What every firing of an alarm keeps, the loop keeps.\<close>

lemma alarm_loop_keeps:
  assumes "alarm_loop onAlarm s = Some (Inr s')" and "P s"
    and fire: "\<And>a s s'. P s \<Longrightarrow> onAlarm a (put_deadline a 0 s) = Inr s' \<Longrightarrow> P s'"
    and map: "\<And>s m. P (s\<lparr>as_map := m\<rparr>) = P s"
  shows "P s'"
proof -
  have round: "P s1" if ps: "P s" and r: "rbind (Alarm_fire onAlarm a s) (as_unregister t) = Inr s1" for s a t s1
  proof -
    obtain s0 m where s0: "Alarm_fire onAlarm a s = Inr s0" "s1 = s0\<lparr>as_map := m\<rparr>"
      using r by (auto simp: rbind_eq_Inr_iff as_unregister_def)
    have "P s0" using s0(1) ps fire [OF ps] by (auto simp: Alarm_fire_def TimeBase_zero_def split: if_splits)
    then show ?thesis using s0(2) map by simp
  qed
  let ?Q = "\<lambda>f s (r :: 'a alarm_server_scheme res). f = onAlarm \<longrightarrow> P s \<longrightarrow> (\<forall>s'. r = Inr s' \<longrightarrow> P s')"
  have "?Q onAlarm s (Inr s')"
  proof (rule alarm_loop.raw_induct [where P = ?Q, OF _ assms(1)], intro impI allI)
    fix loop f s r s'
    assume IH: "\<And>f s r. loop f s = Some r \<Longrightarrow> ?Q f s r"
      and run: "(case as_map s of [] \<Rightarrow> Some (Inr s)
        | e # m \<Rightarrow> if TimeBase_ge (as_now s) (fst e)
            then case rbind (Alarm_fire f (snd (snd e)) s) (as_unregister (entry_token e)) of
              Inl err \<Rightarrow> Some (Inl err) | Inr s' \<Rightarrow> loop f s'
            else Some (Inr s)) = Some r"
      and f: "f = onAlarm" "P s" "r = Inr s'"
    then show "P s'" using round [OF f(2)] by (auto split: list.splits if_splits sum.splits)
  qed
  then show ?thesis using assms(1,2) by blast
qed

end
