(* ===== verification/Epoll_Server.thy ===== *)
theory Epoll_Server
  imports Alarms
begin

text \<open>
  \<open>src/base/epoll_server.{h,cpp}\<close>, \<open>epoll_alarm.{h,cpp}\<close>, \<open>epoll_alarm_factory.{h,cpp}\<close>: the
  event loop. The state extends that of the alarms with the epoll descriptor and the map from
  file descriptors to callbacks; it is left open so that callbacks and delegates can act on
  the rest of the program.

  Parameters. \<open>gettimeofday\<close> is the returned value with the seconds and microseconds stored;
  \<open>epoll_ctl epfd fd\<close> and \<open>epoll_wait epfd timeout\<close> are the returned values, the latter with the
  descriptors of the events stored. \<open>onReadable\<close> is the virtual method of a callback and
  \<open>onAlarm\<close> that of the delegates.
\<close>

section \<open>Definitions\<close>

record epoll_server = alarm_server +
  ep_epfd :: int
  ep_cb_map :: "int \<rightharpoonup> nat"

type_synonym timeofday = "int \<times> int \<times> int"

definition EpollServer_updateNow ::
  "timeofday \<Rightarrow> 'a epoll_server_scheme \<Rightarrow> 'a epoll_server_scheme res" where
  "EpollServer_updateNow gettimeofday s =
     (let (rv, tv_sec, tv_usec) = gettimeofday in
      if rv < 0 then Inl FatalLog
      else let t = tv_usec sdiv 1000;
               t = wrap64 (t + wrap64 (wrap64 (tv_sec * 1000) * 1000))
        in Inr (s\<lparr>as_now := t\<rparr>))"

definition EpollServer :: "int \<Rightarrow> timeofday \<Rightarrow> 'a \<Rightarrow> 'a epoll_server_scheme res" where
  "EpollServer epoll_create gettimeofday rest =
     (if epoll_create = - 1 then Inl FatalLog
      else EpollServer_updateNow gettimeofday
        \<lparr>as_map = [], as_fresh = 0, as_alarms = (\<lambda>a. \<lparr>al_deadline = 0, al_token = None\<rparr>),
         as_now = 0, ep_epfd = epoll_create, ep_cb_map = Map.empty, \<dots> = rest\<rparr>)"

definition EpollServer_registerRead ::
  "(int \<Rightarrow> int \<Rightarrow> int) \<Rightarrow> int \<Rightarrow> nat \<Rightarrow> 'a epoll_server_scheme \<Rightarrow> 'a epoll_server_scheme \<times> bool" where
  "EpollServer_registerRead epoll_ctl fd cb s =
     (case ep_cb_map s fd of
        Some old \<Rightarrow> (s\<lparr>ep_cb_map := (ep_cb_map s)(fd \<mapsto> cb)\<rparr>, True)
      | None \<Rightarrow>
          let s = s\<lparr>ep_cb_map := (ep_cb_map s)(fd \<mapsto> cb)\<rparr> in
          if epoll_ctl (ep_epfd s) fd < 0 then (s, False) else (s, True))"

fun EpollServer_dispatch ::
  "(nat \<Rightarrow> 'a epoll_server_scheme \<Rightarrow> 'a epoll_server_scheme res) \<Rightarrow> int list \<Rightarrow>
     'a epoll_server_scheme \<Rightarrow> 'a epoll_server_scheme res" where
  "EpollServer_dispatch onReadable [] s = Inr s"
| "EpollServer_dispatch onReadable (fd # fds) s =
     (case ep_cb_map s fd of
        None \<Rightarrow> EpollServer_dispatch onReadable fds s
      | Some cb \<Rightarrow> rbind (onReadable cb s) (EpollServer_dispatch onReadable fds))"

text \<open>The timeout of \<open>epoll_wait\<close> is an \<open>int\<close>: the milliseconds are truncated to 32 bits.\<close>

definition wrap32 :: "int \<Rightarrow> int" where
  "wrap32 x = (x + 2 ^ 31) mod 2 ^ 32 - 2 ^ 31"

definition EpollServer_runReadEvent ::
  "(int \<Rightarrow> int \<Rightarrow> int \<times> int list) \<Rightarrow> (nat \<Rightarrow> 'a epoll_server_scheme \<Rightarrow> 'a epoll_server_scheme res) \<Rightarrow>
     delta \<Rightarrow> 'a epoll_server_scheme \<Rightarrow> ('a epoll_server_scheme \<times> bool) res" where
  "EpollServer_runReadEvent epoll_wait onReadable wait s =
     (let (rv, fds) = epoll_wait (ep_epfd s) (wrap32 (Delta_toMilliseconds wait)) in
      if rv < 0 then Inl FatalLog
      else if rv = 0 then Inr (s, False)
      else rbind (EpollServer_dispatch onReadable (take (nat rv) fds) s) (\<lambda>s. Inr (s, True)))"

definition EpollServer_registerAlarm ::
  "alarm_id \<Rightarrow> 'a epoll_server_scheme \<Rightarrow> 'a epoll_server_scheme \<times> token" where
  "EpollServer_registerAlarm a s = as_register a s"

definition EpollServer_unregisterAlarm ::
  "token \<Rightarrow> 'a epoll_server_scheme \<Rightarrow> 'a epoll_server_scheme res" where
  "EpollServer_unregisterAlarm t s = as_unregister t s"

definition EpollServer_runAlarmEvent ::
  "'a epoll_server_scheme onAlarm \<Rightarrow> 'a epoll_server_scheme \<Rightarrow>
     ('a epoll_server_scheme \<times> bool) res option" where
  "EpollServer_runAlarmEvent onAlarm s =
     map_option (\<lambda>r. rbind r (\<lambda>s. Inr (s, False))) (alarm_loop onAlarm s)"

text \<open>\<open>begin()\<close> of an empty map has no entry to read: undefined behaviour.\<close>

definition EpollServer_incomingAlarm :: "'a epoll_server_scheme \<Rightarrow> delta res" where
  "EpollServer_incomingAlarm s =
     (case as_map s of
        [] \<Rightarrow> Inl UndefinedBehaviour
      | e # m \<Rightarrow>
          let rv = TimeBase_diff (fst e) (as_now s) in
          if Delta_lt rv Delta_zero then Inr Delta_zero else Inr rv)"

definition EpollServer_runEventLoop ::
  "timeofday \<Rightarrow> (int \<Rightarrow> int \<Rightarrow> int \<times> int list) \<Rightarrow>
     (nat \<Rightarrow> 'a epoll_server_scheme \<Rightarrow> 'a epoll_server_scheme res) \<Rightarrow> 'a epoll_server_scheme onAlarm \<Rightarrow>
     delta \<Rightarrow> 'a epoll_server_scheme \<Rightarrow> ('a epoll_server_scheme \<times> bool) res option" where
  "EpollServer_runEventLoop gettimeofday epoll_wait onReadable onAlarm wait s =
     (case rbind (EpollServer_updateNow gettimeofday s) (\<lambda>s.
             rbind (EpollServer_incomingAlarm s) (\<lambda>incoming.
             EpollServer_runReadEvent epoll_wait onReadable (Delta_min wait incoming) s)) of
        Inl err \<Rightarrow> Some (Inl err)
      | Inr (s, rv) \<Rightarrow>
          map_option (\<lambda>r. rbind r (\<lambda>(s, rv'). Inr (s, rv \<or> rv')))
            (EpollServer_runAlarmEvent onAlarm s))"

definition EpollAlarm_setImpl :: "'a epoll_server_scheme setImpl" where
  "EpollAlarm_setImpl a s = (let (s, t) = EpollServer_registerAlarm a s in put_token a t s)"

definition EpollAlarm_cancelImpl :: "'a epoll_server_scheme cancelImpl" where
  "EpollAlarm_cancelImpl a s =
     (case al_token (as_alarms s a) of
        None \<Rightarrow> Inl UndefinedBehaviour
      | Some t \<Rightarrow> EpollServer_unregisterAlarm t s)"

definition EpollAlarm_destroy ::
  "alarm_id \<Rightarrow> 'a epoll_server_scheme \<Rightarrow> 'a epoll_server_scheme res" where
  "EpollAlarm_destroy a s = Alarm_cancel EpollAlarm_cancelImpl a s"

definition EpollAlarmFactory_createAlarm ::
  "alarm_id \<Rightarrow> 'a epoll_server_scheme \<Rightarrow> 'a epoll_server_scheme" where
  "EpollAlarmFactory_createAlarm a s = Alarm a s"

definition EpollAlarmFactory_now :: "'a epoll_server_scheme \<Rightarrow> time" where
  "EpollAlarmFactory_now s = as_now s"

text \<open>A delegate that re-arms its alarm a period from now, as the periodic ones of the program do.\<close>

definition EpollAlarm_rearm :: "delta \<Rightarrow> 'a epoll_server_scheme onAlarm" where
  "EpollAlarm_rearm period a s =
     Alarm_update EpollAlarm_setImpl EpollAlarm_cancelImpl a
       (TimeBase_plus (EpollAlarmFactory_now s) period) default_granularity s"

section \<open>Lemmas\<close>

lemma EpollAlarm_setImpl_simps:
  "as_now (EpollAlarm_setImpl a s) = as_now s"
  "deadline (EpollAlarm_setImpl a s) b = deadline s b"
  "set (as_map (EpollAlarm_setImpl a s)) = insert (deadline s a, as_fresh s, a) (set (as_map s))"
  by (simp_all add: EpollAlarm_setImpl_def EpollServer_registerAlarm_def as_register_def)

lemma EpollAlarm_setImpl_register:
  "EpollAlarm_setImpl a s = put_token a (snd (as_register a s)) (fst (as_register a s))"
  by (simp add: EpollAlarm_setImpl_def EpollServer_registerAlarm_def case_prod_unfold Let_def)

interpretation epoll: alarm_impl EpollAlarm_setImpl EpollAlarm_cancelImpl
proof unfold_locales
  fix St :: "token set" and s :: "'a epoll_server_scheme" and a
  assume "as_unlinked St s a" "entries St s a = {}" "deadline s a \<noteq> 0" "int64 (deadline s a)"
  then show "as_inv St (EpollAlarm_setImpl a s)"
    unfolding EpollAlarm_setImpl_register by (rule register_links)
next
  fix St :: "token set" and s :: "'a epoll_server_scheme" and a t k
  assume un: "as_unlinked St s a" and t: "al_token (as_alarms s a) = Some t"
    and e: "entries St s a = {(k, t)}" and d: "deadline s a = 0"
  show "\<exists>s'. EpollAlarm_cancelImpl a s = Inr s' \<and> as_inv St s' \<and> as_now s' = as_now s \<and>
      (\<forall>b. deadline s' b = deadline s b) \<and> set (as_map s') = set (as_map s) - {(k, t, a)}"
    using cancel_unregister [OF un e d] t
    by (auto simp: EpollAlarm_cancelImpl_def EpollServer_unregisterAlarm_def)
qed (simp_all add: EpollAlarm_setImpl_simps)

lemma rearm_ok:
  assumes "1000 \<le> period" and "period < 2 ^ 62"
  shows "delegate_ok 0 (2 ^ 62) (EpollAlarm_rearm period)"
  unfolding delegate_ok_def
proof (intro allI impI, elim conjE)
  fix a t and s :: "'a epoll_server_scheme"
  assume now: "0 \<le> as_now s" "as_now s \<le> 2 ^ 62" and inv: "as_inv {t} s" and d: "deadline s a = 0"
    and t: "t \<in> entry_token ` set (as_map s)"
  let ?d = "as_now s + period"
  have d64: "int64 ?d" using now assms by (simp add: int64_def)
  have eq: "EpollAlarm_rearm period a s = Alarm_set False EpollAlarm_setImpl a ?d s"
    using update_unset [OF d _ d64] now assms d64
    by (simp add: EpollAlarm_rearm_def EpollAlarmFactory_now_def TimeBase_plus_def wrap64_id)
  obtain s' where s': "Alarm_set False EpollAlarm_setImpl a ?d s = Inr s'" "as_inv {t} s'"
    "as_now s' = as_now s" "set (as_map s') = insert (?d, as_fresh s, a) (set (as_map s))"
    using epoll.set_ok [OF inv d _ d64, of False] now assms by auto
  have "due s' \<subseteq> due s" using s'(3,4) assms by (auto simp: due_def)
  then show "\<exists>s'. EpollAlarm_rearm period a s = Inr s' \<and> as_inv {t} s' \<and> as_now s' = as_now s \<and>
      t \<in> entry_token ` set (as_map s') \<and> due s' \<subseteq> due s"
    using s' t unfolding eq by auto
qed

text \<open>The contract of the callbacks: they return, keep the invariant and the clock.\<close>

definition callback_ok ::
  "(nat \<Rightarrow> 'a epoll_server_scheme \<Rightarrow> 'a epoll_server_scheme res) \<Rightarrow> bool" where
  "callback_ok onReadable \<longleftrightarrow>
     (\<forall>cb s. as_inv {} s \<longrightarrow> (\<exists>s'. onReadable cb s = Inr s' \<and> as_inv {} s' \<and> as_now s' = as_now s))"

lemma dispatch_ok:
  assumes "callback_ok onReadable" and "as_inv {} s"
  shows "\<exists>s'. EpollServer_dispatch onReadable fds s = Inr s' \<and> as_inv {} s' \<and> as_now s' = as_now s"
  using assms(2)
proof (induction fds arbitrary: s)
  case (Cons fd fds)
  show ?case
  proof (cases "ep_cb_map s fd")
    case None
    then show ?thesis using Cons by simp
  next
    case (Some cb)
    obtain s1 where s1: "onReadable cb s = Inr s1" "as_inv {} s1" "as_now s1 = as_now s"
      using assms(1) Cons.prems unfolding callback_ok_def by blast
    with Cons.IH [OF s1(2)] Some show ?thesis by auto
  qed
qed simp

lemma runReadEvent_ok:
  assumes "callback_ok onReadable" and "as_inv {} s" and "\<forall>w. 0 \<le> fst (epoll_wait (ep_epfd s) w)"
  shows "\<exists>s' rv. EpollServer_runReadEvent epoll_wait onReadable wait s = Inr (s', rv) \<and> as_inv {} s' \<and>
    as_now s' = as_now s"
proof -
  obtain n fds where w: "epoll_wait (ep_epfd s) (wrap32 (Delta_toMilliseconds wait)) = (n, fds)"
    by (cases "epoll_wait (ep_epfd s) (wrap32 (Delta_toMilliseconds wait))")
  have "\<not> n < 0" using assms(3) [rule_format, of "wrap32 (Delta_toMilliseconds wait)"] w by simp
  then show ?thesis
    using w dispatch_ok [OF assms(1,2), of "take (nat n) fds"] assms(2)
    by (auto simp: EpollServer_runReadEvent_def)
qed

lemma incomingAlarm_ok: "as_map s \<noteq> [] \<Longrightarrow> \<exists>d. EpollServer_incomingAlarm s = Inr d \<and> 0 \<le> d"
  by (auto simp: EpollServer_incomingAlarm_def time_simps Let_def neq_Nil_conv)

lemma updateNow_value:
  assumes "0 \<le> sec" and "sec \<le> 9000000000000" and "0 \<le> usec" and "usec < 1000000"
  shows "EpollServer_updateNow (0, sec, usec) s = Inr (s\<lparr>as_now := sec * 1000000 + usec div 1000\<rparr>)"
proof -
  have "usec sdiv 1000 = usec div 1000" using assms by (simp add: signed_divide_int_eq_divide_int sgn_if)
  moreover have "0 \<le> usec div 1000" "usec div 1000 \<le> 1000" using assms by simp_all
  ultimately show ?thesis
    using assms by (simp add: EpollServer_updateNow_def wrap64_id int64_def)
qed

text \<open>The three parts of a round of the event loop.\<close>

lemma runEventLoop_parts:
  assumes "EpollServer_runEventLoop tod epoll_wait onReadable onAlarm wait s = Some (Inr (s', rv))"
  shows "\<exists>t s1 d. EpollServer_updateNow tod s = Inr (s\<lparr>as_now := t\<rparr>) \<and>
    EpollServer_runReadEvent epoll_wait onReadable d (s\<lparr>as_now := t\<rparr>) = Inr (s1, rv) \<and>
    alarm_loop onAlarm s1 = Some (Inr s')"
  using assms
  by (auto simp: EpollServer_runEventLoop_def EpollServer_runAlarmEvent_def EpollServer_updateNow_def
      rbind_eq_Inr_iff Let_def split: sum.splits prod.splits if_splits)

lemma dispatch_keeps:
  assumes "EpollServer_dispatch onReadable fds s = Inr s'" and "P s"
    and "\<And>cb s s'. P s \<Longrightarrow> onReadable cb s = Inr s' \<Longrightarrow> P s'"
  shows "P s'"
  using assms(1,2)
proof (induction fds arbitrary: s)
  case (Cons fd fds)
  then show ?case using assms(3) by (auto simp: rbind_eq_Inr_iff split: option.splits)
qed simp

lemma runReadEvent_keeps:
  assumes "EpollServer_runReadEvent epoll_wait onReadable d s = Inr (s', rv)" and "P s"
    and "\<And>cb s s'. P s \<Longrightarrow> onReadable cb s = Inr s' \<Longrightarrow> P s'"
  shows "P s'"
  using assms(1,2) dispatch_keeps [where P = P, OF _ _ assms(3)]
  by (fastforce simp: EpollServer_runReadEvent_def rbind_eq_Inr_iff split: prod.splits if_splits)

lemma runEventLoop_ok:
  assumes "as_inv {} s" and "as_map s \<noteq> []" and "callback_ok onReadable"
    and "\<forall>w. 0 \<le> fst (epoll_wait (ep_epfd s) w)"
    and "0 \<le> sec" "sec \<le> 9000000000000" "0 \<le> usec" "usec < 1000000"
    and "delegate_ok lo hi onAlarm" "lo \<le> sec * 1000000" "sec * 1000000 + 1000 \<le> hi"
  shows "\<exists>s' rv. EpollServer_runEventLoop (0, sec, usec) epoll_wait onReadable onAlarm wait s =
      Some (Inr (s', rv)) \<and> as_inv {} s' \<and> as_now s' = sec * 1000000 + usec div 1000 \<and>
    (\<forall>e \<in> set (as_map s'). as_now s' < fst e)"
proof -
  let ?now = "sec * 1000000 + usec div 1000"
  let ?s = "s\<lparr>as_now := ?now\<rparr>"
  have up: "EpollServer_updateNow (0, sec, usec) s = Inr ?s" by (rule updateNow_value [OF assms(5-8)])
  obtain d where d: "EpollServer_incomingAlarm ?s = Inr d"
    using incomingAlarm_ok [of ?s] assms(2) by auto
  obtain s1 rv where s1: "EpollServer_runReadEvent epoll_wait onReadable (Delta_min wait d) ?s = Inr (s1, rv)"
    "as_inv {} s1" "as_now s1 = ?now"
    using runReadEvent_ok [OF assms(3), of ?s epoll_wait "Delta_min wait d"] assms(1,4) by auto
  have "0 \<le> usec div 1000" "usec div 1000 \<le> 1000" using assms(7,8) by simp_all
  then have "lo \<le> as_now s1" "as_now s1 \<le> hi" using s1(3) assms(10,11) by simp_all
  from alarm_loop_ok [OF assms(9) this s1(2)]
  obtain s2 where s2: "alarm_loop onAlarm s1 = Some (Inr s2)" "as_inv {} s2" "as_now s2 = ?now"
    "due s2 = {}" using s1(3) by auto
  have "EpollServer_runEventLoop (0, sec, usec) epoll_wait onReadable onAlarm wait s = Some (Inr (s2, rv))"
    using s1(1) s2(1) up d by (simp add: EpollServer_runEventLoop_def EpollServer_runAlarmEvent_def)
  then show ?thesis using s2(2-4) by (intro exI [of _ s2] exI [of _ rv]) (force simp: due_def)
qed

section \<open>Properties\<close>

text \<open>
  C11: The alarm bookkeeping is consistent under every operation: set, cancel, update and
  destruction of an epoll alarm never touch an invalid iterator and keep each alarm linked to
  exactly one map entry at its deadline when it is set, and to none when it is not. An update
  takes effect unless the deadline moves by less than the granularity.
\<close>

theorem EpollAlarm_operations_safe:
  assumes "as_inv {} s" and "int64 d" and "d \<noteq> 0"
  shows "(deadline s a = 0 \<longrightarrow> (\<exists>s'. Alarm_set dbg EpollAlarm_setImpl a d s = Inr s' \<and> as_inv {} s' \<and>
      deadline s' a = d)) \<and>
    (\<exists>s'. Alarm_cancel EpollAlarm_cancelImpl a s = Inr s' \<and> as_inv {} s' \<and> deadline s' a = 0) \<and>
    (\<exists>s'. EpollAlarm_destroy a s = Inr s' \<and> as_inv {} s' \<and> entries {} s' a = {}) \<and>
    (\<exists>s'. Alarm_update EpollAlarm_setImpl EpollAlarm_cancelImpl a d g s = Inr s' \<and> as_inv {} s' \<and>
      deadline s' a = (if wrap64 \<bar>TimeBase_diff d (deadline s a)\<bar> < g then deadline s a else d))"
proof (intro conjI impI)
  assume "deadline s a = 0"
  from epoll.set_ok [OF assms(1) this assms(3,2), of dbg]
  show "\<exists>s'. Alarm_set dbg EpollAlarm_setImpl a d s = Inr s' \<and> as_inv {} s' \<and> deadline s' a = d"
    by blast
next
  show c: "\<exists>s'. Alarm_cancel EpollAlarm_cancelImpl a s = Inr s' \<and> as_inv {} s' \<and> deadline s' a = 0"
    using epoll.cancel_ok [OF assms(1), of a] by blast
  then show "\<exists>s'. EpollAlarm_destroy a s = Inr s' \<and> as_inv {} s' \<and> entries {} s' a = {}"
    unfolding EpollAlarm_destroy_def using unset_no_entry by blast
next
  show "\<exists>s'. Alarm_update EpollAlarm_setImpl EpollAlarm_cancelImpl a d g s = Inr s' \<and> as_inv {} s' \<and>
      deadline s' a = (if wrap64 \<bar>TimeBase_diff d (deadline s a)\<bar> < g then deadline s a else d)"
    using epoll.update_ok [OF assms(1,2), of a g] assms(3) by (elim exE conjE) (intro exI, simp)
qed

theorem EpollAlarm_operations_safe_witness:
  "\<exists>s s'. EpollServer 3 (0, 100, 0) () = Inr s \<and> as_inv {} s \<and>
     Alarm_set True EpollAlarm_setImpl 7 100000500 s = Inr s' \<and> as_inv {} s' \<and>
     deadline s' 7 = 100000500"
proof -
  let ?s = "\<lparr>as_map = [], as_fresh = 0, as_alarms = (\<lambda>a. \<lparr>al_deadline = 0, al_token = None\<rparr>),
      as_now = 100000000, ep_epfd = 3, ep_cb_map = Map.empty\<rparr>"
  have s: "EpollServer 3 (0, 100, 0) () = Inr ?s"
    by (simp add: EpollServer_def EpollServer_updateNow_def wrap64_id int64_def)
  have inv: "as_inv {} ?s" by (simp add: as_inv_def as_base_def as_links_def entries_def)
  have "\<exists>s'. Alarm_set True EpollAlarm_setImpl 7 100000500 ?s = Inr s' \<and> as_inv {} s' \<and>
      deadline s' 7 = 100000500"
    using EpollAlarm_operations_safe [OF inv, of 100000500 7 True 0] by (simp add: int64_def)
  with s inv show ?thesis by blast
qed

text \<open>
  C12: Firing the due alarms ends: if no delegate arms an alarm that is already due, the loop
  of \<open>runAlarmEvent\<close> returns, keeps the invariant although entries are erased only after their
  delegate has run, and leaves no due alarm behind.
\<close>

theorem EpollServer_runAlarmEvent_terminates:
  assumes "as_inv {} s" and "delegate_ok lo hi onAlarm" and "lo \<le> as_now s" and "as_now s \<le> hi"
  shows "\<exists>s'. EpollServer_runAlarmEvent onAlarm s = Some (Inr (s', False)) \<and> as_inv {} s' \<and>
    as_now s' = as_now s \<and> (\<forall>e \<in> set (as_map s'). as_now s < fst e)"
  using alarm_loop_ok [OF assms(2,3,4,1)]
  by (force simp: EpollServer_runAlarmEvent_def due_def)

theorem EpollServer_runAlarmEvent_terminates_witness:
  "\<exists>s'. EpollServer_runAlarmEvent (EpollAlarm_rearm 3000000)
      \<lparr>as_map = [(5, 0, 7)], as_fresh = 1,
        as_alarms = (\<lambda>a. if a = 7 then \<lparr>al_deadline = 5, al_token = Some 0\<rparr>
          else \<lparr>al_deadline = 0, al_token = None\<rparr>),
        as_now = 10, ep_epfd = 3, ep_cb_map = Map.empty\<rparr> = Some (Inr (s', False)) \<and>
     (\<forall>e \<in> set (as_map s'). 10 < fst e)"
proof -
  let ?s = "\<lparr>as_map = [(5, 0, 7)], as_fresh = 1,
      as_alarms = (\<lambda>a. if a = 7 then \<lparr>al_deadline = 5, al_token = Some 0\<rparr>
        else \<lparr>al_deadline = 0, al_token = None\<rparr>),
      as_now = 10, ep_epfd = 3, ep_cb_map = Map.empty\<rparr>"
  have "as_inv {} ?s"
    by (auto simp: as_inv_def as_base_def as_links_def entries_def int64_def)
  from EpollServer_runAlarmEvent_terminates [OF this rearm_ok [of 3000000]] show ?thesis by auto
qed

text \<open>
  One round of the event loop: with an alarm pending, callbacks that keep the invariant
  and delegates that arm nothing already due, the round returns, the clock is the one read at
  its start, and no alarm due at that time is left in the map.
\<close>

theorem EpollServer_runEventLoop_round:
  assumes "as_inv {} s" and "as_map s \<noteq> []" and "callback_ok onReadable"
    and "\<forall>w. 0 \<le> fst (epoll_wait (ep_epfd s) w)"
    and "0 \<le> sec" "sec \<le> 9000000000000" "0 \<le> usec" "usec < 1000000"
    and "delegate_ok lo hi onAlarm" "lo \<le> sec * 1000000" "sec * 1000000 + 1000 \<le> hi"
  shows "\<exists>s' rv. EpollServer_runEventLoop (0, sec, usec) epoll_wait onReadable onAlarm wait s =
      Some (Inr (s', rv)) \<and> as_inv {} s' \<and> as_now s' = sec * 1000000 + usec div 1000 \<and>
    (\<forall>e \<in> set (as_map s'). as_now s' < fst e)"
  using assms by (rule runEventLoop_ok)

theorem EpollServer_runEventLoop_round_witness:
  "\<exists>s' rv. EpollServer_runEventLoop (0, 100, 500) (\<lambda>_ _. (1, [4])) (\<lambda>cb s. Inr s)
      (EpollAlarm_rearm 3000000) 1000000
      \<lparr>as_map = [(5, 0, 7)], as_fresh = 1,
        as_alarms = (\<lambda>a. if a = 7 then \<lparr>al_deadline = 5, al_token = Some 0\<rparr>
          else \<lparr>al_deadline = 0, al_token = None\<rparr>),
        as_now = 0, ep_epfd = 3, ep_cb_map = [4 \<mapsto> 1]\<rparr> = Some (Inr (s', rv)) \<and>
     as_now s' = 100000000 \<and> (\<forall>e \<in> set (as_map s'). as_now s' < fst e)"
proof -
  let ?s = "\<lparr>as_map = [(5, 0, 7)], as_fresh = 1,
      as_alarms = (\<lambda>a. if a = 7 then \<lparr>al_deadline = 5, al_token = Some 0\<rparr>
        else \<lparr>al_deadline = 0, al_token = None\<rparr>),
      as_now = 0, ep_epfd = 3, ep_cb_map = [4 \<mapsto> 1]\<rparr>"
  have inv: "as_inv {} ?s"
    by (auto simp: as_inv_def as_base_def as_links_def entries_def int64_def)
  have cb: "callback_ok (\<lambda>cb s. Inr s)" by (simp add: callback_ok_def)
  have rearm: "delegate_ok 0 (2 ^ 62) (EpollAlarm_rearm 3000000 :: epoll_server onAlarm)"
    by (rule rearm_ok) simp_all
  from EpollServer_runEventLoop_round [OF inv _ cb _ _ _ _ _ rearm, of "\<lambda>_ _. (1, [4])" 100 500 1000000]
  show ?thesis by auto
qed



text \<open>
  The clock mixes milliseconds with microseconds: during one second of real time it
  advances by at most 999 microseconds, and the missing 999001 are made up in one step when
  the second changes.
\<close>

theorem EpollServer_clock_stalls:
  assumes "0 \<le> sec" and "sec < 9000000000000"
  shows "\<exists>s\<^sub>0 s\<^sub>1 s\<^sub>2. EpollServer_updateNow (0, sec, 0) s = Inr s\<^sub>0 \<and>
    EpollServer_updateNow (0, sec, 999999) s = Inr s\<^sub>1 \<and>
    EpollServer_updateNow (0, sec + 1, 0) s = Inr s\<^sub>2 \<and>
    TimeBase_diff (as_now s\<^sub>1) (as_now s\<^sub>0) = 999 \<and> TimeBase_diff (as_now s\<^sub>2) (as_now s\<^sub>1) = 999001"
  using assms by (simp add: updateNow_value TimeBase_diff_def wrap64_id int64_def)

theorem EpollServer_clock_stalls_witness:
  "\<exists>s\<^sub>0 s\<^sub>1 :: epoll_server.
     EpollServer_updateNow (0, 1000, 0) \<lparr>as_map = [], as_fresh = 0, as_alarms = \<lambda>a. \<lparr>al_deadline = 0, al_token = None\<rparr>,
       as_now = 0, ep_epfd = 3, ep_cb_map = Map.empty\<rparr> = Inr s\<^sub>0 \<and>
     EpollServer_updateNow (0, 1000, 999999) \<lparr>as_map = [], as_fresh = 0, as_alarms = \<lambda>a. \<lparr>al_deadline = 0, al_token = None\<rparr>,
       as_now = 0, ep_epfd = 3, ep_cb_map = Map.empty\<rparr> = Inr s\<^sub>1 \<and>
     TimeBase_diff (as_now s\<^sub>1) (as_now s\<^sub>0) = 999"
  using EpollServer_clock_stalls [of 1000] by (simp add: unit_all_eq1) blast

end
