(* ===== verification/Tcp_Segment.thy ===== *)
theory Tcp_Segment
  imports Checksum Time_Base
begin

text \<open>
  \<open>src/tcp/type.h\<close>, \<open>socket_address\<close>, \<open>control_block.h\<close>, \<open>segment\<close> and \<open>segment_factory\<close>: the
  data of the transport layer. A segment's \<open>data_\<close> is the memory from that pointer on, with
  its own length field. A local variable that a failed read leaves uninitialised and that is
  then used is \<open>UndefinedBehaviour\<close>; the members of a freshly made segment are zero.
\<close>

section \<open>Constants and socket addresses\<close>

definition kTcpHeaderLength :: size_t where
  "kTcpHeaderLength = 20"

definition kMaxSegmentSize :: size_t where
  "kMaxSegmentSize = 1460"

definition kMaxTCPPacketLength :: size_t where
  "kMaxTCPPacketLength = 1480"

definition kTwoMSL :: delta where
  "kTwoMSL = Delta_fromSeconds 10"

record socket_address =
  sa_host :: ip_address
  sa_port :: uint16

definition SocketAddress_default :: socket_address where
  "SocketAddress_default = \<lparr>sa_host = IPAddress, sa_port = 0\<rparr>"

definition SocketAddress :: "ip_address \<Rightarrow> uint16 \<Rightarrow> socket_address" where
  "SocketAddress address port = \<lparr>sa_host = address, sa_port = port\<rparr>"

text \<open>
  From the bytes of a \<open>sockaddr_storage\<close>: the family in the first two, then for \<open>AF_INET\<close> = 2
  the port and the address in network order.
\<close>

definition SocketAddress_storage :: "byte list \<Rightarrow> socket_address" where
  "SocketAddress_storage saddr =
     (if host_word16 (take 2 saddr) = 2
      then \<lparr>sa_host = IPAddress_in_addr (host_word32 (take 4 (drop 4 saddr))),
            sa_port = htons (host_word16 (take 2 (drop 2 saddr)))\<rparr>
      else SocketAddress_default)"

text \<open>
  From a pointer and a length: \<open>sizeof\<close> is 16 for \<open>sockaddr\<close> and \<open>sockaddr_in\<close>, 28 for
  \<open>sockaddr_in6\<close> (\<open>AF_INET6\<close> = 10) and 128 for the storage.
\<close>

definition SocketAddress_sockaddr :: "byte list \<Rightarrow> uint32 \<Rightarrow> socket_address res" where
  "SocketAddress_sockaddr saddr len =
     (if len < 16 then Inr SocketAddress_default
      else rbind (mem_read saddr 0 2) (\<lambda>family.
        if host_word16 family = 2 \<and> len < 16 \<or> host_word16 family = 10 \<and> len < 28 \<or> 128 < len
        then Inr SocketAddress_default
        else rbind (mem_read saddr 0 (ucast len)) (\<lambda>bs.
          Inr (SocketAddress_storage (bs @ replicate (128 - unat len) 0)))))"

definition SocketAddress_eq :: "socket_address \<Rightarrow> socket_address \<Rightarrow> bool" where
  "SocketAddress_eq lhs rhs \<longleftrightarrow> sa_port lhs = sa_port rhs \<and> IPAddress_eq (sa_host lhs) (sa_host rhs)"

definition SocketAddress_toString :: "(byte list \<Rightarrow> string option) \<Rightarrow> socket_address \<Rightarrow> string" where
  "SocketAddress_toString inet_ntop a =
     IPAddress_toString inet_ntop (sa_host a) @ '':'' @ show_nat (unat (sa_port a))"

section \<open>The transmission control block\<close>

record send_block =
  snd_unack :: uint32
  snd_next :: uint32
  snd_urgent_pointer :: uint32
  snd_last_update_seq :: uint32
  snd_last_update_ack :: uint32
  snd_initial :: uint32

record receive_block =
  rcv_next :: uint32
  rcv_urgent_pointer :: uint32
  rcv_initial :: uint32
  rcv_SYN_received :: bool

record control_block =
  cb_send :: send_block
  cb_receive :: receive_block

definition ControlBlock :: control_block where
  "ControlBlock =
     \<lparr>cb_send = \<lparr>snd_unack = 0, snd_next = 0, snd_urgent_pointer = 0, snd_last_update_seq = 0,
        snd_last_update_ack = 0, snd_initial = 0\<rparr>,
      cb_receive = \<lparr>rcv_next = 0, rcv_urgent_pointer = 0, rcv_initial = 0, rcv_SYN_received = False\<rparr>\<rparr>"

text \<open>The comparisons of sequence numbers, relative to the initial one.\<close>

definition seq_equal :: "uint32 \<Rightarrow> uint32 \<Rightarrow> uint32 \<Rightarrow> bool" where
  "seq_equal initial a b \<longleftrightarrow> a - initial = b - initial"

definition seq_lessThan :: "uint32 \<Rightarrow> uint32 \<Rightarrow> uint32 \<Rightarrow> bool" where
  "seq_lessThan initial a b \<longleftrightarrow> a - initial < b - initial"

definition seq_lessOrEqual :: "uint32 \<Rightarrow> uint32 \<Rightarrow> uint32 \<Rightarrow> bool" where
  "seq_lessOrEqual initial a b \<longleftrightarrow> a - initial \<le> b - initial"

definition seq_greaterThan :: "uint32 \<Rightarrow> uint32 \<Rightarrow> uint32 \<Rightarrow> bool" where
  "seq_greaterThan initial a b \<longleftrightarrow> a - initial > b - initial"

definition seq_greaterOrEqual :: "uint32 \<Rightarrow> uint32 \<Rightarrow> uint32 \<Rightarrow> bool" where
  "seq_greaterOrEqual initial a b \<longleftrightarrow> a - initial \<ge> b - initial"

definition seq_inMiddle :: "uint32 \<Rightarrow> uint32 \<Rightarrow> uint32 \<Rightarrow> uint32 \<Rightarrow> bool" where
  "seq_inMiddle initial x a b \<longleftrightarrow> seq_lessOrEqual initial a x \<and> seq_lessThan initial x b"

section \<open>Segments\<close>

definition FIN :: byte where "FIN = 0x01"
definition SYN :: byte where "SYN = 0x02"
definition RST :: byte where "RST = 0x04"
definition PSH :: byte where "PSH = 0x08"
definition ACK :: byte where "ACK = 0x10"
definition URG :: byte where "URG = 0x20"

record segment =
  sg_source :: socket_address
  sg_destination :: socket_address
  sg_sequence :: uint32
  sg_acknowledgment :: uint32
  sg_flags :: byte
  sg_window :: uint16
  sg_data :: "byte list"
  sg_own_data :: bool
  sg_data_length :: size_t

definition Segment :: segment where
  "Segment = \<lparr>sg_source = SocketAddress_default, sg_destination = SocketAddress_default,
     sg_sequence = 0, sg_acknowledgment = 0, sg_flags = 0, sg_window = 0, sg_data = [],
     sg_own_data = False, sg_data_length = 0\<rparr>"

definition Segment_isACK :: "segment \<Rightarrow> bool" where
  "Segment_isACK s \<longleftrightarrow> sg_flags s AND ACK \<noteq> 0"

definition Segment_isRST :: "segment \<Rightarrow> bool" where
  "Segment_isRST s \<longleftrightarrow> sg_flags s AND RST \<noteq> 0"

definition Segment_isFIN :: "segment \<Rightarrow> bool" where
  "Segment_isFIN s \<longleftrightarrow> sg_flags s AND FIN \<noteq> 0"

definition Segment_isSYN :: "segment \<Rightarrow> bool" where
  "Segment_isSYN s \<longleftrightarrow> sg_flags s AND SYN \<noteq> 0"

text \<open>A call whose returned \<open>bool\<close> the code ignores.\<close>

definition ignoring :: "('s \<times> bool) res \<Rightarrow> ('s \<Rightarrow> 'b res) \<Rightarrow> 'b res" where
  "ignoring r f = rbind r (\<lambda>(s, _). f s)"

text \<open>
  \<open>writeSegmentTo\<close>; \<open>junk\<^sub>1\<close> and \<open>junk\<^sub>2\<close> are the uninitialised locals of the two calls of
  \<open>addIPAddress\<close>. The returned value is always \<open>false\<close>. The protocol number of TCP is 6.
\<close>

definition Segment_writeSegmentTo ::
  "bool \<Rightarrow> byte list \<Rightarrow> byte list \<Rightarrow> segment \<Rightarrow> data_writer \<Rightarrow> (data_writer \<times> bool) res" where
  "Segment_writeSegmentTo dbg junk\<^sub>1 junk\<^sub>2 s w =
     ignoring (DataWriter_writeUInt16 w (sa_port (sg_source s))) (\<lambda>w.
     ignoring (DataWriter_writeUInt16 w (sa_port (sg_destination s))) (\<lambda>w.
     ignoring (DataWriter_writeUInt32 w (sg_sequence s)) (\<lambda>w.
     ignoring (DataWriter_writeUInt32 w (sg_acknowledgment s)) (\<lambda>w.
     ignoring (DataWriter_writeUInt8 w 0x50) (\<lambda>w.
     ignoring (DataWriter_writeUInt8 w (sg_flags s)) (\<lambda>w.
     ignoring (DataWriter_writeUInt16 w (sg_window s)) (\<lambda>w.
     ignoring (DataWriter_writeUInt16 w 0) (\<lambda>w.
     ignoring (DataWriter_writeUInt16 w 0) (\<lambda>w.
     ignoring (DataWriter_writeBytes w (sg_data s) (sg_data_length s)) (\<lambda>w.
     let tcp_length = ucast (sg_data_length s + kTcpHeaderLength);
         c = Checksum (DataWriter_written w)
     in rbind (Checksum_addIPAddress dbg junk\<^sub>1 c (sa_host (sg_source s))) (\<lambda>c.
        rbind (Checksum_addIPAddress dbg junk\<^sub>2 c (sa_host (sg_destination s))) (\<lambda>c.
        let c = Checksum_addHostUInt16 c 6;
            c = Checksum_addHostUInt16 c tcp_length
        in rbind (Checksum_writeTo c (dw_buffer w) 16) (\<lambda>m.
           Inr (w\<lparr>dw_buffer := m\<rparr>, False))))))))))))))"

text \<open>A read into a member: a failed read keeps its value.\<close>

definition read_member :: "(data_reader \<times> 'a option) res \<Rightarrow> 'a \<Rightarrow> (data_reader \<Rightarrow> 'a \<Rightarrow> 'b res) \<Rightarrow> 'b res" where
  "read_member r old f = rbind r (\<lambda>(rd, v). f rd (case v of None \<Rightarrow> old | Some x \<Rightarrow> x))"

text \<open>A read into an uninitialised local that is used afterwards.\<close>

definition read_local :: "(data_reader \<times> 'a option) res \<Rightarrow> (data_reader \<Rightarrow> 'a \<Rightarrow> 'b res) \<Rightarrow> 'b res" where
  "read_local r f = rbind r (\<lambda>(rd, v). case v of None \<Rightarrow> Inl UndefinedBehaviour | Some x \<Rightarrow> f rd x)"

text \<open>
  \<open>parse\<close>: the window is read inside a \<open>DCHECK\<close>, so a release build does not read it and it
  stays 0.
\<close>

definition Segment_parse ::
  "bool \<Rightarrow> ip_address \<Rightarrow> ip_address \<Rightarrow> byte list \<Rightarrow> size_t \<Rightarrow> segment res" where
  "Segment_parse dbg source destination buf len =
     (let reader = DataReader buf len in
      read_local (DataReader_readUInt16 reader) (\<lambda>reader source_port.
      read_local (DataReader_readUInt16 reader) (\<lambda>reader destination_port.
      read_member (DataReader_readUInt32 reader) 0 (\<lambda>reader sequence.
      read_member (DataReader_readUInt32 reader) 0 (\<lambda>reader acknowledgment.
      read_local (DataReader_readUInt8 reader) (\<lambda>reader off.
      let off = drop_bit 2 off in
      read_member (DataReader_readUInt8 reader) 0 (\<lambda>reader flags.
      rbind (if dbg
             then rbind (DataReader_readUInt16 reader) (\<lambda>(reader, v).
               case v of None \<Rightarrow> Inl DCheckFailed | Some x \<Rightarrow> Inr x)
             else Inr 0) (\<lambda>window.
      Inr \<lparr>sg_source = SocketAddress source source_port,
           sg_destination = SocketAddress destination destination_port,
           sg_sequence = sequence, sg_acknowledgment = acknowledgment, sg_flags = flags,
           sg_window = window, sg_data = drop (unat off) buf, sg_own_data = False,
           sg_data_length = len - ucast off\<rparr>))))))))"

definition Segment_writeDataTo :: "segment \<Rightarrow> data_writer \<Rightarrow> (data_writer \<times> bool) res" where
  "Segment_writeDataTo s w =
     (if sg_data_length s = 0 then Inr (w, True)
      else DataWriter_writeBytes w (sg_data s) (sg_data_length s))"

definition Segment_copyData :: "segment \<Rightarrow> segment res" where
  "Segment_copyData s =
     (if sg_own_data s then Inr s
      else if sg_data_length s = 0 then Inr s
      else rbind (mem_read (sg_data s) 0 (sg_data_length s)) (\<lambda>d.
        Inr (s\<lparr>sg_own_data := True, sg_data := d\<rparr>)))"

definition Segment_toString :: "segment \<Rightarrow> string" where
  "Segment_toString s =
     ''SEQ='' @ show_nat (unat (sg_sequence s)) @
     (if Segment_isACK s then '' ACK='' @ show_nat (unat (sg_acknowledgment s)) else []) @
     (if Segment_isSYN s then '' SYN'' else []) @ (if Segment_isRST s then '' RST'' else []) @
     (if Segment_isFIN s then '' FIN'' else []) @
     (if 0 < sg_data_length s then '' len='' @ show_nat (unat (sg_data_length s)) else [])"

section \<open>The segment factory\<close>

record segment_factory =
  sf_local :: socket_address
  sf_remote :: socket_address

definition SegmentFactory :: "socket_address \<Rightarrow> socket_address \<Rightarrow> segment_factory" where
  "SegmentFactory local_address remote_address = \<lparr>sf_local = local_address, sf_remote = remote_address\<rparr>"

definition SegmentFactory_createSegment ::
  "segment_factory \<Rightarrow> uint32 \<Rightarrow> uint32 \<Rightarrow> byte \<Rightarrow> byte list \<Rightarrow> size_t \<Rightarrow> segment" where
  "SegmentFactory_createSegment f seq ack ctl data data_length =
     \<lparr>sg_source = sf_local f, sg_destination = sf_remote f, sg_sequence = seq,
      sg_acknowledgment = ack, sg_flags = ctl, sg_window = 65535, sg_data = data,
      sg_own_data = False, sg_data_length = data_length\<rparr>"

definition SegmentFactory_createSegment_ack ::
  "segment_factory \<Rightarrow> uint32 \<Rightarrow> uint32 \<Rightarrow> byte \<Rightarrow> segment" where
  "SegmentFactory_createSegment_ack f seq ack ctl = SegmentFactory_createSegment f seq ack ctl [] 0"

definition SegmentFactory_createSegment_ctl ::
  "bool \<Rightarrow> segment_factory \<Rightarrow> uint32 \<Rightarrow> byte \<Rightarrow> segment res" where
  "SegmentFactory_createSegment_ctl dbg f seq ctl =
     rbind (DCHECK dbg (ctl AND ACK = 0)) (\<lambda>_. Inr (SegmentFactory_createSegment_ack f seq 0 ctl))"

section \<open>Lemmas: writing\<close>

definition tcp_fields :: "segment \<Rightarrow> byte list" where
  "tcp_fields s =
     rev (host_bytes16 (sa_port (sg_source s))) @ rev (host_bytes16 (sa_port (sg_destination s))) @
     rev (host_bytes32 (sg_sequence s)) @ rev (host_bytes32 (sg_acknowledgment s)) @
     [0x50, sg_flags s] @ rev (host_bytes16 (sg_window s))"

definition tcp_header :: "segment \<Rightarrow> uint16 \<Rightarrow> byte list" where
  "tcp_header s c = tcp_fields s @ rev (host_bytes16 c) @ [0, 0]"

abbreviation sg_payload :: "segment \<Rightarrow> byte list" where
  "sg_payload s \<equiv> take (unat (sg_data_length s)) (sg_data s)"

lemma ignoring_Inr [simp]: "ignoring (Inr (w, b)) f = f w"
  by (simp add: ignoring_def)

lemma dw_append_Nil: "dw_append w [] = w"
  by (simp add: dw_append_def)

lemma write_chain:
  assumes "dw_inv w" and "dw_room w (length a + length b)" and "unat n = length b"
  shows "DataWriter_writeBytes (dw_append w a) b n = Inr (dw_append w (a @ b), True)"
proof -
  have room: "dw_room w (length a)" using assms(2) by simp
  note facts = dw_append_facts [OF assms(1) room]
  have "dw_room (dw_append w a) (length b)" using assms(2) facts(1,3) by simp
  then show ?thesis
    using writeBytes_append [OF facts(2) _ assms(3)] dw_append_append [OF assms(1,2)] by simp
qed

lemma write_chains:
  assumes "dw_inv w"
  shows "dw_room w (length a + 1) \<Longrightarrow>
      DataWriter_writeUInt8 (dw_append w a) x = Inr (dw_append w (a @ [x]), True)"
    and "dw_room w (length a + 2) \<Longrightarrow>
      DataWriter_writeUInt16 (dw_append w a) y = Inr (dw_append w (a @ rev (host_bytes16 y)), True)"
    and "dw_room w (length a + 4) \<Longrightarrow>
      DataWriter_writeUInt32 (dw_append w a) z = Inr (dw_append w (a @ rev (host_bytes32 z)), True)"
  using write_chain [OF assms, of a "[x]" 1] write_chain [OF assms, of a "rev (host_bytes16 y)" 2]
    write_chain [OF assms, of a "rev (host_bytes32 z)" 4]
  by (simp_all add: DataWriter_writeUInt8_def DataWriter_writeUInt16_def DataWriter_writeUInt32_def
      host_bytes_hton)

lemma length_tcp_header [simp]: "length (tcp_fields s) = 16" "length (tcp_header s c) = 20"
  by (simp_all add: tcp_fields_def tcp_header_def)

lemma tcp_header_zero: "rev (host_bytes16 0) = [0, 0]"
  by (simp add: host_bytes16_def)

text \<open>All ten writes together append the header with a zero checksum, and the payload.\<close>

lemma write_fields:
  assumes "dw_inv w" and "dw_room w (20 + unat (sg_data_length s))"
    and "unat (sg_data_length s) \<le> length (sg_data s)"
  shows "Segment_writeSegmentTo dbg j\<^sub>1 j\<^sub>2 s w =
     (let w = dw_append w (tcp_header s 0 @ sg_payload s);
          c = Checksum (DataWriter_written w)
      in rbind (Checksum_addIPAddress dbg j\<^sub>1 c (sa_host (sg_source s))) (\<lambda>c.
         rbind (Checksum_addIPAddress dbg j\<^sub>2 c (sa_host (sg_destination s))) (\<lambda>c.
         rbind (Checksum_writeTo (Checksum_addHostUInt16 (Checksum_addHostUInt16 c 6)
             (ucast (sg_data_length s + 20))) (dw_buffer w) 16) (\<lambda>m.
         Inr (w\<lparr>dw_buffer := m\<rparr>, False)))))"
proof -
  let ?h = "tcp_header s 0"
  have data: "DataWriter_writeBytes (dw_append w ?h) (sg_data s) (sg_data_length s) =
      Inr (dw_append w (?h @ sg_payload s), True)"
    using write_chain [OF assms(1), of ?h "sg_payload s" "sg_data_length s"] assms(2,3)
    by (simp add: writeBytes_prefix [OF assms(3)])
  have w: "w = dw_append w []" by (simp add: dw_append_Nil)
  note wc = write_chains [OF assms(1)]
  show ?thesis
    unfolding Segment_writeSegmentTo_def kTcpHeaderLength_def
    by (subst w) (use assms(2) data in \<open>simp add: wc tcp_header_zero tcp_header_def tcp_fields_def Let_def\<close>)
qed

text \<open>The four bytes that \<open>addIPAddress\<close> really sums for an address.\<close>

definition pseudo :: "bool \<Rightarrow> byte list \<Rightarrow> socket_address \<Rightarrow> byte list" where
  "pseudo dbg junk a = (if dbg then take 4 (ip_bytes (sa_host a)) else junk)"

definition segment_ok :: "segment \<Rightarrow> bool" where
  "segment_ok s \<longleftrightarrow> ip_v4 (sa_host (sg_source s)) \<and> ip_v4 (sa_host (sg_destination s)) \<and>
     unat (sg_data_length s) \<le> length (sg_data s) \<and> unat (sg_data_length s) \<le> 65515"

lemma checksum_field: "[ucast (drop_bit 8 c), ucast c] = rev (host_bytes16 c)" for c :: uint16
  by (simp add: host_bytes16_def)

lemma be_sum_field: "be_sum (rev (host_bytes16 c)) = unat c"
  using be_sum_checksum [of c] by (simp only: checksum_field)

lemma tcp_length_value:
  assumes "unat n \<le> 65515"
  shows "unat (ucast (n + 20 :: size_t) :: uint16) = unat n + 20"
proof -
  have "unat (n + 20) = unat n + 20" using assms unat_add_lt [of n 20] by simp
  then show ?thesis using assms
    by (simp only: unsigned_ucast_eq) (simp add: take_bit_nat_eq_self_iff)
qed

lemma be_sum_segment:
  "be_sum (tcp_header s c @ d) = be_sum (tcp_fields s) + unat c + be_sum d"
  unfolding tcp_header_def append_assoc
  by (simp add: be_sum_append be_sum_field)

lemma write_segment:
  assumes inv: "dw_inv w" "dw_length w = 0" and room: "dw_room w (20 + unat (sg_data_length s))"
    and ok: "segment_ok s" and junk: "length j\<^sub>1 = 4" "length j\<^sub>2 = 4"
  shows "\<exists>w' c. Segment_writeSegmentTo dbg j\<^sub>1 j\<^sub>2 s w = Inr (w', False) \<and> dw_inv w' \<and>
    DataWriter_written w' = tcp_header s c @ sg_payload s \<and>
    ones_complement (be_sum (tcp_header s c @ sg_payload s) + be_sum (pseudo dbg j\<^sub>1 (sg_source s)) +
      be_sum (pseudo dbg j\<^sub>2 (sg_destination s)) + 6 + (unat (sg_data_length s) + 20)) = 65535"
proof -
  let ?n = "sg_data_length s" and ?d = "tcp_header s 0 @ sg_payload s"
  let ?w = "dw_append w ?d"
  have len: "unat ?n \<le> length (sg_data s)" "unat ?n \<le> 65515" using ok by (simp_all add: segment_ok_def)
  have l: "length ?d = 20 + unat ?n" using len by simp
  note app = dw_append_facts [OF inv(1), of ?d, unfolded l, OF room]
  have written: "DataWriter_written ?w = ?d"
    using app(5) inv(2) by (simp add: DataWriter_written_def)
  have buf: "dw_buffer ?w = ?d @ drop (20 + unat ?n) (dw_buffer w)"
    using inv(2) l by (simp add: dw_append_def)
  obtain c1 where c1: "Checksum_addIPAddress dbg j\<^sub>1 (Checksum ?d) (sa_host (sg_source s)) = Inr c1"
    "unat (cs_sum c1) = ones_complement (be_sum ?d + be_sum (pseudo dbg j\<^sub>1 (sg_source s)))"
    using addIPAddress_value [OF _ junk(1), of "sa_host (sg_source s)" dbg "Checksum ?d"] ok
    by (auto simp: segment_ok_def Checksum_value oc_add pseudo_def)
  obtain c2 where c2: "Checksum_addIPAddress dbg j\<^sub>2 c1 (sa_host (sg_destination s)) = Inr c2"
    "unat (cs_sum c2) = ones_complement (be_sum ?d + be_sum (pseudo dbg j\<^sub>1 (sg_source s)) +
      be_sum (pseudo dbg j\<^sub>2 (sg_destination s)))"
    using addIPAddress_value [OF _ junk(2), of "sa_host (sg_destination s)" dbg c1] ok
    by (auto simp: segment_ok_def c1(2) oc_add pseudo_def)
  define c3 where "c3 = Checksum_addHostUInt16 (Checksum_addHostUInt16 c2 6) (ucast (?n + 20))"
  define f where "f = NOT (cs_sum c3)"
  let ?P = "be_sum (pseudo dbg j\<^sub>1 (sg_source s)) + be_sum (pseudo dbg j\<^sub>2 (sg_destination s)) + 6 +
    (unat ?n + 20)"
  have c3: "unat (cs_sum c3) = ones_complement (be_sum ?d + ?P)"
  proof -
    have "unat (6 :: uint16) = 6" by simp
    then show ?thesis unfolding c3_def
      by (simp only: addHostUInt16_value tcp_length_value [OF len(2)] c2(2) oc_add add.assoc)
  qed
  have "unat f + unat (cs_sum c3) = 65535"
    using unat_lt_16 [of "cs_sum c3"] by (simp add: f_def unat_not_16)
  then have "be_sum (tcp_header s f @ sg_payload s) + ?P + unat (cs_sum c3) = be_sum ?d + ?P + 65535"
    by (simp add: be_sum_segment)
  from complement_total [OF this c3]
  have sum: "ones_complement (be_sum (tcp_header s f @ sg_payload s) + ?P) = 65535" .
  let ?m = "tcp_header s f @ sg_payload s @ drop (20 + unat ?n) (dw_buffer w)"
  have "Checksum_writeTo c3 (dw_buffer ?w) 16 = Inr ?m"
    unfolding buf Checksum_writeTo_def Let_def f_def [symmetric] checksum_field
    by (simp add: mem_write_ok tcp_header_def tcp_header_zero)
  then have "Segment_writeSegmentTo dbg j\<^sub>1 j\<^sub>2 s w = Inr (?w\<lparr>dw_buffer := ?m\<rparr>, False)"
    using write_fields [OF inv(1) room len(1), of dbg j\<^sub>1 j\<^sub>2] c1(1) c2(1)
    by (simp add: written Let_def c3_def)
  moreover have "dw_inv (?w\<lparr>dw_buffer := ?m\<rparr>)" using app(2,3) buf by (simp add: dw_inv_def)
  moreover have "DataWriter_written (?w\<lparr>dw_buffer := ?m\<rparr>) = tcp_header s f @ sg_payload s"
    using app(1) inv(2) len by (simp add: DataWriter_written_def)
  ultimately show ?thesis using sum by (intro exI conjI) (simp_all add: add.assoc)
qed

section \<open>Lemmas: parsing\<close>

lemma read_local_Inr [simp]: "read_local (Inr (rd, Some v)) f = f rd v"
  by (simp add: read_local_def)

lemma read_member_Inr [simp]: "read_member (Inr (rd, Some v)) d f = f rd v"
  by (simp add: read_member_def)

lemma parse_header:
  assumes len: "unat len = length buf" "length buf \<le> 2 ^ 62"
    and buf: "buf = tcp_header s c @ d"
  shows "Segment_parse dbg src dst buf len =
    Inr \<lparr>sg_source = SocketAddress src (sa_port (sg_source s)),
         sg_destination = SocketAddress dst (sa_port (sg_destination s)),
         sg_sequence = sg_sequence s, sg_acknowledgment = sg_acknowledgment s,
         sg_flags = sg_flags s, sg_window = (if dbg then sg_window s else 0), sg_data = d,
         sg_own_data = False, sg_data_length = len - 20\<rparr>"
proof -
  define rd where "rd p = \<lparr>dr_buffer = buf, dr_capacity = len, dr_pos = p\<rparr>" for p
  have inv: "dr_inv (rd p)" if "unat p \<le> 20" for p
    using len that by (simp add: rd_def dr_inv_def buf word_le_nat_alt)
  have step: "(rd p)\<lparr>dr_pos := dr_pos (rd p) + n\<rparr> = rd (p + n)" for p n by (simp add: rd_def)
  have at: "drop (unat (dr_pos (rd p))) (dr_buffer (rd p)) = drop (unat p) buf" for p
    by (simp add: rd_def)
  note f16 = u16.get_field(1) [OF inv, unfolded step at] and f32 = u32.get_field(1) [OF inv, unfolded step at]
    and f8 = u8.get_field(1) [OF inv, unfolded step at]
  have b: "buf = rev (host_bytes16 (sa_port (sg_source s))) @ rev (host_bytes16 (sa_port (sg_destination s))) @
      rev (host_bytes32 (sg_sequence s)) @ rev (host_bytes32 (sg_acknowledgment s)) @
      [0x50] @ [sg_flags s] @ rev (host_bytes16 (sg_window s)) @ rev (host_bytes16 c) @ [0, 0] @ d"
    by (simp add: buf tcp_header_def tcp_fields_def)
  have r1: "DataReader_readUInt16 (rd 0) = Inr (rd 2, Some (sa_port (sg_source s)))"
    using f16 [of 0] by (simp add: b)
  have r2: "DataReader_readUInt16 (rd 2) = Inr (rd 4, Some (sa_port (sg_destination s)))"
    using f16 [of 2] by (simp add: b)
  have r3: "DataReader_readUInt32 (rd 4) = Inr (rd 8, Some (sg_sequence s))"
    using f32 [of 4] by (simp add: b)
  have r4: "DataReader_readUInt32 (rd 8) = Inr (rd 12, Some (sg_acknowledgment s))"
    using f32 [of 8] by (simp add: b)
  have r5: "DataReader_readUInt8 (rd 12) = Inr (rd 13, Some 0x50)"
    using f8 [of 12] by (simp add: b)
  have r6: "DataReader_readUInt8 (rd 13) = Inr (rd 14, Some (sg_flags s))"
    using f8 [of 13] by (simp add: b)
  have r7: "DataReader_readUInt16 (rd 14) = Inr (rd 16, Some (sg_window s))"
    using f16 [of 14] by (simp add: b)
  have r0: "DataReader buf len = rd 0" by (simp add: rd_def DataReader_def)
  have "drop 20 buf = d" by (simp add: buf)
  then show ?thesis
    by (simp add: Segment_parse_def Let_def r0 r1 r2 r3 r4 r5 r6 r7)
qed

text \<open>Parsing of any block of at least 16 bytes, whatever its data offset field says.\<close>

lemma parse_any:
  assumes len: "unat len = length buf" "length buf \<le> 2 ^ 62" and short: "16 \<le> length buf"
  shows "\<exists>s. Segment_parse dbg src dst buf len = Inr s \<and>
    sg_data s = drop (unat (buf ! 12) div 4) buf \<and> \<not> sg_own_data s \<and>
    sg_data_length s = len - of_nat (unat (buf ! 12) div 4)"
proof -
  define rd where "rd p = \<lparr>dr_buffer = buf, dr_capacity = len, dr_pos = p\<rparr>" for p
  have inv: "dr_inv (rd p)" if "unat p \<le> 16" for p
    using len that short by (simp add: rd_def dr_inv_def word_le_nat_alt)
  have step: "(rd p)\<lparr>dr_pos := q\<rparr> = rd q" for p q by (simp add: rd_def)
  have at: "dr_pos (rd p) = p" "dr_buffer (rd p) = buf" for p by (simp_all add: rd_def)
  note g = u16.get_any [OF inv, unfolded step at] u32.get_any [OF inv, unfolded step at]
    u8.get_any [OF inv, unfolded step at]
  have byte: "hd (drop 12 buf) = buf ! 12" using short by (simp add: hd_drop_conv_nth)
  have off: "(ucast (drop_bit 2 (buf ! 12)) :: size_t) = of_nat (unat (buf ! 12) div 4)"
    by (rule unsigned_word_eqI [where 'a = nat])
      (use unat_lt_8 [of "buf ! 12"] in \<open>simp add: unat_ucast_up unat_drop_bit unat_of_nat\<close>)
  have "DataReader buf len = rd 0" by (simp add: rd_def DataReader_def)
  then show ?thesis
    using g(1) [of 0] g(1) [of 2] g(2) [of 4] g(2) [of 8] g(3) [of 12] g(3) [of 13] g(1) [of 14] short
    by (simp add: Segment_parse_def Let_def byte unat_drop_bit off)
qed

section \<open>Properties\<close>





text \<open>
  In a release build every parsed segment has window 0: the read of the window field is
  compiled out together with the \<open>DCHECK\<close> around it.
\<close>

theorem Segment_parse_release_window:
  assumes "Segment_parse False src dst buf len = Inr s"
  shows "sg_window s = 0"
  using assms by (auto simp: Segment_parse_def Let_def read_local_def read_member_def
      rbind_eq_Inr_iff split: option.splits)

theorem Segment_parse_release_window_witness:
  "\<exists>s. Segment_parse False IPAddress IPAddress (replicate 20 0x50) 20 = Inr s \<and> sg_window s = 0"
proof -
  obtain s where s: "Segment_parse False IPAddress IPAddress (replicate 20 0x50) 20 = Inr s"
    using parse_any [of 20 "replicate 20 0x50" False IPAddress IPAddress] by auto
  with Segment_parse_release_window [OF s] show ?thesis by blast
qed

text \<open>
  C37: A segment whose data offset field points past its end is accepted: the payload length
  wraps around to almost \<open>2 ^ 64\<close>, and copying the payload reads outside the packet.
\<close>

theorem Segment_bad_offset_overreads:
  assumes "unat len = length buf" and "16 \<le> length buf" and "length buf < unat (buf ! 12) div 4"
  shows "\<exists>s. Segment_parse dbg src dst buf len = Inr s \<and>
    unat (sg_data_length s) = 2 ^ 64 - (unat (buf ! 12) div 4 - length buf) \<and>
    Segment_copyData s = Inl OutOfBounds"
proof -
  let ?off = "unat (buf ! 12) div 4"
  have off: "?off < 64" using unat_lt_8 [of "buf ! 12"] by simp
  then have small: "length buf \<le> 2 ^ 62" using assms(3) by simp
  obtain s where s: "Segment_parse dbg src dst buf len = Inr s" "sg_data s = drop ?off buf"
    "\<not> sg_own_data s" "sg_data_length s = len - of_nat ?off"
    using parse_any [OF assms(1) small assms(2)] by blast
  have "unat (len - of_nat ?off) = 2 ^ 64 - (?off - length buf)"
    using off assms(1,3) by (simp add: unat_sub_if_size word_size word_le_nat_alt unat_of_nat)
  then have n: "unat (sg_data_length s) = 2 ^ 64 - (?off - length buf)" using s(4) by simp
  have "sg_data_length s \<noteq> 0" using n off by (auto simp: unat_eq_0)
  moreover have "\<not> unat (sg_data_length s) \<le> length (sg_data s)"
    unfolding n s(2) using off assms(3) by simp
  ultimately have "Segment_copyData s = Inl OutOfBounds"
    using s(3) by (simp add: Segment_copyData_def mem_read_def)
  with s(1) n show ?thesis by blast
qed

theorem Segment_bad_offset_overreads_witness:
  "\<exists>s. Segment_parse True IPAddress IPAddress (replicate 20 0xF0) 20 = Inr s \<and>
    unat (sg_data_length s) = 2 ^ 64 - 40 \<and> Segment_copyData s = Inl OutOfBounds"
  using Segment_bad_offset_overreads [of 20 "replicate 20 0xF0" True IPAddress IPAddress] by simp

end
