(* ===== verification/Tcp_Env.thy ===== *)
theory Tcp_Env
  imports Tcp_Segment Alarms
begin

text \<open>
  What the transport layer sees of the layers below: the virtual methods \<open>IPLayer::sendPacket\<close>,
  \<open>AlarmFactory::createAlarm\<close>, \<open>AlarmFactory::now\<close> and the methods of the alarms it creates, as a
  record of functions on an abstract world. The locale states what the transport layer relies
  on. The IP layer with the epoll alarms, and the mock layer with the mock alarms, provide it.
\<close>

datatype service_protocol = ICMP | TCP | TESTING0 | TESTING1

definition service_number :: "service_protocol \<Rightarrow> byte" where
  "service_number p = (case p of ICMP \<Rightarrow> 1 | TCP \<Rightarrow> 6 | TESTING0 \<Rightarrow> 253 | TESTING1 \<Rightarrow> 254)"

record 'w tcp_env =
  env_sendPacket :: "ip_address \<Rightarrow> ip_address \<Rightarrow> service_protocol \<Rightarrow> byte list \<Rightarrow> 'w \<Rightarrow> ('w \<times> bool) res"
  env_now :: "'w \<Rightarrow> time"
  env_createAlarm :: "alarm_id \<Rightarrow> 'w \<Rightarrow> 'w"
  env_alarm_set :: "alarm_id \<Rightarrow> time \<Rightarrow> 'w \<Rightarrow> 'w res"
  env_alarm_update :: "alarm_id \<Rightarrow> time \<Rightarrow> 'w \<Rightarrow> 'w res"
  env_alarm_cancel :: "alarm_id \<Rightarrow> 'w \<Rightarrow> 'w res"

text \<open>The timeouts of the transport layer: one second from now.\<close>

abbreviation one_second_from_now :: "'w tcp_env \<Rightarrow> 'w \<Rightarrow> time" where
  "one_second_from_now env w \<equiv> TimeBase_plus (env_now env w) (Delta_fromSeconds 1)"

text \<open>The one second alarms of any implementation of alarms, while the clock is not near its end.\<close>

definition alarms_ok :: "'a alarm_server_scheme \<Rightarrow> bool" where
  "alarms_ok s \<longleftrightarrow> as_inv {} s \<and> 0 \<le> as_now s \<and> as_now s \<le> 2 ^ 62"

definition alarms_armed :: "'a alarm_server_scheme \<Rightarrow> alarm_id \<Rightarrow> bool" where
  "alarms_armed s a \<longleftrightarrow> deadline s a \<noteq> 0"

abbreviation alarms_second :: "'a alarm_server_scheme \<Rightarrow> time" where
  "alarms_second s \<equiv> TimeBase_plus (as_now s) (Delta_fromSeconds 1)"

lemma alarms_second_value:
  assumes "alarms_ok s"
  shows "alarms_second s = as_now s + 1000000" "int64 (alarms_second s)"
  using assms by (simp_all add: alarms_ok_def TimeBase_plus_def Delta_fromSeconds_def wrap64_id int64_def)

lemma Alarm_fresh:
  assumes "alarms_ok s" and "\<not> alarms_armed s a"
  shows "alarms_ok (Alarm a s)" "alarms_armed (Alarm a s) = alarms_armed s"
proof -
  have d: "deadline s a = 0" using assms(2) by (simp add: alarms_armed_def)
  then have e: "entries {} s a = {}" using assms(1) unset_no_entry by (auto simp: alarms_ok_def)
  have [simp]: "entries St (Alarm a s) b = entries St s b" for St b by (simp add: entries_def Alarm_def)
  have [simp]: "as_alarms (Alarm a s) b = (if b = a then \<lparr>al_deadline = 0, al_token = None\<rparr> else as_alarms s b)" for b
    by (simp add: Alarm_def TimeBase_zero_def)
  have "as_links {} (Alarm a s) b" if "as_links {} s b" for b
    using that e by (simp add: as_links_def)
  moreover have "as_base (Alarm a s) = as_base s" "as_now (Alarm a s) = as_now s" by (simp_all add: as_base_def Alarm_def)
  ultimately show "alarms_ok (Alarm a s)" using assms(1) by (simp add: alarms_ok_def as_inv_def)
  show "alarms_armed (Alarm a s) = alarms_armed s" using d by (simp add: alarms_armed_def fun_eq_iff)
qed

context alarm_impl
begin

lemma second_set:
  assumes "alarms_ok s" and "\<not> alarms_armed s a"
  shows "\<exists>s'. Alarm_set dbg setImpl a (alarms_second s) s = Inr s' \<and> alarms_ok s' \<and>
    alarms_armed s' = (alarms_armed s)(a := True)"
proof -
  note v = alarms_second_value [OF assms(1)]
  have "alarms_second s \<noteq> 0" using assms(1) v(1) by (simp add: alarms_ok_def)
  from set_ok [of "{}" s a, OF _ _ this v(2), of dbg] assms this show ?thesis
    by (auto simp: alarms_ok_def alarms_armed_def fun_eq_iff)
qed

lemma second_update:
  assumes "alarms_ok s"
  shows "\<exists>s'. Alarm_update setImpl cancelImpl a (alarms_second s) default_granularity s = Inr s' \<and>
    alarms_ok s' \<and> alarms_armed s' = (alarms_armed s)(a := True)"
proof -
  note v = alarms_second_value [OF assms]
  have d: "alarms_second s \<noteq> 0" "1000 \<le> alarms_second s" using assms v(1) by (simp_all add: alarms_ok_def)
  obtain s' where s': "Alarm_update setImpl cancelImpl a (alarms_second s) default_granularity s = Inr s'"
      "as_inv {} s'" "as_now s' = as_now s" "\<forall>b. b \<noteq> a \<longrightarrow> deadline s' b = deadline s b"
      "deadline s' a = (if alarms_second s \<noteq> 0 \<and> wrap64 \<bar>TimeBase_diff (alarms_second s) (deadline s a)\<bar> < default_granularity
        then deadline s a else alarms_second s)"
    using update_ok [of "{}" s, OF _ v(2)] assms unfolding alarms_ok_def by meson
  have "deadline s' a \<noteq> 0"
    using s'(5) d v(2) by (cases "deadline s a = 0") (auto simp: TimeBase_diff_def wrap64_id)
  then show ?thesis using s'(1-4) assms by (auto simp: alarms_ok_def alarms_armed_def fun_eq_iff)
qed

lemma second_cancel:
  assumes "alarms_ok s"
  shows "\<exists>s'. Alarm_cancel cancelImpl a s = Inr s' \<and> alarms_ok s' \<and>
    alarms_armed s' = (alarms_armed s)(a := False)"
  using cancel_ok [of "{}" s a] assms by (auto simp: alarms_ok_def alarms_armed_def fun_eq_iff)

end

definition tcp_packet :: "byte list \<Rightarrow> bool" where
  "tcp_packet bs \<longleftrightarrow> (\<exists>s c d. bs = tcp_header s c @ d) \<and> length bs \<le> 1480"

locale tcp_network =
  fixes env :: "'w tcp_env"
    and winv :: "'w \<Rightarrow> bool"
    and armed :: "'w \<Rightarrow> alarm_id \<Rightarrow> bool"
  assumes send_law: "winv w \<Longrightarrow> tcp_packet bs \<Longrightarrow>
      \<exists>w' ok. env_sendPacket env src dst TCP bs w = Inr (w', ok) \<and> winv w' \<and> armed w' = armed w"
    and create_law: "winv w \<Longrightarrow> \<not> armed w a \<Longrightarrow>
      winv (env_createAlarm env a w) \<and> armed (env_createAlarm env a w) = armed w"
    and set_law: "winv w \<Longrightarrow> \<not> armed w a \<Longrightarrow>
      \<exists>w'. env_alarm_set env a (one_second_from_now env w) w = Inr w' \<and> winv w' \<and>
        armed w' = (armed w)(a := True)"
    and update_law: "winv w \<Longrightarrow>
      \<exists>w'. env_alarm_update env a (one_second_from_now env w) w = Inr w' \<and> winv w' \<and>
        armed w' = (armed w)(a := True)"
    and cancel_law: "winv w \<Longrightarrow>
      \<exists>w'. env_alarm_cancel env a w = Inr w' \<and> winv w' \<and> armed w' = (armed w)(a := False)"

end
