(* ===== verification/Send_Buffer.thy ===== *)
theory Send_Buffer
  imports Tcp_Env Ring_Buffer
begin

text \<open>
  \<open>src/tcp/send_buffer.{h,cpp}\<close>: the sending side of a connection. The state holds the object
  and what it points to: the control block and the segment factory of its session, and the
  world behind the IP layer and the alarms. Local arrays that the code leaves uninitialised
  take their bytes from the argument \<open>fresh\<close>.
\<close>

section \<open>Definitions\<close>

datatype ctl_state = CtlNone | Sent | Acked

record send_buffer =
  sb_buffer :: ring_buffer
  sb_SYN :: ctl_state
  sb_FIN :: ctl_state
  sb_bytes_in_flight :: size_t
  sb_source :: ip_address
  sb_destination :: ip_address
  sb_alarm :: alarm_id

record 'w send_state =
  ss_buf :: send_buffer
  ss_tcb :: control_block
  ss_factory :: segment_factory
  ss_world :: 'w

definition kMaxBytesInFlight :: size_t where
  "kMaxBytesInFlight = kMaxSegmentSize * 10"

definition SendBuffer ::
  "(nat \<Rightarrow> byte) \<Rightarrow> 'w tcp_env \<Rightarrow> alarm_id \<Rightarrow> 'w \<Rightarrow> (send_buffer \<times> 'w) res" where
  "SendBuffer fresh env a w =
     (let w = env_createAlarm env a w in
      rbind (env_alarm_set env a (one_second_from_now env w) w) (\<lambda>w.
      Inr (\<lparr>sb_buffer = RingBuffer fresh (1024 * 256), sb_SYN = CtlNone, sb_FIN = CtlNone,
            sb_bytes_in_flight = 0, sb_source = IPAddress, sb_destination = IPAddress,
            sb_alarm = a\<rparr>, w)))"

abbreviation put_buf ::
  "(send_buffer \<Rightarrow> send_buffer) \<Rightarrow> ('w, 'a) send_state_scheme \<Rightarrow> ('w, 'a) send_state_scheme" where
  "put_buf f st \<equiv> st\<lparr>ss_buf := f (ss_buf st)\<rparr>"

abbreviation put_send ::
  "(send_block \<Rightarrow> send_block) \<Rightarrow> ('w, 'a) send_state_scheme \<Rightarrow> ('w, 'a) send_state_scheme" where
  "put_send f st \<equiv> st\<lparr>ss_tcb := (ss_tcb st)\<lparr>cb_send := f (cb_send (ss_tcb st))\<rparr>\<rparr>"

abbreviation tcb_send :: "('w, 'a) send_state_scheme \<Rightarrow> send_block" where
  "tcb_send st \<equiv> cb_send (ss_tcb st)"

definition SendBuffer_setSource ::
  "ip_address \<Rightarrow> ('w, 'a) send_state_scheme \<Rightarrow> ('w, 'a) send_state_scheme" where
  "SendBuffer_setSource source st = put_buf (\<lambda>b. b\<lparr>sb_source := source\<rparr>) st"

definition SendBuffer_setDestination ::
  "ip_address \<Rightarrow> ('w, 'a) send_state_scheme \<Rightarrow> ('w, 'a) send_state_scheme" where
  "SendBuffer_setDestination destination st = put_buf (\<lambda>b. b\<lparr>sb_destination := destination\<rparr>) st"

definition SendBuffer_SYN_acked :: "send_buffer \<Rightarrow> bool" where
  "SendBuffer_SYN_acked b \<longleftrightarrow> sb_SYN b = Acked"

definition SendBuffer_FIN_acked :: "send_buffer \<Rightarrow> bool" where
  "SendBuffer_FIN_acked b \<longleftrightarrow> sb_FIN b = Acked"

definition SendBuffer_sendSegment ::
  "bool \<Rightarrow> (nat \<Rightarrow> byte) \<Rightarrow> 'w tcp_env \<Rightarrow> segment \<Rightarrow> ('w, 'a) send_state_scheme \<Rightarrow>
     (('w, 'a) send_state_scheme \<times> bool) res" where
  "SendBuffer_sendSegment dbg fresh env segment st =
     rbind (Segment_writeSegmentTo dbg (map fresh [1480..<1484]) (map fresh [1484..<1488]) segment
       (DataWriter (map fresh [0..<1480]) kMaxTCPPacketLength)) (\<lambda>(writer, _).
     rbind (env_sendPacket env (sb_source (ss_buf st)) (sb_destination (ss_buf st)) TCP
       (DataWriter_written writer) (ss_world st)) (\<lambda>(w, sent).
     let st = st\<lparr>ss_world := w\<rparr> in
     if \<not> sent then Inr (st, False) else Inr (st, True)))"

text \<open>
  The loop of \<open>transmit\<close>. \<open>seq\<close> and the sum compared with \<open>send.next\<close> are computed in 64 bits
  and truncated to a sequence number.
\<close>

function SendBuffer_transmit_loop ::
  "bool \<Rightarrow> (nat \<Rightarrow> byte) \<Rightarrow> 'w tcp_env \<Rightarrow> ('w, 'a) send_state_scheme \<Rightarrow>
     ('w, 'a) send_state_scheme res" where
  "SendBuffer_transmit_loop dbg fresh env st =
     (if sb_bytes_in_flight (ss_buf st) < kMaxBytesInFlight then
        case RingBuffer_read_offset dbg (sb_buffer (ss_buf st)) (sb_bytes_in_flight (ss_buf st))
          kMaxSegmentSize of
          Inl e \<Rightarrow> Inl e
        | Inr (buf, len) \<Rightarrow>
            let seq = ucast (ucast (snd_unack (tcb_send st)) + sb_bytes_in_flight (ss_buf st)) :: uint32;
                st1 = put_buf (\<lambda>b. b\<lparr>sb_bytes_in_flight := sb_bytes_in_flight b + len\<rparr>) st;
                piggyback = (sb_FIN (ss_buf st) = Sent \<and>
                  seq_equal (snd_initial (tcb_send st)) (ucast (ucast seq + len + 1)) (snd_next (tcb_send st)))
            in if \<not> piggyback \<and> len = 0 then Inr st1
               else case SendBuffer_sendSegment dbg fresh env
                     (SegmentFactory_createSegment (ss_factory st) seq (rcv_next (cb_receive (ss_tcb st)))
                       (if piggyback then ACK OR FIN else ACK) buf len) st1 of
                   Inl e \<Rightarrow> Inl e
                 | Inr (st2, sent) \<Rightarrow>
                     if \<not> sent then Inr st2
                     else if len = 0 then rbind (DCHECK dbg (sb_FIN (ss_buf st2) = Sent)) (\<lambda>_. Inr st2)
                     else SendBuffer_transmit_loop dbg fresh env st2
      else Inr st)"
  by pat_completeness auto

lemma read_offset_count: "RingBuffer_read_offset dbg rb off len = Inr (bs, n) \<Longrightarrow> n \<le> len"
  by (auto simp: RingBuffer_read_offset_def Let_def rbind_eq_Inr_iff split: if_splits)

lemma sendSegment_frame:
  "SendBuffer_sendSegment dbg fresh env segment st = Inr (st', b) \<Longrightarrow>
     \<exists>w. st' = st\<lparr>ss_world := w\<rparr>"
  by (auto simp: SendBuffer_sendSegment_def rbind_eq_Inr_iff Let_def split: if_splits prod.splits)

lemma max_bytes [simp]: "kMaxBytesInFlight = 14600" "kMaxSegmentSize = 1460"
  by (simp_all add: kMaxBytesInFlight_def kMaxSegmentSize_def)

lemma in_flight_grows:
  fixes b n :: size_t
  assumes "b < 14600" and "n \<le> 1460" and "n \<noteq> 0"
  shows "unat b < unat (b + n)" "unat (b + n) = unat b + unat n" "unat (b + n) \<le> 16060"
proof -
  have "unat b < 14600" "unat n \<le> 1460" using assms by (simp_all add: word_less_nat_alt word_le_nat_alt)
  then show "unat (b + n) = unat b + unat n" by (intro unat_add_lt) simp
  moreover have "0 < unat n" using assms(3) by (simp add: unat_gt_0)
  ultimately show "unat b < unat (b + n)" "unat (b + n) \<le> 16060"
    using \<open>unat b < 14600\<close> \<open>unat n \<le> 1460\<close> by simp_all
qed

termination SendBuffer_transmit_loop
proof (relation "measure (\<lambda>(dbg, fresh, env, st). 14600 - unat (sb_bytes_in_flight (ss_buf st)))",
    goal_cases)
  case (2 dbg fresh env st r buf len seq st1 piggyback r2 st2 sent)
  have "len \<le> 1460" using 2(2,3) read_offset_count by fastforce
  moreover have "sb_bytes_in_flight (ss_buf st) < 14600" using 2(1) by simp
  moreover obtain w where "st2 = st1\<lparr>ss_world := w\<rparr>" using 2(8,9) sendSegment_frame by fastforce
  ultimately show ?case using 2(5,11) in_flight_grows [of "sb_bytes_in_flight (ss_buf st)" len]
    by (simp add: word_less_nat_alt)
qed simp

declare SendBuffer_transmit_loop.simps [simp del]

definition SendBuffer_transmit_SYN ::
  "bool \<Rightarrow> (nat \<Rightarrow> byte) \<Rightarrow> 'w tcp_env \<Rightarrow> ('w, 'a) send_state_scheme \<Rightarrow>
     ('w, 'a) send_state_scheme res" where
  "SendBuffer_transmit_SYN dbg fresh env st =
     (if rcv_SYN_received (cb_receive (ss_tcb st)) then
        let segment = SegmentFactory_createSegment_ack (ss_factory st) (snd_initial (tcb_send st))
              (rcv_next (cb_receive (ss_tcb st))) (SYN OR ACK)
        in ignoring (SendBuffer_sendSegment dbg fresh env segment st) Inr
      else
        rbind (SegmentFactory_createSegment_ctl dbg (ss_factory st) (snd_initial (tcb_send st)) SYN)
          (\<lambda>segment. ignoring (SendBuffer_sendSegment dbg fresh env segment st) Inr))"

definition SendBuffer_transmit ::
  "bool \<Rightarrow> (nat \<Rightarrow> byte) \<Rightarrow> 'w tcp_env \<Rightarrow> ('w, 'a) send_state_scheme \<Rightarrow>
     ('w, 'a) send_state_scheme res" where
  "SendBuffer_transmit dbg fresh env st =
     (case sb_SYN (ss_buf st) of
        CtlNone \<Rightarrow> Inr st
      | Sent \<Rightarrow> SendBuffer_transmit_SYN dbg fresh env st
      | Acked \<Rightarrow> SendBuffer_transmit_loop dbg fresh env st)"

definition SendBuffer_sendSYN ::
  "bool \<Rightarrow> (nat \<Rightarrow> byte) \<Rightarrow> 'w tcp_env \<Rightarrow> uint32 \<Rightarrow> ('w, 'a) send_state_scheme \<Rightarrow>
     ('w, 'a) send_state_scheme res" where
  "SendBuffer_sendSYN dbg fresh env initial st =
     rbind (DCHECK dbg (sb_FIN (ss_buf st) = CtlNone)) (\<lambda>_.
     let st = put_send (\<lambda>s. s\<lparr>snd_initial := initial, snd_next := initial + 1, snd_unack := initial\<rparr>) st;
         st = put_buf (\<lambda>b. b\<lparr>sb_SYN := Sent\<rparr>) st
     in SendBuffer_transmit dbg fresh env st)"

text \<open>\<open>send.next += consumed\<close> truncates the 64 bit sum to a sequence number.\<close>

definition SendBuffer_sendData ::
  "bool \<Rightarrow> (nat \<Rightarrow> byte) \<Rightarrow> 'w tcp_env \<Rightarrow> byte list \<Rightarrow> size_t \<Rightarrow> ('w, 'a) send_state_scheme \<Rightarrow>
     (('w, 'a) send_state_scheme \<times> size_t) res" where
  "SendBuffer_sendData dbg fresh env data len st =
     rbind (DCHECK dbg (sb_FIN (ss_buf st) = CtlNone)) (\<lambda>_.
     if RingBuffer_full (sb_buffer (ss_buf st)) then Inr (st, 0)
     else
       rbind (RingBuffer_write dbg (sb_buffer (ss_buf st)) data len) (\<lambda>(rb, consumed).
       let st = put_buf (\<lambda>b. b\<lparr>sb_buffer := rb\<rparr>) st;
           st = put_send (\<lambda>s. s\<lparr>snd_next := ucast (ucast (snd_next s) + consumed)\<rparr>) st
       in rbind (if SendBuffer_SYN_acked (ss_buf st) then SendBuffer_transmit dbg fresh env st else Inr st)
            (\<lambda>st. Inr (st, consumed))))"

definition SendBuffer_sendFIN ::
  "bool \<Rightarrow> (nat \<Rightarrow> byte) \<Rightarrow> 'w tcp_env \<Rightarrow> ('w, 'a) send_state_scheme \<Rightarrow>
     ('w, 'a) send_state_scheme res" where
  "SendBuffer_sendFIN dbg fresh env st =
     (let st = put_buf (\<lambda>b. b\<lparr>sb_FIN := Sent\<rparr>) st;
          st = put_send (\<lambda>s. s\<lparr>snd_next := snd_next s + 1\<rparr>) st
      in if RingBuffer_empty (sb_buffer (ss_buf st)) then SendBuffer_transmit dbg fresh env st
         else Inr st)"

text \<open>\<open>acknowledge\<close>, in the order of the code: the SYN, the data, the timer, the FIN, more data.\<close>

definition acknowledge_SYN ::
  "bool \<Rightarrow> uint32 \<Rightarrow> ('w, 'a) send_state_scheme \<Rightarrow> ('w, 'a) send_state_scheme res" where
  "acknowledge_SYN dbg ack st =
     (if sb_SYN (ss_buf st) = Sent then
        rbind (DCHECK dbg (seq_greaterThan (snd_initial (tcb_send st)) ack (snd_initial (tcb_send st)))) (\<lambda>_.
        Inr (put_send (\<lambda>s. s\<lparr>snd_unack := snd_initial s + 1\<rparr>)
          (put_buf (\<lambda>b. b\<lparr>sb_SYN := Acked\<rparr>) st)))
      else Inr st)"

definition acknowledge_data ::
  "bool \<Rightarrow> uint32 \<Rightarrow> ('w, 'a) send_state_scheme \<Rightarrow> (('w, 'a) send_state_scheme \<times> size_t) res" where
  "acknowledge_data dbg ack st =
     rbind (DCHECK dbg (seq_greaterOrEqual (snd_initial (tcb_send st)) ack (snd_unack (tcb_send st)))) (\<lambda>_.
     let consumed = ucast (ack - snd_unack (tcb_send st)) :: size_t in
     rbind (RingBuffer_consume dbg (sb_buffer (ss_buf st)) consumed) (\<lambda>(rb, n).
     Inr (put_send (\<lambda>s. s\<lparr>snd_unack := ucast (ucast (snd_unack s) + n)\<rparr>)
       (put_buf (\<lambda>b. b\<lparr>sb_buffer := rb, sb_bytes_in_flight := sb_bytes_in_flight b - consumed\<rparr>) st),
       consumed)))"

definition acknowledge_timer ::
  "'w tcp_env \<Rightarrow> ('w, 'a) send_state_scheme \<Rightarrow> ('w, 'a) send_state_scheme res" where
  "acknowledge_timer env st =
     (if sb_bytes_in_flight (ss_buf st) = 0 then
        rbind (env_alarm_update env (sb_alarm (ss_buf st)) (one_second_from_now env (ss_world st)) (ss_world st))
          (\<lambda>w. Inr (st\<lparr>ss_world := w\<rparr>))
      else Inr st)"

definition acknowledge_FIN ::
  "bool \<Rightarrow> 'w tcp_env \<Rightarrow> uint32 \<Rightarrow> ('w, 'a) send_state_scheme \<Rightarrow> ('w, 'a) send_state_scheme res" where
  "acknowledge_FIN dbg env ack st =
     (if sb_FIN (ss_buf st) = Sent \<and> seq_equal (snd_initial (tcb_send st)) ack (snd_next (tcb_send st)) then
        rbind (DCHECK dbg (RingBuffer_empty (sb_buffer (ss_buf st)))) (\<lambda>_.
        rbind (env_alarm_cancel env (sb_alarm (ss_buf st)) (ss_world st)) (\<lambda>w.
        Inr (put_send (\<lambda>s. s\<lparr>snd_unack := snd_unack s + 1\<rparr>)
          (put_buf (\<lambda>b. b\<lparr>sb_FIN := Acked\<rparr>) (st\<lparr>ss_world := w\<rparr>)))))
      else Inr st)"

definition SendBuffer_acknowledge ::
  "bool \<Rightarrow> (nat \<Rightarrow> byte) \<Rightarrow> 'w tcp_env \<Rightarrow> uint32 \<Rightarrow> ('w, 'a) send_state_scheme \<Rightarrow>
     ('w, 'a) send_state_scheme res" where
  "SendBuffer_acknowledge dbg fresh env ack st =
     rbind (acknowledge_SYN dbg ack st) (\<lambda>st.
     rbind (acknowledge_data dbg ack st) (\<lambda>(st, consumed).
     rbind (acknowledge_timer env st) (\<lambda>st.
     rbind (acknowledge_FIN dbg env ack st) (\<lambda>st.
     if 0 < consumed then SendBuffer_transmit dbg fresh env st else Inr st))))"

definition SendBuffer_retransmit ::
  "bool \<Rightarrow> (nat \<Rightarrow> byte) \<Rightarrow> 'w tcp_env \<Rightarrow> ('w, 'a) send_state_scheme \<Rightarrow>
     ('w, 'a) send_state_scheme res" where
  "SendBuffer_retransmit dbg fresh env st =
     rbind (SendBuffer_transmit dbg fresh env (put_buf (\<lambda>b. b\<lparr>sb_bytes_in_flight := 0\<rparr>) st)) (\<lambda>st.
     rbind (env_alarm_set env (sb_alarm (ss_buf st)) (one_second_from_now env (ss_world st)) (ss_world st)) (\<lambda>w.
     Inr (st\<lparr>ss_world := w\<rparr>)))"

section \<open>Invariant\<close>

text \<open>
  \<open>sb_inv\<close>: the ring buffer is well formed, what is in flight is buffered, the addresses are
  IPv4, and the sequence number accounting holds: \<open>send.next\<close> is one past the buffered data,
  and one more when a FIN is pending.
\<close>

abbreviation sb_contents :: "('w, 'a) send_state_scheme \<Rightarrow> byte list" where
  "sb_contents st \<equiv> rb_contents (sb_buffer (ss_buf st))"

definition sb_base :: "('w, 'a) send_state_scheme \<Rightarrow> uint32" where
  "sb_base st = (if sb_SYN (ss_buf st) = Acked then snd_unack (tcb_send st) else snd_initial (tcb_send st) + 1)"

definition sb_inv :: "('w, 'a) send_state_scheme \<Rightarrow> bool" where
  "sb_inv st \<longleftrightarrow> rb_inv (sb_buffer (ss_buf st)) \<and> rb_size (sb_buffer (ss_buf st)) = 262144 \<and>
     unat (sb_bytes_in_flight (ss_buf st)) \<le> length (sb_contents st) \<and>
     ip_v4 (sa_host (sf_local (ss_factory st))) \<and> ip_v4 (sa_host (sf_remote (ss_factory st))) \<and>
     (sb_SYN (ss_buf st) \<noteq> CtlNone \<longrightarrow> snd_next (tcb_send st) =
        sb_base st + of_nat (length (sb_contents st)) + (if sb_FIN (ss_buf st) = Sent then 1 else 0))"

lemma sb_invD:
  assumes "sb_inv st"
  shows "rb_inv (sb_buffer (ss_buf st))" "unat (sb_bytes_in_flight (ss_buf st)) \<le> length (sb_contents st)"
    "length (sb_contents st) \<le> 262144" "ip_v4 (sa_host (sf_local (ss_factory st)))"
    "ip_v4 (sa_host (sf_remote (ss_factory st)))"
  using assms length_contents_le [of "sb_buffer (ss_buf st)"] by (simp_all add: sb_inv_def)

section \<open>What one call of transmit sends\<close>

text \<open>
  The specification of the transmit loop: cut the buffered bytes from the first one not in
  flight into segments of at most 1460 bytes until the window of 14600 bytes is used up. A
  segment is its offset from \<open>send.unack\<close>, its bytes and whether it carries the FIN.
\<close>

function tx_plan :: "nat \<Rightarrow> byte list \<Rightarrow> bool \<Rightarrow> (nat \<times> byte list \<times> bool) list" where
  "tx_plan b c fin =
     (if 14600 \<le> b then []
      else let d = take 1460 (drop b c); flag = fin \<and> b + length d = length c in
        if d = [] then (if flag then [(b, [], True)] else [])
        else (b, d, flag) # tx_plan (b + length d) c fin)"
  by pat_completeness auto
termination by (relation "measure (\<lambda>(b, c, fin). 14600 - b)") auto

declare tx_plan.simps [simp del]

definition tx_segment :: "('w, 'a) send_state_scheme \<Rightarrow> nat \<times> byte list \<times> bool \<Rightarrow> segment" where
  "tx_segment st p = (case p of (off, d, flag) \<Rightarrow>
     SegmentFactory_createSegment (ss_factory st) (snd_unack (tcb_send st) + of_nat off)
       (rcv_next (cb_receive (ss_tcb st))) (if flag then ACK OR FIN else ACK) d (of_nat (length d)))"

definition tx_bump :: "('w, 'a) send_state_scheme \<Rightarrow> nat \<times> byte list \<times> bool \<Rightarrow> ('w, 'a) send_state_scheme" where
  "tx_bump st p = (case p of (off, d, flag) \<Rightarrow>
     put_buf (\<lambda>b. b\<lparr>sb_bytes_in_flight := of_nat (off + length d)\<rparr>) st)"

primrec tx_run ::
  "bool \<Rightarrow> (nat \<Rightarrow> byte) \<Rightarrow> 'w tcp_env \<Rightarrow> (nat \<times> byte list \<times> bool) list \<Rightarrow> ('w, 'a) send_state_scheme \<Rightarrow>
     ('w, 'a) send_state_scheme res" where
  "tx_run dbg fresh env [] st = Inr st"
| "tx_run dbg fresh env (p # ps) st =
     rbind (SendBuffer_sendSegment dbg fresh env (tx_segment st p) (tx_bump st p)) (\<lambda>(st, sent).
     if sent then tx_run dbg fresh env ps st else Inr st)"


lemma sb_inv_world [simp]: "sb_inv (st\<lparr>ss_world := w\<rparr>) = sb_inv st"
  by (simp add: sb_inv_def sb_base_def)

lemma sb_inv_in_flight:
  assumes "sb_inv st" and "n \<le> length (sb_contents st)"
  shows "sb_inv (put_buf (\<lambda>b. b\<lparr>sb_bytes_in_flight := of_nat n\<rparr>) st)"
  using assms sb_invD(3) [OF assms(1)] by (simp add: sb_inv_def sb_base_def unat_of_nat)

text \<open>The reads of the ring buffer, and the test for the piggybacked FIN, in terms of the plan.\<close>

lemma transmit_read:
  assumes "sb_inv st" and b: "b = unat (sb_bytes_in_flight (ss_buf st))"
    and d: "d = take 1460 (drop b (sb_contents st))"
  shows "RingBuffer_read_offset dbg (sb_buffer (ss_buf st)) (sb_bytes_in_flight (ss_buf st)) 1460 =
    Inr (d, of_nat (length d))"
proof -
  let ?n = "min 1460 (rb_end (sb_buffer (ss_buf st)) -
    (rb_begin (sb_buffer (ss_buf st)) + sb_bytes_in_flight (ss_buf st)))"
  note r = read_offset_eq [OF sb_invD(1,2) [OF assms(1)] refl, where len = 1460]
  have "unat ?n = length d" using r(1) by (simp add: d b)
  then have "?n = of_nat (length d)" by (simp flip: \<open>unat ?n = length d\<close>)
  then show ?thesis using r(2) by (simp add: d b)
qed

lemma small_word32: "m < 4294967296 \<Longrightarrow> n < 4294967296 \<Longrightarrow> of_nat m = (of_nat n :: uint32) \<longleftrightarrow> m = n"
  by (simp add: word_of_nat_eq_iff take_bit_nat_eq_self)

lemma transmit_piggyback:
  assumes inv: "sb_inv st" and syn: "sb_SYN (ss_buf st) = Acked" and fin: "sb_FIN (ss_buf st) = Sent"
    and le: "b + n \<le> length (sb_contents st)"
  shows "seq_equal (snd_initial (tcb_send st))
      (snd_unack (tcb_send st) + of_nat b + of_nat n + 1) (snd_next (tcb_send st)) \<longleftrightarrow>
    b + n = length (sb_contents st)"
proof -
  have "snd_next (tcb_send st) = snd_unack (tcb_send st) + of_nat (length (sb_contents st)) + 1"
    using inv syn fin by (simp add: sb_inv_def sb_base_def)
  moreover have "of_nat (b + n) = (of_nat (length (sb_contents st)) :: uint32) \<longleftrightarrow>
      b + n = length (sb_contents st)"
    using le sb_invD(3) [OF inv] by (intro small_word32) simp_all
  ultimately show ?thesis by (simp add: seq_equal_def add.assoc)
qed

text \<open>One round of the loop, with the arithmetic replaced by the plan's.\<close>

lemma transmit_round:
  fixes st :: "('w, 'a) send_state_scheme"
  assumes inv: "sb_inv st" and syn: "sb_SYN (ss_buf st) = Acked"
    and b: "b = unat (sb_bytes_in_flight (ss_buf st))" and lt: "b < 14600"
    and d: "d = take 1460 (drop b (sb_contents st))"
    and flag: "flag = (sb_FIN (ss_buf st) = Sent \<and> b + length d = length (sb_contents st))"
  shows "SendBuffer_transmit_loop dbg fresh env st =
    (if \<not> flag \<and> d = [] then Inr st
     else rbind (SendBuffer_sendSegment dbg fresh env (tx_segment st (b, d, flag)) (tx_bump st (b, d, flag)))
       (\<lambda>(st2, sent). if \<not> sent \<or> d = [] then Inr st2 else SendBuffer_transmit_loop dbg fresh env st2))"
proof -
  let ?bif = "sb_bytes_in_flight (ss_buf st)"
  have len: "b + length d \<le> length (sb_contents st)" using sb_invD(2) [OF inv] by (simp add: d b)
  have dn: "(of_nat (length d) :: size_t) = 0 \<longleftrightarrow> d = []"
  proof -
    have "length d \<le> 2 ^ 62" unfolding d by simp
    then have "unat (of_nat (length d) :: size_t) = length d" by (rule unat_of_nat_len)
    then show ?thesis using unat_eq_0 [of "of_nat (length d) :: size_t"] by simp
  qed
  have bif: "?bif = of_nat b" by (simp add: b)
  have seq: "ucast (ucast (snd_unack (tcb_send st)) + ?bif) = snd_unack (tcb_send st) + of_nat b"
    by (simp add: ucast32_add bif)
  have seq1: "ucast (ucast (snd_unack (tcb_send st) + of_nat b) + of_nat (length d) + (1 :: size_t)) =
      snd_unack (tcb_send st) + of_nat b + of_nat (length d) + 1"
    by (simp add: ucast32_add)
  have pg: "(sb_FIN (ss_buf st) = Sent \<and> seq_equal (snd_initial (tcb_send st))
      (snd_unack (tcb_send st) + of_nat b + of_nat (length d) + 1) (snd_next (tcb_send st))) = flag"
    using transmit_piggyback [OF inv syn _ len] by (auto simp: flag)
  have bump: "put_buf (\<lambda>x. x\<lparr>sb_bytes_in_flight := sb_bytes_in_flight x + of_nat (length d)\<rparr>) st =
      tx_bump st (b, d, flag)"
    by (simp add: tx_bump_def bif)
  have fin: "sb_FIN (ss_buf st2) = sb_FIN (ss_buf st)"
    if "SendBuffer_sendSegment dbg fresh env sg (tx_bump st (b, d, flag)) = Inr (st2, sent)" for sg st2 sent
    using sendSegment_frame [OF that] by (auto simp: tx_bump_def)
  have lt': "?bif < kMaxBytesInFlight" using lt b by (simp add: word_less_nat_alt)
  have same: "tx_bump st (b, [], x) = st" for x
    by (cases st; cases "ss_buf st") (simp add: tx_bump_def b)
  let ?S = "SendBuffer_sendSegment dbg fresh env (tx_segment st (b, d, flag)) (tx_bump st (b, d, flag))"
  have loop: "SendBuffer_transmit_loop dbg fresh env st =
    (if \<not> flag \<and> d = [] then Inr (tx_bump st (b, d, flag))
     else case ?S of Inl e \<Rightarrow> Inl e
       | Inr (st2, sent) \<Rightarrow> if \<not> sent then Inr st2
           else if d = [] then rbind (DCHECK dbg (sb_FIN (ss_buf st2) = Sent)) (\<lambda>_. Inr st2)
           else SendBuffer_transmit_loop dbg fresh env st2)"
    by (subst SendBuffer_transmit_loop.simps)
      (simp only: lt' if_True max_bytes(2) transmit_read [OF inv b d] sum.case prod.case Let_def seq seq1
        pg bump dn tx_segment_def)
  show ?thesis
  proof (cases ?S)
    case (Inl e)
    then show ?thesis by (cases flag) (simp_all add: loop same)
  next
    case (Inr r)
    obtain st2 sent where r: "r = (st2, sent)" by (cases r)
    have "flag \<Longrightarrow> sb_FIN (ss_buf st2) = Sent" using fin [OF Inr [unfolded r]] by (simp add: flag)
    then show ?thesis using Inr r by (cases flag) (simp_all add: loop same DCHECK_ok)
  qed
qed

lemma transmit_refines:
  assumes "sb_inv st" and "sb_SYN (ss_buf st) = Acked"
  shows "SendBuffer_transmit_loop dbg fresh env st =
    tx_run dbg fresh env (tx_plan (unat (sb_bytes_in_flight (ss_buf st))) (sb_contents st)
      (sb_FIN (ss_buf st) = Sent)) st"
  using assms
proof (induction "14600 - unat (sb_bytes_in_flight (ss_buf st))" arbitrary: st rule: less_induct)
  case less
  define b where "b = unat (sb_bytes_in_flight (ss_buf st))"
  define d where "d = take 1460 (drop b (sb_contents st))"
  define flag where "flag = (sb_FIN (ss_buf st) = Sent \<and> b + length d = length (sb_contents st))"
  show ?case
  proof (cases "b < 14600")
    case False
    then have "\<not> sb_bytes_in_flight (ss_buf st) < kMaxBytesInFlight"
      by (simp add: b_def word_less_nat_alt)
    then show ?thesis
      using False by (subst SendBuffer_transmit_loop.simps, subst tx_plan.simps) (simp add: b_def)
  next
    case True
    note round = transmit_round [OF less.prems b_def True d_def flag_def, of dbg fresh env]
    have plan: "tx_plan b (sb_contents st) (sb_FIN (ss_buf st) = Sent) =
        (if d = [] then (if flag then [(b, [], True)] else [])
         else (b, d, flag) # tx_plan (b + length d) (sb_contents st) (sb_FIN (ss_buf st) = Sent))"
      using True by (subst tx_plan.simps) (simp add: Let_def flag_def d_def)
    show ?thesis
    proof (cases "d = []")
      case nil: True
      show ?thesis
        unfolding round b_def [symmetric] plan using nil
        by (cases "SendBuffer_sendSegment dbg fresh env (tx_segment st (b, d, flag)) (tx_bump st (b, d, flag))";
            cases flag) auto
    next
      case ne: False
      have IH: "SendBuffer_transmit_loop dbg fresh env st2 =
          tx_run dbg fresh env (tx_plan (b + length d) (sb_contents st) (sb_FIN (ss_buf st) = Sent)) st2"
        if sending: "SendBuffer_sendSegment dbg fresh env (tx_segment st (b, d, flag))
          (tx_bump st (b, d, flag)) = Inr (st2, sent)" for st2 sent
      proof -
        obtain w where st2: "st2 = (tx_bump st (b, d, flag))\<lparr>ss_world := w\<rparr>"
          using sendSegment_frame [OF sending] by blast
        have le: "b + length d \<le> length (sb_contents st)"
          using sb_invD(2) [OF less.prems(1)] by (simp add: d_def b_def)
        have inv: "sb_inv st2" using sb_inv_in_flight [OF less.prems(1) le] by (simp add: st2 tx_bump_def)
        have b2: "unat (sb_bytes_in_flight (ss_buf st2)) = b + length d"
          using le sb_invD(3) [OF less.prems(1)] unfolding st2 tx_bump_def
          by (simp add: unat_of_nat_len del: of_nat_add)
        have "14600 - unat (sb_bytes_in_flight (ss_buf st2)) < 14600 - unat (sb_bytes_in_flight (ss_buf st))"
          using ne True unfolding b2 b_def [symmetric] by (cases d) simp_all
        from less.hyps [OF this inv] show ?thesis
          using less.prems(2) unfolding b2 by (simp add: st2 tx_bump_def)
      qed
      show ?thesis
        unfolding round b_def [symmetric] plan using ne IH
        by (cases "SendBuffer_sendSegment dbg fresh env (tx_segment st (b, d, flag)) (tx_bump st (b, d, flag))")
          auto
    qed
  qed
qed

lemma tx_plan_wf:
  assumes "b \<le> length c" and "(off, d, flag) \<in> set (tx_plan b c fin)"
  shows "length d \<le> 1460 \<and> off + length d \<le> length c \<and> d = take (length d) (drop off c) \<and>
    (flag \<longrightarrow> fin \<and> off + length d = length c)"
  using assms
proof (induction b c fin rule: tx_plan.induct)
  case (1 b c fin)
  show ?case
  proof (cases "14600 \<le> b \<or> take 1460 (drop b c) = []")
    case True
    then show ?thesis using 1(2,3) by (subst (asm) tx_plan.simps) (auto simp: Let_def split: if_splits)
  next
    case False
    let ?d = "take 1460 (drop b c)"
    have le: "b + length ?d \<le> length c" using 1(2) by simp
    from False 1(3) consider "(off, d, flag) = (b, ?d, fin \<and> b + length ?d = length c)"
      | "(off, d, flag) \<in> set (tx_plan (b + length ?d) c fin)"
      by (subst (asm) tx_plan.simps) (auto simp: Let_def)
    then show ?thesis
    proof cases
      case 1
      then show ?thesis using le by (auto simp: min_def)
    next
      case 2
      then show ?thesis using "1.IH" [OF _ refl refl _ le] False by blast
    qed
  qed
qed

lemma tx_plan_data:
  assumes "b \<le> length c"
  shows "\<exists>n. concat (map (fst \<circ> snd) (tx_plan b c fin)) = take n (drop b c) \<and> b + n \<le> length c \<and>
    (b + n = length c \<or> 14600 \<le> b + n)"
  using assms
proof (induction b c fin rule: tx_plan.induct)
  case (1 b c fin)
  let ?d = "take 1460 (drop b c)"
  show ?case
  proof (cases "14600 \<le> b \<or> ?d = []")
    case True
    then show ?thesis using 1(2) by (subst tx_plan.simps) (auto simp: Let_def intro!: exI [of _ 0])
  next
    case False
    have le: "b + length ?d \<le> length c" using 1(2) by simp
    obtain n where n: "concat (map (fst \<circ> snd) (tx_plan (b + length ?d) c fin)) =
        take n (drop (b + length ?d) c)" "b + length ?d + n \<le> length c"
        "b + length ?d + n = length c \<or> 14600 \<le> b + length ?d + n"
      using "1.IH" [OF _ refl refl _ le] False by blast
    have "concat (map (fst \<circ> snd) (tx_plan b c fin)) = ?d @ take n (drop (b + length ?d) c)"
      using False n(1) by (subst tx_plan.simps) (simp add: Let_def)
    also have "\<dots> = take (length ?d + n) (drop b c)"
    proof -
      have "take (length ?d) (drop b c) = ?d" by (simp add: min_def)
      then show ?thesis unfolding take_add [of "length ?d" n] drop_drop by (simp only: add.commute)
    qed
    finally show ?thesis using n(2,3) by (intro exI [of _ "length ?d + n"]) (simp add: add.assoc comp_def)
  qed
qed

section \<open>The operations on a network that keeps its contract\<close>

text \<open>What a call of \<open>transmit\<close> may change: the bytes in flight and the world.\<close>

definition tx_frame :: "('w, 'a) send_state_scheme \<Rightarrow> ('w, 'a) send_state_scheme \<Rightarrow> bool" where
  "tx_frame st st' \<longleftrightarrow> (\<exists>n w. n \<le> length (sb_contents st) \<and>
     st' = (put_buf (\<lambda>b. b\<lparr>sb_bytes_in_flight := of_nat n\<rparr>) st)\<lparr>ss_world := w\<rparr>)"

lemma tx_frame_inv:
  assumes "sb_inv st" and "tx_frame st st'"
  shows "sb_inv st'" "sb_contents st' = sb_contents st" "ss_tcb st' = ss_tcb st"
    "ss_factory st' = ss_factory st" "sb_SYN (ss_buf st') = sb_SYN (ss_buf st)"
    "sb_FIN (ss_buf st') = sb_FIN (ss_buf st)" "sb_alarm (ss_buf st') = sb_alarm (ss_buf st)"
    "sb_buffer (ss_buf st') = sb_buffer (ss_buf st)"
  using assms sb_inv_in_flight [OF assms(1)] by (auto simp: tx_frame_def)

lemma tx_frame_refl:
  assumes "sb_inv st"
  shows "tx_frame st st" "tx_frame st (st\<lparr>ss_world := w\<rparr>)"
proof -
  have "st\<lparr>ss_buf := (ss_buf st)\<lparr>sb_bytes_in_flight := of_nat (unat (sb_bytes_in_flight (ss_buf st)))\<rparr>\<rparr> = st"
    by (cases st; cases "ss_buf st") simp
  then show "tx_frame st (st\<lparr>ss_world := w\<rparr>)" for w
    unfolding tx_frame_def using sb_invD(2) [OF assms] by metis
  from this [of "ss_world st"] show "tx_frame st st" by simp
qed

lemma tx_frame_trans:
  assumes "sb_contents st' = sb_contents st" "tx_frame st st'" and "tx_frame st' st''"
  shows "tx_frame st st''"
  using assms unfolding tx_frame_def by force

lemma createSegment_ok:
  assumes "sb_inv st" and "length d \<le> 65515"
  shows "segment_ok (SegmentFactory_createSegment (ss_factory st) seq ack ctl d (of_nat (length d)))"
  using assms sb_invD(4,5) [OF assms(1)]
  by (simp add: segment_ok_def SegmentFactory_createSegment_def unat_of_nat_len)

text \<open>
  An acknowledgement of \<open>k\<close> bytes, and of the SYN when it is the first one. The comparison of
  sequence numbers is relative to \<open>send.initial\<close>, so it is right while fewer than \<open>2 ^ 32\<close> bytes
  have been acknowledged.
\<close>

definition ack_of :: "nat \<Rightarrow> ('w, 'a) send_state_scheme \<Rightarrow> uint32 \<Rightarrow> bool" where
  "ack_of k st ack \<longleftrightarrow> ack = sb_base st + of_nat k \<and> sb_SYN (ss_buf st) \<noteq> CtlNone \<and>
     unat (sb_base st - snd_initial (tcb_send st)) + k < 2 ^ 32"

lemma unat_add32: "unat a + k < 2 ^ 32 \<Longrightarrow> unat (a + of_nat k :: uint32) = unat a + k"
  by (subst unat_add_lt) (simp_all add: unat_of_nat)

lemma acknowledge_SYN_eq:
  assumes "ack_of k st ack"
  shows "acknowledge_SYN dbg ack st =
    Inr (put_send (\<lambda>s. s\<lparr>snd_unack := sb_base st\<rparr>) (put_buf (\<lambda>b. b\<lparr>sb_SYN := Acked\<rparr>) st))"
proof (cases "sb_SYN (ss_buf st)")
  case CtlNone
  then show ?thesis using assms by (simp add: ack_of_def)
next
  case Sent
  have "ack - snd_initial (tcb_send st) = 1 + of_nat k" "1 + k < 2 ^ 32"
    using assms Sent by (simp_all add: ack_of_def sb_base_def)
  then have "unat (ack - snd_initial (tcb_send st)) = 1 + k" using unat_add32 [of 1 k] by simp
  then have "seq_greaterThan (snd_initial (tcb_send st)) ack (snd_initial (tcb_send st))"
    by (simp add: seq_greaterThan_def word_less_nat_alt)
  then show ?thesis using Sent by (simp add: acknowledge_SYN_def DCHECK_ok sb_base_def)
next
  case Acked
  then show ?thesis
    by (cases st; cases "ss_buf st"; cases "ss_tcb st") (simp add: acknowledge_SYN_def sb_base_def)
qed

lemma acknowledge_data_any:
  assumes inv: "sb_inv st" and syn: "sb_SYN (ss_buf st) = Acked" and ack: "ack_of k st ack" and k: "k \<le> 2 ^ 31"
  shows "acknowledge_data dbg ack st =
    Inr (put_send (\<lambda>s. s\<lparr>snd_unack := snd_unack s + of_nat (min k (length (sb_contents st)))\<rparr>)
      (put_buf (\<lambda>b. b\<lparr>sb_buffer := rb_advance (sb_buffer b) (of_nat (min k (length (sb_contents st)))),
        sb_bytes_in_flight := sb_bytes_in_flight b - of_nat k\<rparr>) st), of_nat k)"
proof -
  note rbi = sb_invD [OF inv]
  have a: "ack = snd_unack (tcb_send st) + of_nat k" "ack - snd_unack (tcb_send st) = of_nat k"
    using ack syn by (simp_all add: ack_of_def sb_base_def)
  have "ack - snd_initial (tcb_send st) = (snd_unack (tcb_send st) - snd_initial (tcb_send st)) + of_nat k"
    by (simp add: a(1))
  moreover have "unat (snd_unack (tcb_send st) - snd_initial (tcb_send st)) + k < 2 ^ 32"
    using ack syn by (simp add: ack_of_def sb_base_def)
  ultimately have "unat (ack - snd_initial (tcb_send st)) =
      unat (snd_unack (tcb_send st) - snd_initial (tcb_send st)) + k"
    by (simp only: unat_add32)
  then have "seq_greaterOrEqual (snd_initial (tcb_send st)) ack (snd_unack (tcb_send st))"
    by (simp add: seq_greaterOrEqual_def word_le_nat_alt)
  moreover have c: "ucast (of_nat k :: uint32) = (of_nat k :: size_t)"
    using k by (simp add: word_unat_eq_iff unat_ucast_up unat_of_nat)
  moreover have "unat (min (of_nat k) (RingBuffer_remaining (sb_buffer (ss_buf st)))) = min k (length (sb_contents st))"
    using unat_read_count [OF rbi(1), of "of_nat k"] k by (simp add: unat_of_nat_len)
  then have "min (of_nat k) (RingBuffer_remaining (sb_buffer (ss_buf st))) =
      of_nat (min k (length (sb_contents st)))"
    using k by (simp add: word_unat_eq_iff unat_of_nat_len)
  then have "RingBuffer_consume dbg (sb_buffer (ss_buf st)) (of_nat k) =
      Inr (rb_advance (sb_buffer (ss_buf st)) (of_nat (min k (length (sb_contents st)))),
        of_nat (min k (length (sb_contents st))))"
    using consume_eq [OF rbi(1), where dbg = dbg] by simp
  ultimately show ?thesis
    unfolding acknowledge_data_def a(2) by (simp add: DCHECK_ok Let_def ucast32_add a(1))
qed

lemma acknowledge_data_eq:
  assumes inv: "sb_inv st" and syn: "sb_SYN (ss_buf st) = Acked" and ack: "ack_of k st ack"
    and k: "k \<le> unat (sb_bytes_in_flight (ss_buf st))"
  shows "acknowledge_data dbg ack st = Inr (put_send (\<lambda>s. s\<lparr>snd_unack := ack\<rparr>)
    (put_buf (\<lambda>b. b\<lparr>sb_buffer := rb_advance (sb_buffer b) (of_nat k),
      sb_bytes_in_flight := of_nat (unat (sb_bytes_in_flight b) - k)\<rparr>) st), of_nat k)"
proof -
  have "min k (length (sb_contents st)) = k" "k \<le> 2 ^ 31" using k sb_invD(2,3) [OF inv] by simp_all
  moreover have "ack = snd_unack (tcb_send st) + of_nat k" using ack syn by (simp add: ack_of_def sb_base_def)
  ultimately show ?thesis using acknowledge_data_any [OF inv syn ack] k by (simp add: of_nat_diff)
qed

context tcp_network
begin

lemma sendSegment_ok:
  assumes "winv (ss_world st)" and "segment_ok seg" and "unat (sg_data_length seg) \<le> 1460"
  shows "\<exists>w sent. SendBuffer_sendSegment dbg fresh env seg st = Inr (st\<lparr>ss_world := w\<rparr>, sent) \<and>
    winv w \<and> armed w = armed (ss_world st)"
proof -
  let ?w = "DataWriter (map fresh [0..<1480]) kMaxTCPPacketLength"
  have inv: "dw_inv ?w" by (rule DataWriter_inv) (simp_all add: kMaxTCPPacketLength_def)
  have room: "dw_room ?w (20 + unat (sg_data_length seg))" "dw_length ?w = 0"
    using assms(3) by (simp_all add: DataWriter_def)
  obtain w' c where w': "Segment_writeSegmentTo dbg (map fresh [1480..<1484]) (map fresh [1484..<1488]) seg ?w =
      Inr (w', False)" "DataWriter_written w' = tcp_header seg c @ sg_payload seg"
    using write_segment [OF inv room(2,1) assms(2), of "map fresh [1480..<1484]" "map fresh [1484..<1488]" dbg]
    by auto
  have "tcp_packet (DataWriter_written w')"
    unfolding tcp_packet_def w'(2) using assms(3) by auto
  from send_law [OF assms(1) this] obtain w'' ok where
    "env_sendPacket env (sb_source (ss_buf st)) (sb_destination (ss_buf st)) TCP (DataWriter_written w')
      (ss_world st) = Inr (w'', ok)" "winv w''" "armed w'' = armed (ss_world st)" by blast
  then show ?thesis using w'(1) by (cases ok) (auto simp: SendBuffer_sendSegment_def)
qed

lemma tx_run_ok:
  assumes "sb_inv st" and "winv (ss_world st)"
    and "\<And>off d flag. (off, d, flag) \<in> set ps \<Longrightarrow> length d \<le> 1460 \<and> off + length d \<le> length (sb_contents st)"
  shows "\<exists>st'. tx_run dbg fresh env ps st = Inr st' \<and> tx_frame st st' \<and> winv (ss_world st') \<and>
    armed (ss_world st') = armed (ss_world st)"
  using assms
proof (induction ps arbitrary: st)
  case Nil
  then show ?case using tx_frame_refl(1) by auto
next
  case (Cons p ps)
  obtain off d flag where p: "p = (off, d, flag)" by (cases p)
  have d: "length d \<le> 1460" "off + length d \<le> length (sb_contents st)" using Cons.prems(3) p by auto
  let ?st1 = "tx_bump st p"
  have inv1: "sb_inv ?st1" using sb_inv_in_flight [OF Cons.prems(1) d(2)] by (simp add: p tx_bump_def)
  have seg: "segment_ok (tx_segment st p)" "unat (sg_data_length (tx_segment st p)) \<le> 1460"
    using createSegment_ok [OF Cons.prems(1)] d(1)
    by (simp_all add: p tx_segment_def SegmentFactory_createSegment_def unat_of_nat_len)
  have "winv (ss_world ?st1)" "ss_world ?st1 = ss_world st"
    using Cons.prems(2) by (simp_all add: p tx_bump_def)
  with sendSegment_ok [OF _ seg, of ?st1 dbg fresh]
  obtain w sent where w: "SendBuffer_sendSegment dbg fresh env (tx_segment st p) ?st1 =
      Inr (?st1\<lparr>ss_world := w\<rparr>, sent)" "winv w" "armed w = armed (ss_world st)" by auto
  let ?st2 = "?st1\<lparr>ss_world := w\<rparr>"
  have f: "tx_frame st ?st2"
    unfolding tx_frame_def using d(2) by (intro exI [of _ "off + length d"] exI [of _ w]) (simp add: p tx_bump_def)
  have c: "sb_contents ?st2 = sb_contents st" by (simp add: p tx_bump_def)
  show ?case
  proof (cases sent)
    case True
    obtain st' where "tx_run dbg fresh env ps ?st2 = Inr st'" "tx_frame ?st2 st'" "winv (ss_world st')"
      "armed (ss_world st') = armed w"
      using Cons.IH [of ?st2] inv1 w(2) Cons.prems(3) c by auto
    then show ?thesis using w(1,3) True tx_frame_trans [OF c f] by auto
  next
    case False
    then show ?thesis using w f by auto
  qed
qed

lemma transmit_ok:
  assumes "sb_inv st" and "winv (ss_world st)"
  shows "\<exists>st'. SendBuffer_transmit dbg fresh env st = Inr st' \<and> tx_frame st st' \<and> winv (ss_world st') \<and>
    armed (ss_world st') = armed (ss_world st)"
proof (cases "sb_SYN (ss_buf st)")
  case CtlNone
  then show ?thesis using assms tx_frame_refl(1) by (auto simp: SendBuffer_transmit_def)
next
  case Sent
  note seg = createSegment_ok [OF assms(1), of "[]"]
  show ?thesis
    using Sent sendSegment_ok [OF assms(2) seg, of "snd_initial (tcb_send st)" "rcv_next (cb_receive (ss_tcb st))"
        "SYN OR ACK" dbg fresh]
      sendSegment_ok [OF assms(2) seg, of "snd_initial (tcb_send st)" 0 SYN dbg fresh] tx_frame_refl(2) [OF assms(1)]
    by (auto simp: SendBuffer_transmit_def SendBuffer_transmit_SYN_def SegmentFactory_createSegment_ack_def
        SegmentFactory_createSegment_ctl_def SegmentFactory_createSegment_def DCHECK_ok SYN_def ACK_def Let_def)
next
  case Acked
  let ?ps = "tx_plan (unat (sb_bytes_in_flight (ss_buf st))) (sb_contents st) (sb_FIN (ss_buf st) = Sent)"
  have "\<And>off d flag. (off, d, flag) \<in> set ?ps \<Longrightarrow>
      length d \<le> 1460 \<and> off + length d \<le> length (sb_contents st)"
    using tx_plan_wf [OF sb_invD(2) [OF assms(1)]] by blast
  from tx_run_ok [OF assms this] show ?thesis
    by (simp add: SendBuffer_transmit_def Acked transmit_refines [OF assms(1) Acked])
qed

lemma SendBuffer_ok:
  assumes "winv w" and "\<not> armed w a"
  shows "\<exists>w'. SendBuffer fresh env a w = Inr (\<lparr>sb_buffer = RingBuffer fresh (1024 * 256), sb_SYN = CtlNone,
      sb_FIN = CtlNone, sb_bytes_in_flight = 0, sb_source = IPAddress, sb_destination = IPAddress, sb_alarm = a\<rparr>, w') \<and>
    winv w' \<and> armed w' = (armed w)(a := True)"
  using create_law [OF assms] set_law [of "env_createAlarm env a w" a] assms(2)
  by (auto simp: SendBuffer_def Let_def)

lemma transmit_inv:
  assumes "sb_inv st" and "winv (ss_world st)"
  shows "\<exists>st'. SendBuffer_transmit dbg fresh env st = Inr st' \<and> sb_inv st' \<and> winv (ss_world st') \<and>
    sb_contents st' = sb_contents st \<and> ss_tcb st' = ss_tcb st \<and> sb_FIN (ss_buf st') = sb_FIN (ss_buf st) \<and>
    sb_SYN (ss_buf st') = sb_SYN (ss_buf st) \<and> sb_alarm (ss_buf st') = sb_alarm (ss_buf st) \<and>
    ss_factory st' = ss_factory st \<and> armed (ss_world st') = armed (ss_world st)"
  using transmit_ok [OF assms, of dbg fresh] tx_frame_inv [OF assms(1)] by metis

lemma sendSYN_ok:
  assumes inv: "sb_inv st" and "winv (ss_world st)" and "sb_FIN (ss_buf st) = CtlNone"
    and "sb_contents st = []"
  shows "\<exists>st'. SendBuffer_sendSYN dbg fresh env initial st = Inr st' \<and> sb_inv st' \<and> winv (ss_world st') \<and>
    armed (ss_world st') = armed (ss_world st) \<and> sb_SYN (ss_buf st') = Sent \<and> sb_contents st' = [] \<and>
    tcb_send st' = (tcb_send st)\<lparr>snd_initial := initial, snd_next := initial + 1, snd_unack := initial\<rparr>"
proof -
  let ?st = "put_buf (\<lambda>b. b\<lparr>sb_SYN := Sent\<rparr>)
    (put_send (\<lambda>s. s\<lparr>snd_initial := initial, snd_next := initial + 1, snd_unack := initial\<rparr>) st)"
  have "sb_inv ?st" using inv assms(3,4) by (simp add: sb_inv_def sb_base_def)
  from transmit_inv [OF this, of dbg fresh] show ?thesis
    using assms(2-4) by (auto simp: SendBuffer_sendSYN_def DCHECK_ok Let_def)
qed

lemma sendData_ok:
  assumes inv: "sb_inv st" and "winv (ss_world st)" and fin: "sb_FIN (ss_buf st) = CtlNone"
    and lin: "unat (rb_end (sb_buffer (ss_buf st))) < unat (rb_size (sb_buffer (ss_buf st)))"
    and len: "unat len \<le> length data"
  shows "\<exists>st' n. SendBuffer_sendData dbg fresh env data len st = Inr (st', n) \<and> sb_inv st' \<and>
    winv (ss_world st') \<and> armed (ss_world st') = armed (ss_world st) \<and>
    sb_contents st' = sb_contents st @ take (unat n) data \<and>
    unat n = min (unat len) (262144 - length (sb_contents st)) \<and>
    sb_SYN (ss_buf st') = sb_SYN (ss_buf st) \<and>
    snd_next (tcb_send st') = snd_next (tcb_send st) + of_nat (unat n)"
proof (cases "RingBuffer_full (sb_buffer (ss_buf st))")
  case True
  then show ?thesis using assms full_iff [OF sb_invD(1) [OF inv]]
    by (auto simp: SendBuffer_sendData_def DCHECK_ok sb_inv_def)
next
  case False
  note rbi = sb_invD [OF inv]
  obtain rb n where w: "RingBuffer_write dbg (sb_buffer (ss_buf st)) data len = Inr (rb, n)" "rb_inv rb"
      "rb_size rb = rb_size (sb_buffer (ss_buf st))"
      "unat n = min (unat len) (262144 - length (sb_contents st))"
      "rb_contents rb = sb_contents st @ take (unat n) data"
    using write_ok [OF rbi(1) len, of dbg] lin inv by (auto simp: sb_inv_def)
  have n: "ucast n = (of_nat (unat n) :: uint32)" by simp
  let ?st = "put_send (\<lambda>s. s\<lparr>snd_next := ucast (ucast (snd_next s) + n)\<rparr>) (put_buf (\<lambda>b. b\<lparr>sb_buffer := rb\<rparr>) st)"
  have len': "length (take (unat n) data) = unat n" using w(4) len by simp
  have "sb_inv ?st" using inv w fin len' rbi(2)
    by (auto simp: sb_inv_def sb_base_def ucast32_add n simp del: length_take)
  from transmit_inv [OF this, of dbg fresh] show ?thesis
    using False assms(2) fin w \<open>sb_inv ?st\<close>
    by (cases "sb_SYN (ss_buf st) = Acked")
      (auto simp: SendBuffer_sendData_def DCHECK_ok Let_def SendBuffer_SYN_acked_def ucast32_add n)
qed

lemma sendFIN_ok:
  assumes inv: "sb_inv st" and "winv (ss_world st)" and fin: "sb_FIN (ss_buf st) = CtlNone"
  shows "\<exists>st'. SendBuffer_sendFIN dbg fresh env st = Inr st' \<and> sb_inv st' \<and> winv (ss_world st') \<and>
    armed (ss_world st') = armed (ss_world st) \<and> sb_FIN (ss_buf st') = Sent \<and>
    sb_contents st' = sb_contents st"
proof -
  let ?st = "put_send (\<lambda>s. s\<lparr>snd_next := snd_next s + 1\<rparr>) (put_buf (\<lambda>b. b\<lparr>sb_FIN := Sent\<rparr>) st)"
  have "sb_inv ?st" using inv fin by (simp add: sb_inv_def sb_base_def)
  from transmit_inv [OF this, of dbg fresh] show ?thesis
    using assms(2) \<open>sb_inv ?st\<close> by (auto simp: SendBuffer_sendFIN_def Let_def)
qed

lemma retransmit_ok:
  assumes inv: "sb_inv st" and "winv (ss_world st)" and "\<not> armed (ss_world st) (sb_alarm (ss_buf st))"
  shows "\<exists>st'. SendBuffer_retransmit dbg fresh env st = Inr st' \<and> sb_inv st' \<and> winv (ss_world st') \<and>
    armed (ss_world st') = (armed (ss_world st))(sb_alarm (ss_buf st) := True) \<and>
    sb_contents st' = sb_contents st \<and> ss_tcb st' = ss_tcb st"
proof -
  let ?st = "put_buf (\<lambda>b. b\<lparr>sb_bytes_in_flight := 0\<rparr>) st"
  have "sb_inv ?st" using inv by (simp add: sb_inv_def sb_base_def)
  from transmit_inv [OF this, of dbg fresh] assms(2) obtain st' where
    st': "SendBuffer_transmit dbg fresh env ?st = Inr st'" "sb_inv st'" "winv (ss_world st')"
      "sb_contents st' = sb_contents st" "ss_tcb st' = ss_tcb st" "sb_alarm (ss_buf st') = sb_alarm (ss_buf st)"
      "armed (ss_world st') = armed (ss_world st)" by auto
  from set_law [OF st'(3), of "sb_alarm (ss_buf st)"] assms(3) st' show ?thesis
    by (auto simp: SendBuffer_retransmit_def)
qed

lemma acknowledge_ok:
  assumes inv: "sb_inv st" and winv: "winv (ss_world st)" and ack: "ack_of k st ack"
    and k: "k \<le> unat (sb_bytes_in_flight (ss_buf st))"
  shows "\<exists>st'. SendBuffer_acknowledge dbg fresh env ack st = Inr st' \<and> sb_inv st' \<and> winv (ss_world st') \<and>
    sb_SYN (ss_buf st') = Acked \<and> sb_FIN (ss_buf st') = sb_FIN (ss_buf st) \<and>
    sb_contents st' = drop k (sb_contents st) \<and> snd_unack (tcb_send st') = ack \<and>
    snd_next (tcb_send st') = snd_next (tcb_send st) \<and>
    (k = unat (sb_bytes_in_flight (ss_buf st)) \<longrightarrow> armed (ss_world st') (sb_alarm (ss_buf st)))"
proof -
  let ?b = "unat (sb_bytes_in_flight (ss_buf st))" and ?a = "sb_alarm (ss_buf st)"
  let ?rb = "rb_advance (sb_buffer (ss_buf st)) (of_nat k)"
  note rbi = sb_invD [OF inv]
  have kl: "k \<le> length (sb_contents st)" "k \<le> 262144" "?b - k \<le> 2 ^ 62" using k rbi(2,3) by simp_all
  let ?st1 = "put_send (\<lambda>s. s\<lparr>snd_unack := sb_base st\<rparr>) (put_buf (\<lambda>b. b\<lparr>sb_SYN := Acked\<rparr>) st)"
  let ?st2 = "put_send (\<lambda>s. s\<lparr>snd_unack := ack\<rparr>) (put_buf (\<lambda>b. b\<lparr>sb_SYN := Acked,
    sb_buffer := ?rb, sb_bytes_in_flight := of_nat (?b - k)\<rparr>) st)"
  have "sb_inv ?st1" "ack_of k ?st1 ack" "sb_SYN (ss_buf ?st1) = Acked"
    using inv ack by (simp_all add: sb_inv_def sb_base_def ack_of_def)
  from acknowledge_data_eq [OF this(1,3,2)] k
  have data: "acknowledge_data dbg ack ?st1 = Inr (?st2, of_nat k)" by simp
  have rb: "rb_inv ?rb" "rb_contents ?rb = drop k (sb_contents st)"
    using rb_advance_inv [OF rbi(1), of "of_nat k"] rb_advance_contents [OF rbi(1), of "of_nat k"] kl
    by (simp_all add: unat_of_nat_len)
  have nxt: "snd_next (tcb_send st) = ack + of_nat (length (sb_contents st) - k) +
      (if sb_FIN (ss_buf st) = Sent then 1 else 0)"
    using inv ack kl(1) by (simp add: sb_inv_def ack_of_def of_nat_diff)
  have inv2: "sb_inv ?st2" using inv nxt rb k rbi(2) kl(3)
    by (simp add: sb_inv_def sb_base_def unat_of_nat_len diff_le_mono del: of_nat_diff)
  have "of_nat (length (sb_contents st) - k) + 1 \<noteq> (0 :: uint32)"
    using small_word32 [of "length (sb_contents st) - k + 1" 0] rbi(3) by (simp add: add.commute)
  then have fin: "\<not> (sb_FIN (ss_buf st) = Sent \<and> seq_equal i ack (snd_next (tcb_send st)))" for i
    unfolding nxt by (auto simp: seq_equal_def add.assoc)
  obtain w where w: "acknowledge_timer env ?st2 = Inr (?st2\<lparr>ss_world := w\<rparr>)" "winv w"
      "k = ?b \<longrightarrow> armed w ?a"
  proof (cases "k = ?b")
    case True
    then show thesis using update_law [OF winv, of ?a] that by (auto simp: acknowledge_timer_def)
  next
    case False
    then have "(of_nat (?b - k) :: size_t) \<noteq> 0" using k kl(3) unat_of_nat_len [OF kl(3)] by (metis diff_is_0_eq le_antisym unat_0)
    then have "acknowledge_timer env ?st2 = Inr (?st2\<lparr>ss_world := ss_world st\<rparr>)" by (simp add: acknowledge_timer_def)
    then show thesis using that [of "ss_world st"] False winv by simp
  qed
  have "acknowledge_FIN dbg env ack (?st2\<lparr>ss_world := w\<rparr>) = Inr (?st2\<lparr>ss_world := w\<rparr>)"
    using fin by (auto simp: acknowledge_FIN_def)
  then have eq: "SendBuffer_acknowledge dbg fresh env ack st =
      (if 0 < (of_nat k :: size_t) then SendBuffer_transmit dbg fresh env (?st2\<lparr>ss_world := w\<rparr>)
       else Inr (?st2\<lparr>ss_world := w\<rparr>))"
    unfolding SendBuffer_acknowledge_def acknowledge_SYN_eq [OF ack] using data w(1) by simp
  show ?thesis
    using transmit_inv [of "?st2\<lparr>ss_world := w\<rparr>" dbg fresh] inv2 w(2,3) rb(2)
    unfolding eq by (cases "0 < (of_nat k :: size_t)") auto
qed

lemma acknowledge_FIN_ok:
  assumes inv: "sb_inv st" and winv: "winv (ss_world st)" and syn: "sb_SYN (ss_buf st) = Acked"
    and fin: "sb_FIN (ss_buf st) = Sent" and all: "unat (sb_bytes_in_flight (ss_buf st)) = length (sb_contents st)"
    and fits: "unat (snd_unack (tcb_send st) - snd_initial (tcb_send st)) + length (sb_contents st) + 1 < 2 ^ 32"
  shows "\<exists>st'. SendBuffer_acknowledge dbg fresh env (snd_next (tcb_send st)) st = Inr st' \<and>
    winv (ss_world st') \<and> armed (ss_world st') = (armed (ss_world st))(sb_alarm (ss_buf st) := False) \<and>
    sb_FIN (ss_buf st') = Acked \<and> sb_contents st' = [] \<and>
    snd_unack (tcb_send st') = snd_next (tcb_send st) \<and> snd_next (tcb_send st') = snd_next (tcb_send st) \<and>
    sb_bytes_in_flight (ss_buf st') = - 1"
proof -
  let ?n = "length (sb_contents st)" and ?a = "sb_alarm (ss_buf st)"
  note rbi = sb_invD [OF inv]
  have nxt: "snd_next (tcb_send st) = snd_unack (tcb_send st) + of_nat (?n + 1)"
    using inv syn fin by (simp add: sb_inv_def sb_base_def add.assoc)
  have ack: "ack_of (?n + 1) st (snd_next (tcb_send st))"
    using fits syn unfolding nxt ack_of_def by (simp add: sb_base_def)
  have bif: "sb_bytes_in_flight (ss_buf st) = of_nat ?n" by (simp add: all [symmetric])
  let ?rb = "rb_advance (sb_buffer (ss_buf st)) (of_nat ?n)"
  let ?st2 = "put_send (\<lambda>s. s\<lparr>snd_unack := snd_unack s + of_nat ?n\<rparr>)
    (put_buf (\<lambda>b. b\<lparr>sb_buffer := ?rb, sb_bytes_in_flight := - 1\<rparr>) st)"
  have data: "acknowledge_data dbg (snd_next (tcb_send st)) st = Inr (?st2, of_nat (?n + 1))"
    using acknowledge_data_any [OF inv syn ack, of dbg] rbi(3) by (simp add: bif)
  have "rb_inv ?rb" "rb_contents ?rb = []"
    using rb_advance_inv [OF rbi(1), of "of_nat ?n"] rb_advance_contents [OF rbi(1), of "of_nat ?n"] rbi(3)
    by (simp_all add: unat_of_nat_len)
  note rb = this empty_iff [OF this(1)]
  obtain w where w: "env_alarm_cancel env ?a (ss_world st) = Inr w" "winv w"
      "armed w = (armed (ss_world st))(?a := False)"
    using cancel_law [OF winv] by blast
  have one: "snd_unack (tcb_send st) + of_nat ?n + 1 = snd_next (tcb_send st)" unfolding nxt by (simp add: add.assoc)
  let ?st3 = "put_send (\<lambda>s. s\<lparr>snd_unack := snd_next (tcb_send st)\<rparr>)
    (put_buf (\<lambda>b. b\<lparr>sb_FIN := Acked, sb_buffer := ?rb, sb_bytes_in_flight := - 1\<rparr>) (st\<lparr>ss_world := w\<rparr>))"
  have "acknowledge_SYN dbg (snd_next (tcb_send st)) st = Inr st"
    "acknowledge_timer env ?st2 = Inr ?st2"
    "acknowledge_FIN dbg env (snd_next (tcb_send st)) ?st2 = Inr ?st3"
    using syn fin rb w one by (simp_all add: acknowledge_SYN_def acknowledge_timer_def acknowledge_FIN_def
        seq_equal_def DCHECK_ok)
  moreover have "SendBuffer_transmit dbg fresh env ?st3 = Inr ?st3"
    using syn by (simp add: SendBuffer_transmit_def SendBuffer_transmit_loop.simps)
  ultimately have "SendBuffer_acknowledge dbg fresh env (snd_next (tcb_send st)) st = Inr ?st3"
    using data by (simp add: SendBuffer_acknowledge_def)
  then show ?thesis using w rb(2) by simp
qed

end

section \<open>Properties\<close>


text \<open>A connection with three bytes and a FIN to send, to a network that records what it is given.\<close>

definition ex_env :: "byte list list tcp_env" where
  "ex_env = \<lparr>env_sendPacket = (\<lambda>src dst p bs w. Inr (w @ [bs], True)), env_now = (\<lambda>w. 0),
     env_createAlarm = (\<lambda>a w. w), env_alarm_set = (\<lambda>a t w. Inr w), env_alarm_update = (\<lambda>a t w. Inr w),
     env_alarm_cancel = (\<lambda>a w. Inr w)\<rparr>"

definition ex_send_buffer :: send_buffer where
  "ex_send_buffer = \<lparr>sb_buffer = (RingBuffer (\<lambda>i. of_nat i) (1024 * 256))\<lparr>rb_end := 3\<rparr>, sb_SYN = Acked,
     sb_FIN = Sent, sb_bytes_in_flight = 0, sb_source = IPAddress, sb_destination = IPAddress, sb_alarm = 0\<rparr>"

definition ex_v4 :: "byte \<Rightarrow> socket_address" where
  "ex_v4 x = SocketAddress \<lparr>ip_bytes = [10, 0, 0, x] @ replicate 12 0, ip_family = IP_V4\<rparr> 80"

definition ex_send_state :: "byte list list send_state" where
  "ex_send_state = \<lparr>ss_buf = ex_send_buffer,
     ss_tcb = ControlBlock\<lparr>cb_send := (cb_send ControlBlock)\<lparr>snd_unack := 1, snd_next := 5\<rparr>\<rparr>,
     ss_factory = SegmentFactory (ex_v4 1) (ex_v4 2), ss_world = []\<rparr>"

lemma ex_send_state_inv: "sb_inv ex_send_state" "sb_SYN (ss_buf ex_send_state) = Acked"
    "sb_contents ex_send_state = [0, 1, 2]"
proof -
  have 0: "[0..<3] = [0, 1, 2 :: nat]" by (simp add: upt_conv_Cons)
  have 1: "rb_contents ((RingBuffer (\<lambda>i. of_nat i) 262144)\<lparr>rb_end := 3\<rparr>) = [0, 1, 2]"
    by (simp add: rb_contents_def RingBuffer_def 0)
  show "sb_contents ex_send_state = [0, 1, 2]" using 1 by (simp add: ex_send_state_def ex_send_buffer_def)
  show "sb_inv ex_send_state" "sb_SYN (ss_buf ex_send_state) = Acked"
    using 1 by (simp_all add: sb_inv_def sb_base_def ex_send_state_def ex_send_buffer_def ControlBlock_def
        SegmentFactory_def ex_v4_def SocketAddress_def rb_inv_def RingBuffer_def ip_wf_def)
qed


text \<open>
  C36: sequence numbers are compared by their distance from \<open>send.initial\<close>, which is not modular.
  Once the acknowledged bytes pass \<open>2 ^ 32\<close>, a correct acknowledgement of data in flight looks
  older than \<open>send.unack\<close>, and the check in \<open>acknowledge\<close> aborts a debug build.
\<close>

theorem SendBuffer_acknowledge_after_wrap:
  assumes "sb_SYN (ss_buf st) = Acked" and "0 < k" and "k < 2 ^ 32"
    and "2 ^ 32 \<le> unat (snd_unack (tcb_send st) - snd_initial (tcb_send st)) + k"
  shows "SendBuffer_acknowledge True fresh env (snd_unack (tcb_send st) + of_nat k) st = Inl DCheckFailed"
proof -
  let ?u = "snd_unack (tcb_send st) - snd_initial (tcb_send st)"
  have "unat (?u + of_nat k) = (unat ?u + k) mod 2 ^ 32"
    using assms(3) by (simp add: unat_word_ariths unat_of_nat)
  also have "\<dots> = unat ?u + k - 2 ^ 32" using assms(3,4) unat_lt_32 [of ?u] by (simp add: mod_if)
  also have "\<dots> < unat ?u" using assms(2-4) by linarith
  finally have "\<not> seq_greaterOrEqual (snd_initial (tcb_send st)) (snd_unack (tcb_send st) + of_nat k)
      (snd_unack (tcb_send st))"
    by (simp add: seq_greaterOrEqual_def word_le_nat_alt algebra_simps)
  then show ?thesis using assms(1)
    by (simp add: SendBuffer_acknowledge_def acknowledge_SYN_def acknowledge_data_def DCHECK_def)
qed

theorem SendBuffer_acknowledge_after_wrap_witness:
  "SendBuffer_acknowledge True (\<lambda>_. 0) ex_env 2
     (put_send (\<lambda>s. s\<lparr>snd_unack := 0xFFFFFFFF, snd_initial := 0\<rparr>) ex_send_state) = Inl DCheckFailed"
proof -
  have two: "(4294967298 :: uint32) = 2" by simp
  show ?thesis using SendBuffer_acknowledge_after_wrap
    [of "put_send (\<lambda>s. s\<lparr>snd_unack := 0xFFFFFFFF, snd_initial := 0\<rparr>) ex_send_state" 3 "\<lambda>_. 0" ex_env]
    by (simp add: ex_send_state_def ex_send_buffer_def two)
qed

end
