(* ===== verification/Mock_Layers.thy ===== *)
theory Mock_Layers
  imports Send_Buffer
begin

text \<open>
  \<open>src/util/mock_alarm.{h,cpp}\<close>, \<open>mock_alarm_factory.{h,cpp}\<close> and \<open>mock_ip_layer.{h,cpp}\<close>: the
  layers the tests put below the transport layer. The clock moves only by \<open>elapse\<close>, and packets
  are parsed into a bounded queue of segments. A failed \<open>EXPECT_TRUE\<close> is recorded in the state
  and does not stop the run. The theory interprets the contract of alarms on the mock alarms, and
  that of the network of the transport layer on both.
\<close>

section \<open>Definitions\<close>

record mock_world = alarm_server +
  mf_expect_failed :: bool
  mq_queue :: "segment list"

definition kMaxQueueLength :: size_t where
  "kMaxQueueLength = 16"

definition MockAlarmFactory :: mock_world where
  "MockAlarmFactory =
     \<lparr>as_map = [], as_fresh = 0, as_alarms = (\<lambda>a. \<lparr>al_deadline = 0, al_token = None\<rparr>), as_now = 0,
      mf_expect_failed = False, mq_queue = []\<rparr>"

definition MockIPLayer :: "'a mock_world_scheme \<Rightarrow> 'a mock_world_scheme" where
  "MockIPLayer s = s\<lparr>mq_queue := []\<rparr>"

definition MockAlarmFactory_createAlarm ::
  "alarm_id \<Rightarrow> 'a mock_world_scheme \<Rightarrow> 'a mock_world_scheme" where
  "MockAlarmFactory_createAlarm a s = Alarm a s"

definition MockAlarmFactory_now :: "'a mock_world_scheme \<Rightarrow> time" where
  "MockAlarmFactory_now s = as_now s"

definition MockAlarmFactory_registerAlarm ::
  "alarm_id \<Rightarrow> 'a mock_world_scheme \<Rightarrow> 'a mock_world_scheme \<times> token" where
  "MockAlarmFactory_registerAlarm a s =
     as_register a (if TimeBase_ge (deadline s a) (as_now s) then s else s\<lparr>mf_expect_failed := True\<rparr>)"

definition MockAlarmFactory_unregisterAlarm ::
  "token \<Rightarrow> 'a mock_world_scheme \<Rightarrow> 'a mock_world_scheme res" where
  "MockAlarmFactory_unregisterAlarm t s = as_unregister t s"

definition MockAlarmFactory_runAlarmEvent ::
  "'a mock_world_scheme onAlarm \<Rightarrow> 'a mock_world_scheme \<Rightarrow> ('a mock_world_scheme \<times> bool) res option" where
  "MockAlarmFactory_runAlarmEvent onAlarm s =
     map_option (\<lambda>r. rbind r (\<lambda>s. Inr (s, False))) (alarm_loop onAlarm s)"

definition elapse_step :: "delta \<Rightarrow> 'a mock_world_scheme \<Rightarrow> delta" where
  "elapse_step delta s =
     (case as_map s of
        [] \<Rightarrow> delta
      | e # m \<Rightarrow> Delta_min delta (TimeBase_diff (fst e) (MockAlarmFactory_now s)))"

partial_function (option) MockAlarmFactory_elapse ::
  "'a mock_world_scheme onAlarm \<Rightarrow> delta \<Rightarrow> 'a mock_world_scheme \<Rightarrow> 'a mock_world_scheme res option" where
  "MockAlarmFactory_elapse onAlarm delta s =
     (if Delta_gt delta Delta_zero then
        Option.bind (MockAlarmFactory_runAlarmEvent onAlarm
            (s\<lparr>as_now := TimeBase_plus (as_now s) (elapse_step delta s)\<rparr>)) (\<lambda>r.
          case r of
            Inl e \<Rightarrow> Some (Inl e)
          | Inr p \<Rightarrow> MockAlarmFactory_elapse onAlarm (Delta_minus delta (elapse_step delta s)) (fst p))
      else Some (Inr s))"

declare MockAlarmFactory_elapse.simps [code]

definition MockAlarm_setImpl :: "'a mock_world_scheme setImpl" where
  "MockAlarm_setImpl a s = (let (s, t) = MockAlarmFactory_registerAlarm a s in put_token a t s)"

definition MockAlarm_cancelImpl :: "'a mock_world_scheme cancelImpl" where
  "MockAlarm_cancelImpl a s =
     (case al_token (as_alarms s a) of
        None \<Rightarrow> Inl UndefinedBehaviour
      | Some t \<Rightarrow> MockAlarmFactory_unregisterAlarm t s)"

definition MockAlarm_destroy :: "alarm_id \<Rightarrow> 'a mock_world_scheme \<Rightarrow> 'a mock_world_scheme res" where
  "MockAlarm_destroy a s = Alarm_cancel MockAlarm_cancelImpl a s"

definition MockIPLayer_sendPacket ::
  "bool \<Rightarrow> ip_address \<Rightarrow> ip_address \<Rightarrow> service_protocol \<Rightarrow> byte list \<Rightarrow> 'a mock_world_scheme \<Rightarrow>
     ('a mock_world_scheme \<times> bool) res" where
  "MockIPLayer_sendPacket dbg source destination proto buf s =
     (if length (mq_queue s) \<ge> unat kMaxQueueLength then Inr (s, False)
      else rbind (Segment_parse dbg source destination buf (of_nat (length buf))) (\<lambda>segment.
        rbind (Segment_copyData segment) (\<lambda>segment.
        Inr (s\<lparr>mq_queue := mq_queue s @ [segment]\<rparr>, True))))"

text \<open>The virtual methods the transport layer calls, on these classes.\<close>

definition mock_env :: "bool \<Rightarrow> 'a mock_world_scheme tcp_env" where
  "mock_env dbg =
     \<lparr>env_sendPacket = MockIPLayer_sendPacket dbg, env_now = MockAlarmFactory_now,
      env_createAlarm = MockAlarmFactory_createAlarm, env_alarm_set = Alarm_set dbg MockAlarm_setImpl,
      env_alarm_update = (\<lambda>a t. Alarm_update MockAlarm_setImpl MockAlarm_cancelImpl a t default_granularity),
      env_alarm_cancel = Alarm_cancel MockAlarm_cancelImpl\<rparr>"

section \<open>Contracts\<close>

lemma as_expect [simp]:
  "as_links St (s\<lparr>mf_expect_failed := b\<rparr>) = as_links St s" "as_base (s\<lparr>mf_expect_failed := b\<rparr>) = as_base s"
  "entries St (s\<lparr>mf_expect_failed := b\<rparr>) = entries St s"
  "as_unlinked St (s\<lparr>mf_expect_failed := b\<rparr>) = as_unlinked St s"
  by (simp_all add: as_links_def as_base_def entries_def as_unlinked_def fun_eq_iff)

lemma MockAlarm_setImpl_register:
  "\<exists>s'. MockAlarm_setImpl a s = put_token a (snd (as_register a s')) (fst (as_register a s')) \<and>
     (s' = s \<or> s' = s\<lparr>mf_expect_failed := True\<rparr>)"
  by (intro exI [of _ "if TimeBase_ge (deadline s a) (as_now s) then s else s\<lparr>mf_expect_failed := True\<rparr>"])
    (simp add: MockAlarm_setImpl_def MockAlarmFactory_registerAlarm_def case_prod_unfold Let_def)

interpretation mock: alarm_impl MockAlarm_setImpl MockAlarm_cancelImpl
proof unfold_locales
  fix St :: "token set" and s :: "'a mock_world_scheme" and a
  assume "as_unlinked St s a" "entries St s a = {}" "deadline s a \<noteq> 0" "int64 (deadline s a)"
  then show "as_inv St (MockAlarm_setImpl a s)"
    using MockAlarm_setImpl_register [of a s] register_links [of St s a]
      register_links [of St "s\<lparr>mf_expect_failed := True\<rparr>" a] by auto
next
  fix St :: "token set" and s :: "'a mock_world_scheme" and a t k
  assume un: "as_unlinked St s a" and t: "al_token (as_alarms s a) = Some t"
    and e: "entries St s a = {(k, t)}" and d: "deadline s a = 0"
  show "\<exists>s'. MockAlarm_cancelImpl a s = Inr s' \<and> as_inv St s' \<and> as_now s' = as_now s \<and>
      (\<forall>b. deadline s' b = deadline s b) \<and> set (as_map s') = set (as_map s) - {(k, t, a)}"
    using cancel_unregister [OF un e d] t
    by (auto simp: MockAlarm_cancelImpl_def MockAlarmFactory_unregisterAlarm_def)
qed (auto simp: MockAlarm_setImpl_def MockAlarmFactory_registerAlarm_def as_register_def)

lemma MockIPLayer_sendPacket_ok:
  assumes "tcp_packet bs"
  shows "\<exists>w' ok. MockIPLayer_sendPacket dbg src dst p bs w = Inr (w', ok) \<and>
    (\<exists>q. w' = w\<lparr>mq_queue := q\<rparr>) \<and> (ok \<longleftrightarrow> length (mq_queue w) < 16)"
proof (cases "length (mq_queue w) < 16")
  case True
  obtain s c d where bs: "bs = tcp_header s c @ d" "length bs \<le> 1480" using assms by (auto simp: tcp_packet_def)
  have n: "unat (of_nat (length bs) :: size_t) = length bs" using bs(2) by (intro unat_of_nat_len) simp
  have "unat (of_nat (length bs) - 20 :: size_t) = length d"
    using bs by (simp add: unat_of_nat_len)
  then show ?thesis
    using True parse_header [OF n _ bs(1), of dbg src dst] bs(2)
    by (auto simp: MockIPLayer_sendPacket_def kMaxQueueLength_def Segment_copyData_def mem_read_ok)
next
  case False
  have "w = w\<lparr>mq_queue := mq_queue w\<rparr>" by simp
  then have "\<exists>q. w = w\<lparr>mq_queue := q\<rparr>" by (rule exI)
  moreover have "MockIPLayer_sendPacket dbg src dst p bs w = Inr (w, False)"
    using False by (simp add: MockIPLayer_sendPacket_def kMaxQueueLength_def)
  ultimately show ?thesis using False by blast
qed

lemma alarms_queue [simp]: "alarms_ok (w\<lparr>mq_queue := q\<rparr>) = alarms_ok w" "alarms_armed (w\<lparr>mq_queue := q\<rparr>) = alarms_armed w"
  by (simp_all add: alarms_ok_def alarms_armed_def as_inv_def as_base_def as_links_def entries_def fun_eq_iff)

interpretation mock_net: tcp_network "mock_env dbg" alarms_ok alarms_armed for dbg
proof unfold_locales
  fix w :: "'a mock_world_scheme" and bs src dst
  assume "alarms_ok w" and "tcp_packet bs"
  then show "\<exists>w' ok. env_sendPacket (mock_env dbg) src dst TCP bs w = Inr (w', ok) \<and> alarms_ok w' \<and>
      alarms_armed w' = alarms_armed w"
    using MockIPLayer_sendPacket_ok [of bs dbg src dst TCP w] by (auto simp: mock_env_def)
qed (simp_all add: mock_env_def MockAlarmFactory_now_def mock.second_set mock.second_update mock.second_cancel
  MockAlarmFactory_createAlarm_def Alarm_fresh flip: granularity)

section \<open>Time passes\<close>

lemma elapse_step_value:
  assumes "as_inv {} s" and "due s = {}" and "0 < delta" and "0 \<le> as_now s" and "as_now s + delta \<le> 2 ^ 62"
  shows "0 < elapse_step delta s" "elapse_step delta s \<le> delta"
proof -
  have "0 < elapse_step delta s \<and> elapse_step delta s \<le> delta"
  proof (cases "as_map s")
    case (Cons e m)
    then have "e \<in> set (as_map s)" by simp
    then have "e \<notin> due s \<Longrightarrow> as_now s < fst e" "int64 (fst e)"
      using assms(1) by (simp_all add: due_def as_inv_def as_base_def not_le)
    with assms(2) have "as_now s < fst e" "int64 (fst e)" by simp_all
    then have "TimeBase_diff (fst e) (as_now s) = fst e - as_now s"
      using assms(4) by (simp add: TimeBase_diff_def wrap64_id int64_def)
    with Cons \<open>as_now s < fst e\<close> show ?thesis
      using assms(3) by (simp add: elapse_step_def Delta_min_def Delta_lt_def MockAlarmFactory_now_def)
  qed (use assms(3) in \<open>simp add: elapse_step_def\<close>)
  then show "0 < elapse_step delta s" "elapse_step delta s \<le> delta" by simp_all
qed

lemma elapse_ok:
  assumes ok: "delegate_ok lo (2 ^ 62) onAlarm" and lo: "0 \<le> lo"
    and "lo \<le> as_now s" and "0 \<le> delta" and "as_now s + delta \<le> 2 ^ 62" and "as_inv {} s" and "due s = {}"
  shows "\<exists>s'. MockAlarmFactory_elapse onAlarm delta s = Some (Inr s') \<and> as_inv {} s' \<and>
    as_now s' = as_now s + delta \<and> due s' = {}"
  using assms(3-)
proof (induction "nat delta" arbitrary: delta s rule: less_induct)
  case less
  show ?case
  proof (cases "delta = 0")
    case True
    then show ?thesis using less.prems
      by (subst MockAlarmFactory_elapse.simps) (simp add: Delta_gt_def Delta_lt_def Delta_zero_def)
  next
    case False
    let ?step = "elapse_step delta s"
    have pos: "0 < delta" "0 \<le> as_now s" using less.prems(1,2) lo False by simp_all
    note step = elapse_step_value [OF less.prems(4,5) pos less.prems(3)]
    let ?s = "s\<lparr>as_now := as_now s + ?step\<rparr>"
    have now: "TimeBase_plus (as_now s) ?step = as_now s + ?step" "Delta_minus delta ?step = delta - ?step"
      using less.prems(3) step pos by (simp_all add: TimeBase_plus_def Delta_minus_def wrap64_id int64_def)
    obtain s1 where s1: "alarm_loop onAlarm ?s = Some (Inr s1)" "as_inv {} s1" "as_now s1 = as_now s + ?step" "due s1 = {}"
      using alarm_loop_ok [OF ok, of ?s] less.prems(1,3,4) step by auto
    have "nat (delta - ?step) < nat delta" using step by simp
    from less.hyps [OF this _ _ _ s1(2,4)] s1(3) less.prems(1,3) step
    have "\<exists>s'. MockAlarmFactory_elapse onAlarm (delta - ?step) s1 = Some (Inr s') \<and> as_inv {} s' \<and>
      as_now s' = as_now s + delta \<and> due s' = {}" by simp
    moreover have "MockAlarmFactory_elapse onAlarm delta s = MockAlarmFactory_elapse onAlarm (delta - ?step) s1"
    proof -
      have "Delta_gt delta Delta_zero" using pos(1) by (simp add: Delta_gt_def Delta_lt_def Delta_zero_def)
      then show ?thesis
        by (subst MockAlarmFactory_elapse.simps) (simp only: now MockAlarmFactory_runAlarmEvent_def s1(1)
            if_True option.map rbind_Inr bind.bind_lunit sum.case fst_conv)
    qed
    ultimately show ?thesis by (simp only:)
  qed
qed

section \<open>Properties\<close>

text \<open>
  C13: letting time pass in a test ends: if no delegate arms an alarm that is already due,
  \<open>elapse\<close> returns, the clock has advanced by exactly the given time, every alarm due by then has
  been fired, and the alarms are consistent.
\<close>

theorem MockAlarmFactory_elapse_returns:
  assumes "delegate_ok lo (2 ^ 62) onAlarm" and "0 \<le> lo" and "lo \<le> as_now s" and "0 \<le> delta"
    and "as_now s + delta \<le> 2 ^ 62" and "as_inv {} s" and "\<forall>e \<in> set (as_map s). as_now s < fst e"
  shows "\<exists>s'. MockAlarmFactory_elapse onAlarm delta s = Some (Inr s') \<and> as_inv {} s' \<and>
    as_now s' = as_now s + delta \<and> (\<forall>e \<in> set (as_map s'). as_now s' < fst e)"
proof -
  have "due s = {}" using assms(7) by (force simp: due_def)
  from elapse_ok [OF assms(1-6) this] show ?thesis by (force simp: due_def)
qed

text \<open>The periodic delegate of the witness arms its alarm again one second later.\<close>

definition ex_rearm :: "mock_world onAlarm" where
  "ex_rearm a s = Alarm_set True MockAlarm_setImpl a (as_now s + 1000000) s"

lemma ex_rearm_ok: "delegate_ok 0 (2 ^ 62) ex_rearm"
  unfolding delegate_ok_def
proof (intro allI impI, elim conjE)
  fix a t and s :: mock_world
  assume now: "0 \<le> as_now s" "as_now s \<le> 2 ^ 62" and inv: "as_inv {t} s" and d: "deadline s a = 0"
    and t: "t \<in> entry_token ` set (as_map s)"
  have "as_now s + 1000000 \<noteq> 0" "int64 (as_now s + 1000000)" using now by (simp_all add: int64_def)
  from mock.set_ok [OF inv d this, of True] obtain s' where
    s': "ex_rearm a s = Inr s'" "as_inv {t} s'" "as_now s' = as_now s"
      "set (as_map s') = insert (as_now s + 1000000, as_fresh s, a) (set (as_map s))"
    unfolding ex_rearm_def by blast
  have "due s' \<subseteq> due s" using s'(3,4) by (auto simp: due_def)
  moreover have "t \<in> entry_token ` set (as_map s')" using t unfolding s'(4) by simp
  ultimately show "\<exists>s'. ex_rearm a s = Inr s' \<and> as_inv {t} s' \<and> as_now s' = as_now s \<and>
      t \<in> entry_token ` set (as_map s') \<and> due s' \<subseteq> due s"
    using s' by blast
qed

theorem MockAlarmFactory_elapse_returns_witness:
  "\<exists>s s'. Alarm_set True MockAlarm_setImpl 4 1000000 (MockAlarmFactory_createAlarm 4 MockAlarmFactory) = Inr s \<and>
     MockAlarmFactory_elapse ex_rearm 3500000 s = Some (Inr s') \<and> as_now s' = 3500000"
proof -
  let ?s = "MockAlarmFactory_createAlarm 4 MockAlarmFactory"
  have inv: "as_inv {} ?s" "deadline ?s 4 = 0" "as_map ?s = []" "as_now ?s = 0"
    by (simp_all add: MockAlarmFactory_createAlarm_def MockAlarmFactory_def Alarm_def as_inv_def as_base_def
        as_links_def entries_def TimeBase_zero_def)
  obtain s where s: "Alarm_set True MockAlarm_setImpl 4 1000000 ?s = Inr s" "as_inv {} s" "as_now s = 0"
      "\<forall>e \<in> set (as_map s). as_now s < fst e"
    using mock.set_ok [OF inv(1,2), of 1000000 True] inv(3,4) by (auto simp: int64_def)
  have "\<exists>s'. MockAlarmFactory_elapse ex_rearm 3500000 s = Some (Inr s') \<and> as_now s' = 3500000"
    using MockAlarmFactory_elapse_returns [OF ex_rearm_ok _ _ _ _ s(2,4), of 3500000] s(3) by auto
  with s(1) show ?thesis by blast
qed


text \<open>The connection of the witness: three bytes sent and none acknowledged, the timer not set.\<close>

definition ex_mock_state :: "mock_world send_state" where
  "ex_mock_state = \<lparr>ss_buf = ex_send_buffer\<lparr>sb_FIN := CtlNone, sb_bytes_in_flight := 3\<rparr>,
     ss_tcb = ControlBlock\<lparr>cb_send := (cb_send ControlBlock)\<lparr>snd_unack := 1, snd_next := 4\<rparr>\<rparr>,
     ss_factory = SegmentFactory (ex_v4 1) (ex_v4 2), ss_world = MockAlarmFactory\<rparr>"

lemma ex_mock_state_ok: "sb_inv ex_mock_state" "alarms_ok (ss_world ex_mock_state)"
    "sb_contents ex_mock_state = [0, 1, 2]" "\<not> alarms_armed (ss_world ex_mock_state) 0"
proof -
  show c: "sb_contents ex_mock_state = [0, 1, 2]"
    using ex_send_state_inv(3) by (simp add: ex_mock_state_def ex_send_state_def)
  have "rb_inv (sb_buffer ex_send_buffer)" "rb_size (sb_buffer ex_send_buffer) = 262144"
    using ex_send_state_inv(1) by (simp_all add: sb_inv_def ex_send_state_def)
  with c show "sb_inv ex_mock_state"
    by (simp add: sb_inv_def sb_base_def ex_mock_state_def ControlBlock_def SegmentFactory_def ex_v4_def
        SocketAddress_def ip_wf_def ex_send_buffer_def)
  show "alarms_ok (ss_world ex_mock_state)" "\<not> alarms_armed (ss_world ex_mock_state) 0"
    by (simp_all add: ex_mock_state_def MockAlarmFactory_def alarms_ok_def alarms_armed_def as_inv_def as_base_def
        as_links_def entries_def)
qed


text \<open>
  C14: closing the sending side: when everything is in flight and the peer acknowledges the FIN,
  the buffer is empty, everything is acknowledged up to \<open>send.next\<close> and the retransmission timer is
  off; \<open>bytes_in_flight_\<close> has wrapped around to its largest value, since the FIN is subtracted from
  a count of data bytes.
\<close>

theorem SendBuffer_FIN_acknowledged:
  assumes "sb_inv st" and "alarms_ok (ss_world st)" and "sb_SYN (ss_buf st) = Acked" and "sb_FIN (ss_buf st) = Sent"
    and "unat (sb_bytes_in_flight (ss_buf st)) = length (sb_contents st)"
    and "unat (snd_unack (tcb_send st) - snd_initial (tcb_send st)) + length (sb_contents st) + 1 < 2 ^ 32"
  shows "\<exists>st'. SendBuffer_acknowledge dbg fresh (mock_env dbg) (snd_next (tcb_send st)) st = Inr st' \<and>
    SendBuffer_FIN_acked (ss_buf st') \<and> sb_contents st' = [] \<and>
    snd_unack (tcb_send st') = snd_next (tcb_send st') \<and>
    \<not> alarms_armed (ss_world st') (sb_alarm (ss_buf st)) \<and>
    unat (sb_bytes_in_flight (ss_buf st')) = 2 ^ 64 - 1"
proof -
  have "unat (- 1 :: size_t) = 2 ^ 64 - 1" by (simp add: unsigned_minus_1_eq_mask mask_eq_exp_minus_1)
  then show ?thesis
    using mock_net.acknowledge_FIN_ok [OF assms, of dbg fresh dbg] unfolding SendBuffer_FIN_acked_def
    by (metis fun_upd_same)
qed

theorem SendBuffer_FIN_acknowledged_witness:
  "\<exists>st'. SendBuffer_acknowledge True (\<lambda>_. 0) (mock_env True) 5
      (put_buf (\<lambda>b. b\<lparr>sb_FIN := Sent\<rparr>) (put_send (\<lambda>s. s\<lparr>snd_next := 5\<rparr>) ex_mock_state)) = Inr st' \<and>
     SendBuffer_FIN_acked (ss_buf st') \<and> sb_contents st' = []"
proof -
  let ?st = "put_buf (\<lambda>b. b\<lparr>sb_FIN := Sent\<rparr>) (put_send (\<lambda>s. s\<lparr>snd_next := 5\<rparr>) ex_mock_state)"
  have b: "sb_bytes_in_flight (ss_buf ?st) = 3" "sb_SYN (ss_buf ?st) = Acked" "sb_FIN (ss_buf ?st) = Sent"
    "snd_unack (tcb_send ?st) = 1" "snd_initial (tcb_send ?st) = 0" "snd_next (tcb_send ?st) = 5"
    by (simp_all add: ex_mock_state_def ex_send_buffer_def ControlBlock_def)
  have "sb_inv ?st" using ex_mock_state_ok(1,3) b unfolding sb_inv_def sb_base_def by simp
  moreover have "alarms_ok (ss_world ?st)" "sb_contents ?st = [0, 1, 2]" using ex_mock_state_ok(2,3) by simp_all
  ultimately show ?thesis
    using SendBuffer_FIN_acknowledged [of ?st True "\<lambda>_. 0"] b by auto
qed

end
