(* ===== verification/Ether.thy ===== *)
theory Ether
  imports Epoll_Server Ip_Address
begin

text \<open>
  \<open>src/ether/\<close>: MAC addresses, devices and the device manager. The world extends the event loop
  with the device manager. A device is known by its name, which is the key of \<open>device_list_\<close>; the
  unordered map is the list of its entries in the order the container iterates them.

  Parameters: \<open>ether_aton\<close> and \<open>ether_ntoa\<close> of the C library, the system calls behind
  \<open>fromDeviceName\<close>, and the results of the libpcap calls. The bodies of \<open>sendFrame\<close>,
  \<open>onReadable\<close> and \<open>addDevice\<close> are left open in the code and do nothing.
\<close>

section \<open>MAC addresses\<close>

definition kMacAddressLength :: size_t where "kMacAddressLength = 6"
definition kEtherDataLengthMax :: size_t where "kEtherDataLengthMax = 1500"
definition kEtherHeaderLength :: size_t where "kEtherHeaderLength = kMacAddressLength * 2 + 2"
definition kEtherFrameLengthMax :: size_t where
  "kEtherFrameLengthMax = kEtherHeaderLength + kEtherDataLengthMax"

record mac_address =
  mac_is_spec :: bool
  mac_octets :: "byte list"

text \<open>A default initialised address keeps the bytes its memory had.\<close>

definition MacAddress :: "byte list \<Rightarrow> mac_address" where
  "MacAddress junk = \<lparr>mac_is_spec = False, mac_octets = junk\<rparr>"

text \<open>The value initialised address \<open>{}\<close>.\<close>

definition MacAddress_empty :: mac_address where
  "MacAddress_empty = \<lparr>mac_is_spec = False, mac_octets = replicate 6 0\<rparr>"

definition MacAddress_ether_addr :: "byte list \<Rightarrow> mac_address" where
  "MacAddress_ether_addr addr = \<lparr>mac_is_spec = True, mac_octets = addr\<rparr>"

definition MacAddress_reader :: "data_reader \<Rightarrow> (data_reader \<times> mac_address) res" where
  "MacAddress_reader reader =
     rbind (DataReader_readBytes reader kMacAddressLength) (\<lambda>(reader, v).
       Inr (reader, \<lparr>mac_is_spec = True, mac_octets = (case v of None \<Rightarrow> replicate 6 0 | Some bs \<Rightarrow> bs)\<rparr>))"

definition MacAddress_text :: "(string \<Rightarrow> byte list option) \<Rightarrow> string \<Rightarrow> mac_address" where
  "MacAddress_text ether_aton text =
     (case ether_aton text of
        None \<Rightarrow> \<lparr>mac_is_spec = False, mac_octets = replicate 6 0\<rparr>
      | Some bs \<Rightarrow> \<lparr>mac_is_spec = True, mac_octets = bs\<rparr>)"

definition MacAddress_broadcastAddress :: "(string \<Rightarrow> byte list option) \<Rightarrow> mac_address" where
  "MacAddress_broadcastAddress ether_aton = MacAddress_text ether_aton ''FF:FF:FF:FF:FF:FF''"

definition MacAddress_writeTo :: "mac_address \<Rightarrow> data_writer \<Rightarrow> data_writer res" where
  "MacAddress_writeTo a writer =
     rbind (DataWriter_writeBytes writer (mac_octets a) kMacAddressLength) (\<lambda>(writer, _). Inr writer)"

definition MacAddress_toString :: "(byte list \<Rightarrow> string) \<Rightarrow> mac_address \<Rightarrow> string" where
  "MacAddress_toString ether_ntoa a = ether_ntoa (mac_octets a)"

definition MacAddress_isSpecified :: "mac_address \<Rightarrow> bool" where
  "MacAddress_isSpecified a = mac_is_spec a"

definition MacAddress_isBroadcast :: "mac_address \<Rightarrow> bool" where
  "MacAddress_isBroadcast a = list_all (\<lambda>i. i = 0xff) (mac_octets a)"

definition MacAddress_eq :: "mac_address \<Rightarrow> mac_address \<Rightarrow> bool" where
  "MacAddress_eq lhs rhs \<longleftrightarrow>
     take (unat kMacAddressLength) (mac_octets lhs) = take (unat kMacAddressLength) (mac_octets rhs)"

definition MacAddress_neq :: "mac_address \<Rightarrow> mac_address \<Rightarrow> bool" where
  "MacAddress_neq lhs rhs \<longleftrightarrow> \<not> MacAddress_eq lhs rhs"

text \<open>
  \<open>fromDeviceName\<close>: \<open>sock\<close> is the descriptor \<open>socket\<close> returns, \<open>ioctl fd name\<close> the returned value
  with the family and the 14 bytes of the hardware address stored. \<open>ARPHRD_ETHER\<close> is 1, the
  request holds names of up to 15 characters.
\<close>

definition MacAddress_fromDeviceName ::
  "int \<Rightarrow> (int \<Rightarrow> string \<Rightarrow> int \<times> int \<times> byte list) \<Rightarrow> string \<Rightarrow> mac_address" where
  "MacAddress_fromDeviceName sock ioctl device_name =
     (if \<not> length device_name < 16 then MacAddress_empty
      else if sock = - 1 then MacAddress_empty
      else let (rv, family, sa_data) = ioctl sock device_name in
        if rv = - 1 then MacAddress_empty
        else if family \<noteq> 1 then MacAddress_empty
        else MacAddress_ether_addr (take 6 sa_data))"

section \<open>Devices\<close>

record device =
  dev_name :: string
  dev_cb :: "nat option"
  dev_buffer :: "byte list"
  dev_mac :: mac_address
  dev_peer :: mac_address
  dev_ip :: ip_address

text \<open>The constructor; the two addresses come from \<open>fromDeviceName\<close> of their classes.\<close>

definition Device ::
  "(nat \<Rightarrow> byte) \<Rightarrow> (string \<Rightarrow> mac_address) \<Rightarrow> (string \<Rightarrow> ip_address res) \<Rightarrow> string \<Rightarrow> device res" where
  "Device fresh mac_fromDeviceName ip_fromDeviceName device_name =
     rbind (ip_fromDeviceName device_name) (\<lambda>ip.
     Inr \<lparr>dev_name = device_name, dev_cb = None, dev_buffer = map fresh [0..<unat kEtherFrameLengthMax],
          dev_mac = mac_fromDeviceName device_name, dev_peer = MacAddress (map fresh [1514..<1520]),
          dev_ip = ip\<rparr>)"

definition Device_setCallback :: "nat \<Rightarrow> device \<Rightarrow> device" where
  "Device_setCallback cb d = d\<lparr>dev_cb := Some cb\<rparr>"

definition Device_getIpAddress :: "device \<Rightarrow> ip_address" where
  "Device_getIpAddress d = dev_ip d"

definition Device_getDeviceName :: "device \<Rightarrow> string" where
  "Device_getDeviceName d = dev_name d"

definition Device_sendFrame_to :: "byte list \<Rightarrow> size_t \<Rightarrow> mac_address \<Rightarrow> device \<Rightarrow> device" where
  "Device_sendFrame_to buf len dst d = d"

definition Device_sendFrame :: "byte list \<Rightarrow> size_t \<Rightarrow> device \<Rightarrow> device" where
  "Device_sendFrame buf len d = Device_sendFrame_to buf len (dev_peer d) d"

definition Device_onReadable :: "device \<Rightarrow> device" where
  "Device_onReadable d = d"

text \<open>
  \<open>decodeFrame\<close>. The callback is a virtual method: \<open>onReceive cb device buffer length\<close> on the rest
  of the state.
\<close>

definition Device_learn_peer :: "mac_address \<Rightarrow> device \<Rightarrow> device" where
  "Device_learn_peer source d =
     (if \<not> MacAddress_isSpecified (dev_peer d) \<and> \<not> MacAddress_isBroadcast source
      then d\<lparr>dev_peer := source\<rparr> else d)"

definition Device_decodeFrame ::
  "(nat \<Rightarrow> device \<Rightarrow> byte list \<Rightarrow> size_t \<Rightarrow> 's \<Rightarrow> 's res) \<Rightarrow> byte list \<Rightarrow> size_t \<Rightarrow> device \<times> 's \<Rightarrow>
     (device \<times> 's) res" where
  "Device_decodeFrame onReceive data len ds =
     (let (d, s) = ds in
      case dev_cb d of
        None \<Rightarrow> Inr (d, s)
      | Some cb \<Rightarrow>
          rbind (MacAddress_reader (DataReader data len)) (\<lambda>(reader, destination).
          rbind (MacAddress_reader reader) (\<lambda>(reader, source).
          if \<not> MacAddress_isBroadcast destination \<and> MacAddress_neq destination (dev_mac d) then Inr (d, s)
          else let d = Device_learn_peer source d in
            rbind (DataReader_readUInt16 reader) (\<lambda>(reader, type).
            case type of
              None \<Rightarrow> Inr (d, s)
            | Some type \<Rightarrow>
                if type = 0x0806 then Inr (d, s)
                else if type = 0x0800 then
                  rbind (onReceive cb d (DataReader_buffer reader) (DataReader_length reader) s) (\<lambda>s. Inr (d, s))
                else Inr (d, s)))))"

section \<open>The device manager\<close>

record ether_world = epoll_server +
  dm_device_list :: "(string \<times> device) list"
  dm_devices :: "string list"
  dm_ip_set :: "ip_address list"

definition DeviceManager_addDevice :: "string \<Rightarrow> 'a ether_world_scheme \<Rightarrow> 'a ether_world_scheme" where
  "DeviceManager_addDevice device s = s"

text \<open>The constructor; \<open>pcap_findalldevs\<close> is the returned value and the list of devices found.\<close>

definition DeviceManager :: "int \<times> string list \<Rightarrow> 'a ether_world_scheme \<Rightarrow> 'a ether_world_scheme" where
  "DeviceManager pcap_findalldevs s =
     (let s = s\<lparr>dm_device_list := [], dm_devices := [], dm_ip_set := []\<rparr> in
      if fst pcap_findalldevs \<noteq> 0 then s
      else fold DeviceManager_addDevice (snd pcap_findalldevs) s)"

definition DeviceManager_findDevice :: "string \<Rightarrow> 'a ether_world_scheme \<Rightarrow> device option" where
  "DeviceManager_findDevice device_name s = map_of (dm_device_list s) device_name"

definition DeviceManager_findDefaultDevice :: "'a ether_world_scheme \<Rightarrow> device option" where
  "DeviceManager_findDefaultDevice s =
     (case dm_device_list s of [] \<Rightarrow> None | (name, d) # ds \<Rightarrow> Some d)"

definition DeviceManager_getAllDevices :: "'a ether_world_scheme \<Rightarrow> string list" where
  "DeviceManager_getAllDevices s = dm_devices s"

definition DeviceManager_setCallback :: "nat \<Rightarrow> 'a ether_world_scheme \<Rightarrow> 'a ether_world_scheme" where
  "DeviceManager_setCallback callback s =
     s\<lparr>dm_device_list := map (\<lambda>(name, d). (name, Device_setCallback callback d)) (dm_device_list s)\<rparr>"

text \<open>
  \<open>activateDevice\<close>: the results of \<open>pcap_activate\<close>, \<open>pcap_datalink\<close> and \<open>pcap_setnonblock\<close>.
  \<open>DLT_EN10MB\<close> is 1.
\<close>

definition DeviceManager_activateDevice :: "int \<Rightarrow> int \<Rightarrow> int \<Rightarrow> bool" where
  "DeviceManager_activateDevice pcap_activate pcap_datalink pcap_setnonblock =
     (if pcap_activate \<noteq> 0 \<and> pcap_activate < 0 then False
      else if pcap_datalink < 0 then False
      else if pcap_datalink \<noteq> 1 then False
      else if pcap_setnonblock < 0 then False
      else True)"

text \<open>The lookup in the unordered set compares hashes first.\<close>

definition DeviceManager_hasIpAddress :: "ip_address \<Rightarrow> 'a ether_world_scheme \<Rightarrow> bool" where
  "DeviceManager_hasIpAddress address s =
     list_ex (\<lambda>ip. IpAddressHash ip = IpAddressHash address \<and> IPAddress_eq ip address) (dm_ip_set s)"

definition DeviceManager_broadcastFrame ::
  "byte list \<Rightarrow> size_t \<Rightarrow> 'a ether_world_scheme \<Rightarrow> 'a ether_world_scheme" where
  "DeviceManager_broadcastFrame buf len s =
     s\<lparr>dm_device_list := map (\<lambda>(name, d). (name, Device_sendFrame buf len d)) (dm_device_list s)\<rparr>"

section \<open>Lemmas\<close>

lemma mac_length [simp]: "unat kMacAddressLength = 6"
  by (simp add: kMacAddressLength_def)

lemma replicate_6: "replicate 6 x = [x, x, x, x, x, x]"
  by (simp add: eval_nat_numeral)

lemma MacAddress_reader_ok:
  assumes "dr_inv r" and "unat (dr_pos r) + 6 \<le> length (dr_buffer r)"
  shows "MacAddress_reader r = Inr (r\<lparr>dr_pos := dr_pos r + 6\<rparr>,
    \<lparr>mac_is_spec = True, mac_octets = take 6 (drop (unat (dr_pos r)) (dr_buffer r))\<rparr>)"
    and "dr_inv (r\<lparr>dr_pos := dr_pos r + 6\<rparr>)"
  using readBytes_ok [OF assms(1), of 6] assms(2)
  by (simp_all add: MacAddress_reader_def kMacAddressLength_def)

lemma MacAddress_reader_short:
  assumes "dr_inv r" and "length (dr_buffer r) < unat (dr_pos r) + 6"
  shows "MacAddress_reader r = Inr (r, \<lparr>mac_is_spec = True, mac_octets = replicate 6 0\<rparr>)"
  using readBytes_short [OF assms(1), of 6] assms(2)
  by (simp add: MacAddress_reader_def kMacAddressLength_def)

lemma broadcast_iff: "length (mac_octets a) = 6 \<Longrightarrow> MacAddress_isBroadcast a \<longleftrightarrow> mac_octets a = replicate 6 0xff"
  by (auto simp: MacAddress_isBroadcast_def list_all_iff intro!: replicate_eqI)

lemma reader_at:
  fixes frame :: "byte list"
  assumes "length frame \<le> 2 ^ 62" and "unat p \<le> length frame"
  shows "dr_inv \<lparr>dr_buffer = frame, dr_capacity = of_nat (length frame), dr_pos = p\<rparr>"
  using assms by (simp add: dr_inv_def unat_of_nat_len word_le_nat_alt)

lemma decode_full:
  assumes len: "length dst = 6" "length src = 6" "length payload \<le> 2 ^ 61"
    and frame: "frame = dst @ src @ rev (host_bytes16 type) @ payload"
    and mac: "length (mac_octets (dev_mac d)) = 6" and cb: "dev_cb d = Some cb"
    and d': "d' = Device_learn_peer \<lparr>mac_is_spec = True, mac_octets = src\<rparr> d"
  shows "Device_decodeFrame onReceive frame (of_nat (length frame)) (d, s) =
    (if dst = replicate 6 0xff \<or> dst = mac_octets (dev_mac d) then
       if type = 0x0800 then
         rbind (onReceive cb d' payload (of_nat (length payload)) s) (\<lambda>s. Inr (d', s))
       else Inr (d', s)
     else Inr (d, s))"
proof -
  define rd where "rd p = \<lparr>dr_buffer = frame, dr_capacity = of_nat (length frame), dr_pos = p\<rparr>" for p
  have lf: "length frame = 14 + length payload" using len frame by simp
  have inv: "dr_inv (rd p)" if "unat p \<le> 14" for p
    using reader_at [of frame p] lf len(3) that unfolding rd_def by simp
  have step: "(rd p)\<lparr>dr_pos := q\<rparr> = rd q" for p q by (simp add: rd_def)
  have at: "dr_pos (rd p) = p" "dr_buffer (rd p) = frame" for p by (simp_all add: rd_def)
  have r: "DataReader frame (of_nat (length frame)) = rd 0" by (simp add: rd_def DataReader_def)
  have 1: "MacAddress_reader (rd 0) = Inr (rd 6, \<lparr>mac_is_spec = True, mac_octets = dst\<rparr>)"
    using MacAddress_reader_ok(1) [OF inv, of 0] lf len(1) frame by (simp add: step at)
  have 2: "MacAddress_reader (rd 6) = Inr (rd 12, \<lparr>mac_is_spec = True, mac_octets = src\<rparr>)"
    using MacAddress_reader_ok(1) [OF inv, of 6] lf len(1,2) frame by (simp add: step at)
  have 3: "DataReader_readUInt16 (rd 12) = Inr (rd 14, Some type)"
    using u16.get_field(1) [OF inv, of 12 type payload] len(1,2) frame by (simp add: step at)
  have 4: "DataReader_buffer (rd 14) = payload" "DataReader_length (rd 14) = of_nat (length payload)"
    using len(1,2) frame lf by (simp_all add: DataReader_buffer_def DataReader_length_def rd_def)
  have 5: "MacAddress_isBroadcast \<lparr>mac_is_spec = True, mac_octets = dst\<rparr> \<longleftrightarrow> dst = replicate 6 0xff"
    using broadcast_iff [of "\<lparr>mac_is_spec = True, mac_octets = dst\<rparr>"] len(1) by simp
  have 6: "MacAddress_neq \<lparr>mac_is_spec = True, mac_octets = dst\<rparr> (dev_mac d) \<longleftrightarrow> dst \<noteq> mac_octets (dev_mac d)"
    using len(1) mac by (simp add: MacAddress_neq_def MacAddress_eq_def)
  show ?thesis
    unfolding Device_decodeFrame_def r using cb by (simp add: 1 2 3 4 5 6 d' Let_def)
qed

section \<open>Properties\<close>

text \<open>
  C24: a device with a callback hands a well formed Ethernet frame to the layer above exactly when
  it is addressed to the device or to everyone and carries IPv4; what it hands over is the payload,
  all of it. An accepted frame also teaches the device the address of its peer, once. Any other
  frame changes nothing and is dropped.
\<close>

theorem Device_decodeFrame_delivers:
  assumes "length dst = 6" and "length src = 6" and "length payload \<le> 2 ^ 61"
    and "length (mac_octets (dev_mac d)) = 6"
    and "frame = dst @ src @ rev (host_bytes16 type) @ payload"
    and "accepted \<longleftrightarrow> dev_cb d \<noteq> None \<and> (dst = replicate 6 0xff \<or> dst = mac_octets (dev_mac d))"
    and "d' = (if accepted \<and> \<not> mac_is_spec (dev_peer d) \<and> src \<noteq> replicate 6 0xff
      then d\<lparr>dev_peer := \<lparr>mac_is_spec = True, mac_octets = src\<rparr>\<rparr> else d)"
  shows "Device_decodeFrame onReceive frame (of_nat (length frame)) (d, s) =
    (if accepted \<and> type = 0x0800 then
       rbind (onReceive (the (dev_cb d)) d' payload (of_nat (length payload)) s) (\<lambda>s. Inr (d', s))
     else Inr (d', s))"
proof (cases "dev_cb d")
  case None
  then show ?thesis using assms(6,7) by (simp add: Device_decodeFrame_def)
next
  case (Some cb)
  have "d' = (if accepted then Device_learn_peer \<lparr>mac_is_spec = True, mac_octets = src\<rparr> d else d)"
    using assms(2,7) broadcast_iff [of "\<lparr>mac_is_spec = True, mac_octets = src\<rparr>"]
    by (simp add: Device_learn_peer_def MacAddress_isSpecified_def)
  then show ?thesis
    using decode_full [OF assms(1,2,3,5,4) Some refl, of onReceive s] assms(6) Some by simp
qed

text \<open>The device of the witnesses, and a layer above that collects what it is given.\<close>

definition ex_device :: device where
  "ex_device = \<lparr>dev_name = ''veth0'', dev_cb = Some 1, dev_buffer = [],
     dev_mac = MacAddress_ether_addr [2, 0, 0, 0, 0, 1], dev_peer = MacAddress (replicate 6 0),
     dev_ip = IPAddress\<rparr>"

definition ex_collect :: "nat \<Rightarrow> device \<Rightarrow> byte list \<Rightarrow> size_t \<Rightarrow> byte list list \<Rightarrow> byte list list res" where
  "ex_collect cb d buf len s = Inr (s @ [take (unat len) buf])"

theorem Device_decodeFrame_delivers_witness:
  "Device_decodeFrame ex_collect
     ([2, 0, 0, 0, 0, 1] @ [2, 0, 0, 0, 0, 9] @ rev (host_bytes16 0x0800) @ [0x45, 0, 7]) 17 (ex_device, []) =
   Inr (ex_device\<lparr>dev_peer := MacAddress_ether_addr [2, 0, 0, 0, 0, 9]\<rparr>, [[0x45, 0, 7]])"
  using Device_decodeFrame_delivers [OF _ _ _ _ refl refl refl, where dst = "[2, 0, 0, 0, 0, 1]"
      and src = "[2, 0, 0, 0, 0, 9]" and payload = "[0x45, 0, 7]" and d = ex_device and type = "0x0800"
      and onReceive = ex_collect and s = "[]"]
  by (simp add: ex_device_def MacAddress_ether_addr_def MacAddress_def ex_collect_def replicate_6)

text \<open>
  a frame that ends right after the destination address is not recognised as broken: if it is
  addressed to the device before a peer is known, the address of 6 zero bytes is taken for the peer,
  and it stays.
\<close>

theorem Device_short_frame_poisons_peer:
  assumes "dev_cb d = Some cb" and "length (mac_octets (dev_mac d)) = 6" and "\<not> mac_is_spec (dev_peer d)"
    and "frame = mac_octets (dev_mac d) @ rest" and "length rest < 2"
  shows "Device_decodeFrame onReceive frame (of_nat (length frame)) (d, s) =
    Inr (d\<lparr>dev_peer := \<lparr>mac_is_spec = True, mac_octets = replicate 6 0\<rparr>\<rparr>, s)"
proof -
  define rd where "rd p = \<lparr>dr_buffer = frame, dr_capacity = of_nat (length frame), dr_pos = p\<rparr>" for p
  let ?mac = "\<lparr>mac_is_spec = True, mac_octets = mac_octets (dev_mac d)\<rparr>"
  have lf: "length frame = 6 + length rest" using assms(2,4) by simp
  have inv: "dr_inv (rd p)" if "unat p \<le> 6" for p
    using reader_at [of frame p] lf assms(5) that unfolding rd_def by simp
  have at: "dr_pos (rd p) = p" "dr_buffer (rd p) = frame" "(rd p)\<lparr>dr_pos := q\<rparr> = rd q" for p q
    by (simp_all add: rd_def)
  have r: "DataReader frame (of_nat (length frame)) = rd 0" by (simp add: rd_def DataReader_def)
  have 1: "MacAddress_reader (rd 0) = Inr (rd 6, ?mac)"
    using MacAddress_reader_ok(1) [OF inv, of 0] assms(2,4) by (simp add: at)
  have 2: "MacAddress_reader (rd 6) = Inr (rd 6, \<lparr>mac_is_spec = True, mac_octets = replicate 6 0\<rparr>)"
    using MacAddress_reader_short [OF inv, of 6] lf assms(5) by (simp add: at)
  have 3: "DataReader_readUInt16 (rd 6) = Inr (rd 6, None)"
    using u16.get_short [OF inv, of 6] lf assms(5) by (simp add: at)
  have 4: "\<not> MacAddress_neq ?mac (dev_mac d)" "\<not> MacAddress_isBroadcast \<lparr>mac_is_spec = True, mac_octets = replicate 6 0\<rparr>"
    by (simp_all add: MacAddress_neq_def MacAddress_eq_def MacAddress_isBroadcast_def replicate_6)
  show ?thesis
    unfolding Device_decodeFrame_def r using assms(1,3)
    by (simp add: 1 2 3 4 Let_def Device_learn_peer_def MacAddress_isSpecified_def)
qed

theorem Device_short_frame_poisons_peer_witness:
  "\<exists>d. Device_decodeFrame ex_collect [2, 0, 0, 0, 0, 1] 6 (ex_device, []) = Inr (d, []) \<and>
     dev_peer d = MacAddress_ether_addr [0, 0, 0, 0, 0, 0]"
  using Device_short_frame_poisons_peer [OF _ _ _ refl, where d = ex_device and cb = 1 and rest = "[]"
      and onReceive = ex_collect and s = "[]"]
  by (simp add: ex_device_def MacAddress_ether_addr_def MacAddress_def replicate_6)

end
