(* ===== verification/Ip_Layer.thy ===== *)
theory Ip_Layer
  imports Ether Send_Buffer Rand_Generator
begin

text \<open>
  \<open>src/ip/routing_table.{h,cpp}\<close> and \<open>src/ip/ip_layer.{h,cpp}\<close>: the network layer. The world extends
  that of the devices with the routing table and the members of \<open>IPLayer\<close>. The alarm factory is the
  one of the event loop. The bodies the code leaves open are modelled as they stand: \<open>lookup\<close> finds
  nothing, \<open>addEntry\<close> stores only static entries, \<open>createDistVec\<close> leaves its buffer unset,
  \<open>makePacket\<close> writes the first four bytes of the header, \<open>deliverPacket\<close> returns true, and \<open>onReceive\<close>
  stops after the time to live.

  Parameters: \<open>inet_pton\<close> and \<open>inet_ntop\<close>; \<open>fresh\<close> and \<open>junk\<close> give the bytes of uninitialised memory.
\<close>

section \<open>Routing table\<close>

record entry =
  en_dest :: ip_address
  en_mask :: ip_address
  en_device :: string
  en_metric :: byte
  en_ttl_alarm :: "alarm_id option"

record dist_vec =
  dv_len :: byte
  dv_buf :: "byte list"

record ip_world = ether_world +
  rt_entries :: "entry list"
  il_buffer :: "byte list"
  il_callback :: "nat option"
  il_probe_alarm :: alarm_id
  il_rand_generator :: rand_generator

definition RoutingTable :: "'a ip_world_scheme \<Rightarrow> 'a ip_world_scheme" where
  "RoutingTable s = s\<lparr>rt_entries := []\<rparr>"

definition RoutingTable_lookup :: "ip_address \<Rightarrow> 'a ip_world_scheme \<Rightarrow> entry option" where
  "RoutingTable_lookup ip_address s = (let result = None in result)"

definition Entry_Infinity :: byte where
  "Entry_Infinity = 16"

definition Entry_validInterval :: delta where
  "Entry_validInterval = Delta_fromSeconds 6"

text \<open>
  The constructor of an entry; \<open>fac\<close> is the alarm factory, given as the address its new alarm gets,
  \<open>None\<close> for the null pointer.
\<close>

definition RoutingTable_Entry ::
  "bool \<Rightarrow> ip_address \<Rightarrow> ip_address \<Rightarrow> string \<Rightarrow> byte \<Rightarrow> alarm_id option \<Rightarrow> 'a ip_world_scheme \<Rightarrow>
     ('a ip_world_scheme \<times> entry) res" where
  "RoutingTable_Entry dbg dst msk dev mtrc fac s =
     (case fac of
        Some a \<Rightarrow>
          let s = EpollAlarmFactory_createAlarm a s in
          rbind (Alarm_set dbg EpollAlarm_setImpl a
            (TimeBase_plus (EpollAlarmFactory_now s) Entry_validInterval) s) (\<lambda>s.
          Inr (s, \<lparr>en_dest = dst, en_mask = msk, en_device = dev, en_metric = mtrc, en_ttl_alarm = Some a\<rparr>))
      | None \<Rightarrow>
          Inr (s, \<lparr>en_dest = dst, en_mask = msk, en_device = dev, en_metric = mtrc, en_ttl_alarm = None\<rparr>))"

definition Entry_revokeRoute :: "entry \<Rightarrow> entry" where
  "Entry_revokeRoute e = e\<lparr>en_metric := Entry_Infinity\<rparr>"

definition Entry_keepAlive :: "entry \<Rightarrow> 'a ip_world_scheme \<Rightarrow> 'a ip_world_scheme res" where
  "Entry_keepAlive e s =
     (case en_ttl_alarm e of
        None \<Rightarrow> Inr s
      | Some a \<Rightarrow> Alarm_update EpollAlarm_setImpl EpollAlarm_cancelImpl a
          (TimeBase_plus (EpollAlarmFactory_now s) Entry_validInterval) (Delta_fromSeconds 1) s)"

definition RoutingTable_addEntry ::
  "bool \<Rightarrow> ip_address \<Rightarrow> ip_address \<Rightarrow> string \<Rightarrow> byte \<Rightarrow> bool \<Rightarrow> 'a ip_world_scheme \<Rightarrow>
     'a ip_world_scheme res" where
  "RoutingTable_addEntry dbg dest msk device metric immortal s =
     (if immortal then
        rbind (RoutingTable_Entry dbg dest msk device metric None s) (\<lambda>(s, e).
        Inr (s\<lparr>rt_entries := rt_entries s @ [e]\<rparr>))
      else Inr s)"

text \<open>The loop of \<open>updateTable\<close>; a read past the end leaves \<open>metric\<close> as it was.\<close>

primrec updateTable_loop ::
  "bool \<Rightarrow> pton \<Rightarrow> nat \<Rightarrow> string \<Rightarrow> byte \<Rightarrow> data_reader \<Rightarrow> 'a ip_world_scheme \<Rightarrow> 'a ip_world_scheme res" where
  "updateTable_loop dbg inet_pton 0 device metric reader s = Inr s"
| "updateTable_loop dbg inet_pton (Suc n) device metric reader s =
     rbind (IPAddress_reader reader) (\<lambda>(reader, dest).
     rbind (DataReader_readUInt8 reader) (\<lambda>(reader, v).
     let metric = (case v of None \<Rightarrow> metric | Some x \<Rightarrow> x) in
     rbind (RoutingTable_addEntry dbg dest (IPAddress_fullMask inet_pton) device metric False s)
       (updateTable_loop dbg inet_pton n device metric reader)))"

definition RoutingTable_updateTable ::
  "bool \<Rightarrow> byte \<Rightarrow> pton \<Rightarrow> byte list \<Rightarrow> size_t \<Rightarrow> string \<Rightarrow> 'a ip_world_scheme \<Rightarrow> 'a ip_world_scheme res" where
  "RoutingTable_updateTable dbg junk inet_pton buf len device s =
     read_local (DataReader_readUInt8 (DataReader buf len)) (\<lambda>reader n.
     rbind (DCHECK dbg (len = 1 + ucast n * (4 + 1))) (\<lambda>_.
     updateTable_loop dbg inet_pton (unat n) device junk reader s))"

definition DistVec :: "(nat \<Rightarrow> byte) \<Rightarrow> byte \<Rightarrow> dist_vec" where
  "DistVec fresh n =
     (let len = ucast (1 + ucast n * (4 + 1) :: size_t)
      in \<lparr>dv_len = len, dv_buf = map fresh [0..<unat len]\<rparr>)"

definition RoutingTable_createDistVec ::
  "(nat \<Rightarrow> byte) \<Rightarrow> string \<Rightarrow> 'a ip_world_scheme \<Rightarrow> dist_vec" where
  "RoutingTable_createDistVec fresh device s = DistVec fresh (of_nat (length (rt_entries s)))"

definition RoutingTable_Clear :: "'a ip_world_scheme \<Rightarrow> 'a ip_world_scheme" where
  "RoutingTable_Clear s = s\<lparr>rt_entries := []\<rparr>"

text \<open>\<open>printTable\<close>: left adjusted columns of 16, 16, 10 and 6 characters.\<close>

definition setw :: "nat \<Rightarrow> string \<Rightarrow> string" where
  "setw n text = text @ replicate (n - length text) (CHR '' '')"

definition PRINT_ENTRY :: "string \<Rightarrow> string \<Rightarrow> string \<Rightarrow> string \<Rightarrow> string" where
  "PRINT_ENTRY dest msk device metric =
     setw 16 dest @ setw 16 msk @ setw 10 device @ setw 6 metric @ [CHR 0x0A]"

definition RoutingTable_printTable :: "(byte list \<Rightarrow> string option) \<Rightarrow> 'a ip_world_scheme \<Rightarrow> string" where
  "RoutingTable_printTable inet_ntop s =
     PRINT_ENTRY ''DEST'' ''MASK'' ''DEVICE'' ''METRIC'' @
     concat (map (\<lambda>e. PRINT_ENTRY (IPAddress_toString inet_ntop (en_dest e))
       (IPAddress_toString inet_ntop (en_mask e)) (en_device e) (show_nat (unat (en_metric e)))) (rt_entries s))"

section \<open>IP layer\<close>

definition kMaxIpPacketLength :: size_t where "kMaxIpPacketLength = 1500"
definition kPacketHeaderLength :: size_t where "kPacketHeaderLength = 20"
definition kTTLHeaderOffset :: size_t where "kTTLHeaderOffset = 8"

definition IPLayer_probeInterval :: delta where
  "IPLayer_probeInterval = Delta_fromSeconds 3"

definition IPLayer_setCallback :: "nat \<Rightarrow> 'a ip_world_scheme \<Rightarrow> 'a ip_world_scheme" where
  "IPLayer_setCallback callback s = s\<lparr>il_callback := Some callback\<rparr>"

text \<open>The constructor; the probe alarm gets the address \<open>a\<close>. A device that is not in the list is a
  dangling pointer.\<close>

primrec IPLayer_add_devices ::
  "bool \<Rightarrow> pton \<Rightarrow> string list \<Rightarrow> 'a ip_world_scheme \<Rightarrow> 'a ip_world_scheme res" where
  "IPLayer_add_devices dbg inet_pton [] s = Inr s"
| "IPLayer_add_devices dbg inet_pton (name # names) s =
     (case map_of (dm_device_list s) name of
        None \<Rightarrow> Inl UndefinedBehaviour
      | Some d \<Rightarrow>
          rbind (RoutingTable_addEntry dbg (Device_getIpAddress d) (IPAddress_fullMask inet_pton) name 0 True s)
            (IPLayer_add_devices dbg inet_pton names))"

definition IPLayer ::
  "bool \<Rightarrow> (nat \<Rightarrow> byte) \<Rightarrow> pton \<Rightarrow> alarm_id \<Rightarrow> 'a ip_world_scheme \<Rightarrow> 'a ip_world_scheme res" where
  "IPLayer dbg fresh inet_pton a s =
     (let s = RoutingTable s;
          s = s\<lparr>il_buffer := map fresh [0..<unat kMaxIpPacketLength], il_callback := None\<rparr>;
          s = (EpollAlarmFactory_createAlarm a s)\<lparr>il_probe_alarm := a, il_rand_generator := RandGenerator 233\<rparr>
      in rbind (IPLayer_add_devices dbg inet_pton (DeviceManager_getAllDevices s) s) (\<lambda>s.
         Alarm_set dbg EpollAlarm_setImpl a (TimeBase_plus (EpollAlarmFactory_now s) IPLayer_probeInterval) s))"

definition IPLayer_makePacket ::
  "ip_address \<Rightarrow> ip_address \<Rightarrow> service_protocol \<Rightarrow> byte list \<Rightarrow> 'a ip_world_scheme \<Rightarrow>
     ('a ip_world_scheme \<times> bool) res" where
  "IPLayer_makePacket source destination proto buf s =
     (let packet_length = kPacketHeaderLength + of_nat (length buf);
          data_writer = DataWriter (il_buffer s) kMaxIpPacketLength
      in ignoring (DataWriter_writeUInt8 data_writer 0x45) (\<lambda>data_writer.
         ignoring (DataWriter_writeUInt8 data_writer 0) (\<lambda>data_writer.
         ignoring (DataWriter_writeUInt16 data_writer (ucast packet_length)) (\<lambda>data_writer.
         Inr (s\<lparr>il_buffer := dw_buffer data_writer\<rparr>, True)))))"

definition IPLayer_deliverPacket ::
  "ip_address \<Rightarrow> size_t \<Rightarrow> 'a ip_world_scheme \<Rightarrow> 'a ip_world_scheme \<times> bool" where
  "IPLayer_deliverPacket destination packet_length s = (s, True)"

definition IPLayer_sendPacket ::
  "ip_address \<Rightarrow> ip_address \<Rightarrow> service_protocol \<Rightarrow> byte list \<Rightarrow> 'a ip_world_scheme \<Rightarrow>
     ('a ip_world_scheme \<times> bool) res" where
  "IPLayer_sendPacket source destination proto buf s =
     rbind (IPLayer_makePacket source destination proto buf s) (\<lambda>(s, ok).
     if \<not> ok then Inr (s, False)
     else let packet_length = kPacketHeaderLength + of_nat (length buf)
       in Inr (IPLayer_deliverPacket destination packet_length s))"

definition IPLayer_routePacket ::
  "bool \<Rightarrow> ip_address \<Rightarrow> byte list \<Rightarrow> size_t \<Rightarrow> 'a ip_world_scheme \<Rightarrow> ('a ip_world_scheme \<times> bool) res" where
  "IPLayer_routePacket dbg dest buf len s =
     (let data_writer = DataWriter (il_buffer s) kMaxIpPacketLength in
      rbind (DataWriter_writeBytes data_writer buf len) (\<lambda>(data_writer, rv).
      rbind (DCHECK dbg rv) (\<lambda>_.
      Inr (IPLayer_deliverPacket dest len (s\<lparr>il_buffer := dw_buffer data_writer\<rparr>)))))"

definition IPLayer_processProbePacket ::
  "bool \<Rightarrow> byte \<Rightarrow> pton \<Rightarrow> ip_address \<Rightarrow> ip_address \<Rightarrow> byte list \<Rightarrow> size_t \<Rightarrow> string \<Rightarrow> 'a ip_world_scheme \<Rightarrow>
     'a ip_world_scheme res" where
  "IPLayer_processProbePacket dbg junk inet_pton src dest buf len device s =
     (if DeviceManager_hasIpAddress dest s then Inr s
      else RoutingTable_updateTable dbg junk inet_pton buf len device s)"

definition IPLayer_subtractTTL :: "byte list \<Rightarrow> (byte list \<times> bool) res" where
  "IPLayer_subtractTTL buf =
     (if \<not> unat kTTLHeaderOffset < length buf then Inl OutOfBounds
      else if buf ! unat kTTLHeaderOffset = 0 then Inr (buf, False)
      else Inr (buf[unat kTTLHeaderOffset := buf ! unat kTTLHeaderOffset - 1], True))"

text \<open>
  What \<open>onReceive\<close> reads from the header, as the code stands: the total length is read inside a
  \<open>DCHECK\<close>, so in a release build the two bytes are not consumed.
\<close>

record ip_fields =
  if_header_length :: size_t
  if_protocol :: byte
  if_source :: ip_address
  if_destination :: ip_address

definition onReceive_fields ::
  "bool \<Rightarrow> byte \<Rightarrow> data_reader \<Rightarrow> ip_fields res" where
  "onReceive_fields dbg rv reader =
     (let header_length = ucast (rv AND 0xf) * 4;
          reader = fst (DataReader_skip reader 1)
      in rbind (if dbg then rbind (DataReader_readUInt16 reader) (\<lambda>(reader, v).
                  case v of None \<Rightarrow> Inl DCheckFailed | Some _ \<Rightarrow> Inr reader)
                else Inr reader) (\<lambda>reader.
         let reader = fst (DataReader_skip reader 5) in
         read_member (DataReader_readUInt8 reader) rv (\<lambda>reader protocol.
         let reader = fst (DataReader_skip reader 2) in
         rbind (IPAddress_reader reader) (\<lambda>(reader, source).
         rbind (IPAddress_reader reader) (\<lambda>(reader, destination).
         Inr \<lparr>if_header_length = header_length, if_protocol = protocol, if_source = source,
              if_destination = destination\<rparr>)))))"

definition IPLayer_onReceive ::
  "bool \<Rightarrow> string \<Rightarrow> byte list \<Rightarrow> size_t \<Rightarrow> 'a ip_world_scheme \<Rightarrow> ('a ip_world_scheme \<times> byte list) res" where
  "IPLayer_onReceive dbg device buf len s =
     rbind (DCHECK dbg (kPacketHeaderLength \<le> len)) (\<lambda>_.
     read_local (DataReader_readUInt8 (DataReader buf len)) (\<lambda>reader rv.
     if drop_bit 4 rv \<noteq> 0x4 then Inr (s, buf)
     else
       rbind (onReceive_fields dbg rv reader) (\<lambda>fields.
       rbind (IPLayer_subtractTTL buf) (\<lambda>(buf, alive).
       if \<not> alive then Inr (s, buf)
       else Inr (s, buf)))))"

definition IPLayer_sendProbePacket :: "'a ip_world_scheme \<Rightarrow> 'a ip_world_scheme res" where
  "IPLayer_sendProbePacket s =
     Alarm_update EpollAlarm_setImpl EpollAlarm_cancelImpl (il_probe_alarm s)
       (TimeBase_plus (EpollAlarmFactory_now s) IPLayer_probeInterval) default_granularity s"

definition IPLayer_getDefaultIP :: "'a ip_world_scheme \<Rightarrow> ip_address res" where
  "IPLayer_getDefaultIP s =
     (case DeviceManager_findDefaultDevice s of
        None \<Rightarrow> Inl NullDereference
      | Some d \<Rightarrow> Inr (Device_getIpAddress d))"

text \<open>The virtual methods the transport layer calls, on these classes.\<close>

definition ip_env :: "bool \<Rightarrow> 'a ip_world_scheme tcp_env" where
  "ip_env dbg =
     \<lparr>env_sendPacket = IPLayer_sendPacket, env_now = EpollAlarmFactory_now,
      env_createAlarm = EpollAlarmFactory_createAlarm, env_alarm_set = Alarm_set dbg EpollAlarm_setImpl,
      env_alarm_update = (\<lambda>a t. Alarm_update EpollAlarm_setImpl EpollAlarm_cancelImpl a t default_granularity),
      env_alarm_cancel = Alarm_cancel EpollAlarm_cancelImpl\<rparr>"

section \<open>Contracts\<close>

lemma interval_values [simp]:
  "Entry_validInterval = 6000000" "IPLayer_probeInterval = 3000000" "Delta_fromSeconds 1 = 1000000"
  by (simp_all add: Entry_validInterval_def IPLayer_probeInterval_def Delta_fromSeconds_def wrap64_id int64_def)

definition ip_ok :: "'a ip_world_scheme \<Rightarrow> bool" where
  "ip_ok s \<longleftrightarrow> alarms_ok s \<and> length (il_buffer s) = 1500"

lemma alarms_il_buffer [simp]:
  "alarms_ok (s\<lparr>il_buffer := b\<rparr>) = alarms_ok s" "alarms_armed (s\<lparr>il_buffer := b\<rparr>) = alarms_armed s"
  by (simp_all add: alarms_ok_def alarms_armed_def as_inv_def as_base_def as_links_def entries_def fun_eq_iff)

lemma makePacket_ok:
  assumes "length (il_buffer s) = 1500"
  shows "IPLayer_makePacket src dst p bs s = Inr (s\<lparr>il_buffer := [0x45, 0] @
    rev (host_bytes16 (ucast (20 + of_nat (length bs) :: size_t))) @ drop 4 (il_buffer s)\<rparr>, True)"
proof -
  let ?w = "DataWriter (il_buffer s) kMaxIpPacketLength"
  have inv: "dw_inv ?w" using assms by (intro DataWriter_inv) (simp_all add: kMaxIpPacketLength_def)
  have room: "dw_length ?w = 0" "length (dw_buffer ?w) = 1500" using assms by (simp_all add: DataWriter_def)
  have w: "?w = dw_append ?w []" by (simp add: dw_append_Nil)
  note wc = write_chains [OF inv]
  have buf: "dw_buffer (dw_append ?w ([0x45, 0] @ rev (host_bytes16 v))) =
      [0x45, 0] @ rev (host_bytes16 v) @ drop 4 (il_buffer s)" for v
    by (simp add: dw_append_def DataWriter_def)
  have "IPLayer_makePacket src dst p bs s = Inr (s\<lparr>il_buffer := dw_buffer (dw_append ?w ([0x45, 0] @
      rev (host_bytes16 (ucast (20 + of_nat (length bs) :: size_t)))))\<rparr>, True)"
    unfolding IPLayer_makePacket_def Let_def kPacketHeaderLength_def
    by (subst w) (simp add: wc(1) [of "[]"] wc(1) [of "[0x45]"] wc(2) [of "[0x45, 0]"] room)
  then show ?thesis unfolding buf .
qed

lemma sendPacket_ok:
  assumes "ip_ok s"
  shows "\<exists>s'. IPLayer_sendPacket src dst p bs s = Inr (s', True) \<and> ip_ok s' \<and> alarms_armed s' = alarms_armed s"
  using assms makePacket_ok [of s src dst p bs]
  by (simp add: IPLayer_sendPacket_def IPLayer_deliverPacket_def ip_ok_def Let_def)

lemma Alarm_il_buffer:
  "Alarm_set dbg EpollAlarm_setImpl a t s = Inr s' \<Longrightarrow> il_buffer s' = il_buffer s"
  "Alarm_cancel EpollAlarm_cancelImpl a s = Inr s' \<Longrightarrow> il_buffer s' = il_buffer s"
  "Alarm_update EpollAlarm_setImpl EpollAlarm_cancelImpl a t g s = Inr s' \<Longrightarrow> il_buffer s' = il_buffer s"
  by (auto simp: Alarm_set_def Alarm_cancel_def Alarm_update_def Alarm_updateImpl_def EpollAlarm_setImpl_def
      EpollAlarm_cancelImpl_def EpollServer_registerAlarm_def EpollServer_unregisterAlarm_def as_register_def
      as_unregister_def put_token_def put_deadline_def rbind_eq_Inr_iff Let_def split: if_splits option.splits)

interpretation ip_net: tcp_network "ip_env dbg" ip_ok alarms_armed for dbg
proof unfold_locales
  fix w :: "'a ip_world_scheme" and a
  assume w: "ip_ok w"
  then have ok: "alarms_ok w" "length (il_buffer w) = 1500" by (simp_all add: ip_ok_def)
  show "ip_ok (env_createAlarm (ip_env dbg) a w) \<and>
      alarms_armed (env_createAlarm (ip_env dbg) a w) = alarms_armed w" if "\<not> alarms_armed w a"
    using Alarm_fresh [OF ok(1) that] ok(2) by (simp add: ip_env_def ip_ok_def EpollAlarmFactory_createAlarm_def)
      (simp add: Alarm_def)
  show "\<exists>w'. env_alarm_set (ip_env dbg) a (one_second_from_now (ip_env dbg) w) w = Inr w' \<and> ip_ok w' \<and>
      alarms_armed w' = (alarms_armed w)(a := True)" if "\<not> alarms_armed w a"
    using alarm_impl.second_set [OF epoll.alarm_impl_axioms ok(1) that, of dbg] ok(2) Alarm_il_buffer(1)
    by (fastforce simp: ip_env_def ip_ok_def EpollAlarmFactory_now_def)
  show "\<exists>w'. env_alarm_update (ip_env dbg) a (one_second_from_now (ip_env dbg) w) w = Inr w' \<and> ip_ok w' \<and>
      alarms_armed w' = (alarms_armed w)(a := True)"
    using alarm_impl.second_update [OF epoll.alarm_impl_axioms ok(1), of a] ok(2) Alarm_il_buffer(3)
    by (fastforce simp: ip_env_def ip_ok_def EpollAlarmFactory_now_def)
  show "\<exists>w'. env_alarm_cancel (ip_env dbg) a w = Inr w' \<and> ip_ok w' \<and>
      alarms_armed w' = (alarms_armed w)(a := False)"
    using alarm_impl.second_cancel [OF epoll.alarm_impl_axioms ok(1), of a] ok(2) Alarm_il_buffer(2)
    by (fastforce simp: ip_env_def ip_ok_def)
  show "\<exists>w' ok. env_sendPacket (ip_env dbg) src dst TCP bs w = Inr (w', ok) \<and> ip_ok w' \<and>
      alarms_armed w' = alarms_armed w" for src dst bs
    using sendPacket_ok [OF w, of src dst TCP bs] by (auto simp: ip_env_def)
qed

section \<open>The fields of a received header\<close>

abbreviation packet_reader :: "byte list \<Rightarrow> size_t \<Rightarrow> data_reader" where
  "packet_reader buf p \<equiv> \<lparr>dr_buffer = buf, dr_capacity = of_nat (length buf), dr_pos = p\<rparr>"

lemma packet_skip:
  assumes "length buf \<le> 2 ^ 62" and "unat (p + n) \<le> length buf"
  shows "fst (DataReader_skip (packet_reader buf p) n) = packet_reader buf (p + n)"
  using assms by (simp add: DataReader_skip_def word_less_nat_alt unat_of_nat_len)

lemma packet_address:
  assumes "length buf \<le> 2 ^ 62" and "unat p + 4 \<le> length buf"
  shows "IPAddress_reader (packet_reader buf p) = Inr (packet_reader buf (p + 4),
    \<lparr>ip_bytes = take 4 (drop (unat p) buf) @ replicate 12 0, ip_family = IP_V4\<rparr>)"
  using readBytes_ok(1) [where r = "packet_reader buf p" and n = 4] reader_at [OF assms(1), of p] assms(2)
  by (simp add: IPAddress_reader_def kIPv4AddressSize_def)

lemma packet_byte:
  assumes "length buf \<le> 2 ^ 62" and "unat p < length buf"
  shows "DataReader_readUInt8 (packet_reader buf p) = Inr (packet_reader buf (p + 1), Some (buf ! unat p))"
  using u8.get_any [of "packet_reader buf p"] reader_at [OF assms(1), of p] assms(2)
  by (simp add: take_Suc hd_drop_conv_nth)

lemma packet_half:
  assumes "length buf \<le> 2 ^ 62" and "unat p + 2 \<le> length buf"
  shows "\<exists>v. DataReader_readUInt16 (packet_reader buf p) = Inr (packet_reader buf (p + 2), Some v)"
  using u16.get_any [of "packet_reader buf p"] reader_at [OF assms(1), of p] assms(2) by simp

definition wire_address :: "byte list \<Rightarrow> nat \<Rightarrow> ip_address" where
  "wire_address buf off = \<lparr>ip_bytes = take 4 (drop off buf) @ replicate 12 0, ip_family = IP_V4\<rparr>"

lemma fields_value:
  assumes "length buf \<le> 2 ^ 62" and "20 \<le> length buf"
  shows "onReceive_fields dbg rv (packet_reader buf 1) =
    Inr \<lparr>if_header_length = ucast (rv AND 0xf) * 4, if_protocol = buf ! (if dbg then 9 else 7),
         if_source = wire_address buf (if dbg then 12 else 10),
         if_destination = wire_address buf (if dbg then 16 else 14)\<rparr>"
proof -
  note l = assms(1)
  have skips: "fst (DataReader_skip (packet_reader buf 1) 1) = packet_reader buf 2"
    "fst (DataReader_skip (packet_reader buf 2) 5) = packet_reader buf 7"
    "fst (DataReader_skip (packet_reader buf 4) 5) = packet_reader buf 9"
    "fst (DataReader_skip (packet_reader buf 8) 2) = packet_reader buf 10"
    "fst (DataReader_skip (packet_reader buf 10) 2) = packet_reader buf 12"
    using assms(2) packet_skip [OF l, of 1 1] packet_skip [OF l, of 2 5] packet_skip [OF l, of 4 5]
      packet_skip [OF l, of 8 2] packet_skip [OF l, of 10 2] by simp_all
  obtain v where half: "DataReader_readUInt16 (packet_reader buf 2) = Inr (packet_reader buf 4, Some v)"
    using packet_half [OF l, of 2] assms(2) by auto
  show ?thesis
    using assms(2) packet_byte [OF l, of 7] packet_byte [OF l, of 9] packet_address [OF l, of 10]
      packet_address [OF l, of 12] packet_address [OF l, of 14] packet_address [OF l, of 16]
    by (cases dbg) (simp_all add: onReceive_fields_def Let_def skips half read_member_def wire_address_def)
qed

section \<open>The probe alarm stays set\<close>

text \<open>
  Delegates are virtual methods; the one of the probe alarm is \<open>sendProbePacket\<close>, and \<open>others\<close>
  stands for those of the other alarms.
\<close>

definition ip_onAlarm :: "'a ip_world_scheme onAlarm \<Rightarrow> 'a ip_world_scheme onAlarm" where
  "ip_onAlarm others a s = (if a = il_probe_alarm s then IPLayer_sendProbePacket s else others a s)"

definition probing :: "alarm_id \<Rightarrow> 'a ip_world_scheme \<Rightarrow> bool" where
  "probing p s \<longleftrightarrow> il_probe_alarm s = p \<and> deadline s p \<noteq> 0 \<and> 0 \<le> as_now s \<and> as_now s \<le> 2 ^ 62"

lemma put_probe [simp]:
  "il_probe_alarm (put_deadline a d s) = il_probe_alarm s" "il_probe_alarm (put_token a t s) = il_probe_alarm s"
  by (simp_all add: put_deadline_def put_token_def)

lemma sendProbePacket_rearm: "IPLayer_sendProbePacket s = EpollAlarm_rearm 3000000 (il_probe_alarm s) s"
  by (simp add: IPLayer_sendProbePacket_def EpollAlarm_rearm_def)

lemma ip_onAlarm_ok:
  assumes "delegate_ok 0 (2 ^ 62) others"
  shows "delegate_ok 0 (2 ^ 62) (ip_onAlarm others :: 'a ip_world_scheme onAlarm)"
proof -
  have probe: "delegate_ok 0 (2 ^ 62) (EpollAlarm_rearm 3000000 :: 'a ip_world_scheme onAlarm)"
    by (rule rearm_ok) simp_all
  show ?thesis
    unfolding delegate_ok_def ip_onAlarm_def
    using probe [unfolded delegate_ok_def] assms [unfolded delegate_ok_def]
    by (simp add: sendProbePacket_rearm)
qed

lemma probing_fire:
  assumes "probing p s" and "ip_onAlarm others a (put_deadline a 0 s) = Inr s'"
    and others: "\<And>a s s'. a \<noteq> p \<Longrightarrow> probing p s \<Longrightarrow> others a s = Inr s' \<Longrightarrow> probing p s'"
  shows "probing p s'"
proof (cases "a = p")
  case True
  let ?s = "put_deadline p 0 s" and ?d = "as_now s + 3000000"
  have now: "il_probe_alarm s = p" "0 \<le> as_now s" "as_now s \<le> 2 ^ 62" using assms(1) by (simp_all add: probing_def)
  have d: "1000 \<le> ?d" "int64 ?d" "TimeBase_plus (as_now s) 3000000 = ?d"
    using now by (simp_all add: TimeBase_plus_def wrap64_id int64_def)
  have "IPLayer_sendProbePacket ?s = Alarm_set False EpollAlarm_setImpl p ?d ?s"
    using update_unset [of ?s p ?d] d now(1) by (simp add: IPLayer_sendProbePacket_def EpollAlarmFactory_now_def)
  then have "s' = EpollAlarm_setImpl p (put_deadline p ?d ?s)"
    using assms(2) True now(1) by (simp add: ip_onAlarm_def Alarm_set_def)
  then show ?thesis
    using now d(1) by (simp add: probing_def EpollAlarm_setImpl_def EpollServer_registerAlarm_def as_register_def)
next
  case False
  then have "probing p (put_deadline a 0 s)" using assms(1) by (simp add: probing_def)
  moreover have "others a (put_deadline a 0 s) = Inr s'"
    using assms(1,2) False by (simp add: ip_onAlarm_def probing_def)
  ultimately show ?thesis using others False by blast
qed

section \<open>Properties\<close>

text \<open>
  C26: \<open>onReceive\<close> takes protocol, source and destination from their places in the IPv4 header in a
  debug build. In a release build the check that reads the total length is compiled away, and all
  three are taken from two bytes before their place.
\<close>

theorem IPLayer_header_fields:
  assumes "length buf \<le> 2 ^ 62" and "20 \<le> length buf"
  shows "(\<exists>f. onReceive_fields True rv (packet_reader buf 1) = Inr f \<and> if_protocol f = buf ! 9 \<and>
      if_source f = wire_address buf 12 \<and> if_destination f = wire_address buf 16) \<and>
    (\<exists>f. onReceive_fields False rv (packet_reader buf 1) = Inr f \<and> if_protocol f = buf ! 7 \<and>
      if_source f = wire_address buf 10 \<and> if_destination f = wire_address buf 14)"
  by (simp add: fields_value [OF assms])

text \<open>A packet from 10.0.0.1 to 10.0.0.2 that carries TCP, with 64 hops to live.\<close>

definition ex_packet :: "byte list" where
  "ex_packet = [0x45, 0, 0, 20, 0, 0, 0, 0, 64, 6, 0, 0, 10, 0, 0, 1, 10, 0, 0, 2]"

theorem IPLayer_header_fields_witness:
  "(\<exists>f. onReceive_fields True 0x45 (packet_reader ex_packet 1) = Inr f \<and> if_protocol f = 6 \<and>
      take 4 (ip_bytes (if_destination f)) = [10, 0, 0, 2]) \<and>
   (\<exists>f. onReceive_fields False 0x45 (packet_reader ex_packet 1) = Inr f \<and> if_protocol f = 0 \<and>
      take 4 (ip_bytes (if_destination f)) = [0, 1, 10, 0])"
  using IPLayer_header_fields [of ex_packet "0x45"]
  by (auto simp: ex_packet_def wire_address_def)

text \<open>
  \<open>onReceive\<close> on any packet of at least the header length: no fault; the layer is unchanged, and
  of the packet only the time to live is counted down by one, unless it is 0 or the version is not 4.
\<close>

theorem IPLayer_onReceive_counts_down:
  assumes "length buf \<le> 2 ^ 62" and "20 \<le> length buf"
  shows "IPLayer_onReceive dbg device buf (of_nat (length buf)) s =
    Inr (s, if unat (buf ! 0) div 16 = 4 \<and> buf ! 8 \<noteq> 0 then buf[8 := buf ! 8 - 1] else buf)"
proof -
  have rd: "DataReader buf (of_nat (length buf)) = packet_reader buf 0" by (simp add: DataReader_def)
  have "unat (0 :: size_t) < length buf" using assms(2) by auto
  from packet_byte [OF assms(1) this]
  have byte: "DataReader_readUInt8 (packet_reader buf 0) = Inr (packet_reader buf 1, Some (buf ! 0))" by simp
  have "20 \<le> (of_nat (length buf) :: size_t)" using assms by (simp add: word_le_nat_alt unat_of_nat_len)
  moreover have "drop_bit 4 (buf ! 0) = 4 \<longleftrightarrow> unat (buf ! 0) div 16 = 4"
    by (simp add: word_unat_eq_iff unat_drop_bit)
  ultimately show ?thesis
    using assms(2) by (simp add: IPLayer_onReceive_def kPacketHeaderLength_def DCHECK_ok rd byte read_local_def
        fields_value [OF assms] IPLayer_subtractTTL_def kTTLHeaderOffset_def)
qed

theorem IPLayer_onReceive_counts_down_witness:
  "\<forall>s :: ip_world. IPLayer_onReceive True ''veth0'' ex_packet 20 s =
     Inr (s, [0x45, 0, 0, 20, 0, 0, 0, 0, 63, 6, 0, 0, 10, 0, 0, 1, 10, 0, 0, 2])"
proof
  fix s :: ip_world
  have "ex_packet[8 := ex_packet ! 8 - 1] = [0x45, 0, 0, 20, 0, 0, 0, 0, 63, 6, 0, 0, 10, 0, 0, 1, 10, 0, 0, 2]"
    "length ex_packet = 20" "unat (ex_packet ! 0) div 16 = 4" "ex_packet ! 8 \<noteq> 0"
    by code_simp+
  then show "IPLayer_onReceive True ''veth0'' ex_packet 20 s =
      Inr (s, [0x45, 0, 0, 20, 0, 0, 0, 0, 63, 6, 0, 0, 10, 0, 0, 1, 10, 0, 0, 2])"
    using IPLayer_onReceive_counts_down [of ex_packet True "''veth0''" s] by simp
qed

text \<open>An IP layer on a machine with one device.\<close>

definition ex_ip_world :: ip_world where
  "ex_ip_world =
     \<lparr>as_map = [], as_fresh = 0, as_alarms = (\<lambda>a. \<lparr>al_deadline = 0, al_token = None\<rparr>), as_now = 100000000,
      ep_epfd = 3, ep_cb_map = Map.empty, dm_device_list = [(''veth0'', ex_device)], dm_devices = [''veth0''],
      dm_ip_set = [], rt_entries = [], il_buffer = replicate 1500 0, il_callback = None, il_probe_alarm = 0,
      il_rand_generator = RandGenerator 233\<rparr>"

lemma ex_ip_world_ok: "ip_ok ex_ip_world"
  by (simp add: ip_ok_def alarms_ok_def ex_ip_world_def as_inv_def as_base_def as_links_def entries_def)

text \<open>
  the size of a distance vector is computed modulo 256. With up to 50 entries in the table the
  buffer has the count byte and 5 bytes for each entry; with 51 it has no byte at all.
\<close>

theorem RoutingTable_createDistVec_size:
  assumes "length (rt_entries s) \<le> 51"
  shows "length (dv_buf (RoutingTable_createDistVec fresh device s)) =
    (if length (rt_entries s) \<le> 50 then 1 + 5 * length (rt_entries s) else 0)"
proof -
  let ?n = "length (rt_entries s)"
  have "unat (ucast (of_nat ?n :: byte) :: size_t) = ?n"
    using assms by (simp add: unat_ucast_up unat_of_nat)
  then have "unat (1 + ucast (of_nat ?n :: byte) * 5 :: size_t) = 1 + 5 * ?n"
    using assms by (simp add: unat_word_ariths)
  then have "unat (ucast (1 + ucast (of_nat ?n :: byte) * 5 :: size_t) :: byte) = (1 + 5 * ?n) mod 256"
    by (simp only: unsigned_ucast_eq) (simp add: take_bit_eq_mod)
  then show ?thesis
    using assms by (cases "?n = 51") (simp_all add: RoutingTable_createDistVec_def DistVec_def Let_def)
qed

theorem RoutingTable_createDistVec_size_witness:
  "\<exists>s :: ip_world. length (rt_entries s) = 51 \<and> dv_buf (RoutingTable_createDistVec (\<lambda>_. 0) ''veth0'' s) = []"
proof -
  let ?s = "ex_ip_world\<lparr>rt_entries := replicate 51 \<lparr>en_dest = IPAddress, en_mask = IPAddress,
    en_device = ''veth0'', en_metric = 1, en_ttl_alarm = None\<rparr>\<rparr>"
  have "length (dv_buf (RoutingTable_createDistVec (\<lambda>_. 0) ''veth0'' ?s)) = 0"
    using RoutingTable_createDistVec_size [of ?s "\<lambda>_. 0" "''veth0''"] by simp
  then show ?thesis by (intro exI [of _ ?s]) simp
qed

text \<open>
  \<open>keepAlive\<close> returns and keeps an entry alive for more than 5 seconds. It does not reach the 6
  seconds of \<open>validInterval\<close> in general: an update that moves the deadline by less than its
  granularity of one second is dropped.
\<close>

theorem Entry_keepAlive_extends:
  assumes "alarms_ok s" and "en_ttl_alarm e = Some a" and "0 \<le> deadline s a" and "deadline s a \<le> 2 ^ 62"
  shows "\<exists>s'. Entry_keepAlive e s = Inr s' \<and> as_inv {} s' \<and> as_now s' = as_now s \<and>
    as_now s + 5000000 < deadline s' a \<and>
    deadline s' a = (if \<bar>as_now s + 6000000 - deadline s a\<bar> < 1000000 then deadline s a else as_now s + 6000000)"
proof -
  let ?d = "as_now s + 6000000"
  have now: "0 \<le> as_now s" "as_now s \<le> 2 ^ 62" "as_inv {} s" using assms(1) by (simp_all add: alarms_ok_def)
  have d: "int64 ?d" "TimeBase_plus (as_now s) 6000000 = ?d"
    using now by (simp_all add: TimeBase_plus_def wrap64_id int64_def)
  have diff: "wrap64 \<bar>TimeBase_diff ?d (deadline s a)\<bar> = \<bar>?d - deadline s a\<bar>"
    using now assms(3,4) by (simp add: TimeBase_diff_def wrap64_id int64_def abs_if)
  obtain s' where s': "Alarm_update EpollAlarm_setImpl EpollAlarm_cancelImpl a ?d 1000000 s = Inr s'" "as_inv {} s'"
      "deadline s' a = (if ?d \<noteq> 0 \<and> wrap64 \<bar>TimeBase_diff ?d (deadline s a)\<bar> < 1000000 then deadline s a else ?d)"
      "as_now s' = as_now s"
    using epoll.update_ok [OF now(3) d(1), of a 1000000] by blast
  have "Entry_keepAlive e s = Inr s'"
    using s'(1) assms(2) by (simp add: Entry_keepAlive_def EpollAlarmFactory_now_def d(2))
  moreover have "deadline s' a = (if \<bar>?d - deadline s a\<bar> < 1000000 then deadline s a else ?d)"
    using s'(3) now(1) unfolding diff by simp
  ultimately show ?thesis using s'(2,4) by (intro exI [of _ s']) auto
qed

theorem Entry_keepAlive_extends_witness:
  "\<exists>s s' e. RoutingTable_Entry True IPAddress IPAddress ''veth0'' 1 (Some 5) ex_ip_world = Inr (s, e) \<and>
     Entry_keepAlive e (s\<lparr>as_now := 100500000\<rparr>) = Inr s' \<and> deadline s' 5 = 106000000"
proof -
  let ?s0 = "EpollAlarmFactory_createAlarm 5 ex_ip_world"
  have s0: "as_inv {} ?s0" "deadline ?s0 5 = 0" "as_now ?s0 = 100000000"
    by (simp_all add: EpollAlarmFactory_createAlarm_def Alarm_def ex_ip_world_def as_inv_def as_base_def
        as_links_def entries_def TimeBase_zero_def)
  obtain s where s: "Alarm_set True EpollAlarm_setImpl 5 106000000 ?s0 = Inr s" "as_inv {} s" "deadline s 5 = 106000000"
    using epoll.set_ok [OF s0(1,2), of 106000000 True] by (auto simp: int64_def)
  let ?e = "\<lparr>en_dest = IPAddress, en_mask = IPAddress, en_device = ''veth0'', en_metric = 1, en_ttl_alarm = Some 5\<rparr>"
  have "RoutingTable_Entry True IPAddress IPAddress ''veth0'' 1 (Some 5) ex_ip_world = Inr (s, ?e)"
    using s(1) s0(3) by (simp add: RoutingTable_Entry_def EpollAlarmFactory_now_def TimeBase_plus_def wrap64_id int64_def)
  moreover have "alarms_ok (s\<lparr>as_now := 100500000\<rparr>)" using s(2) by (simp add: alarms_ok_def)
  from Entry_keepAlive_extends [OF this, of ?e 5] s(3)
  have "\<exists>s'. Entry_keepAlive ?e (s\<lparr>as_now := 100500000\<rparr>) = Inr s' \<and> deadline s' 5 = 106000000" by auto
  ultimately show ?thesis by blast
qed

end
