(* ===== verification/Socket_Session.thy ===== *)
theory Socket_Session
  imports Mock_Layers Rand_Generator
begin

text \<open>
  \<open>src/tcp/socket_session.{h,cpp}\<close>: a TCP connection. The state of a session extends that of its send
  buffer with the connection state, the callback, the receive buffer and the alarm of \<open>TIME_WAIT\<close>.
  The random generator is shared between sessions and passed along. The callback of the user is a
  virtual method and a parameter.

  The bodies the code leaves open are modelled as they stand: \<open>onSegmentArrival\<close> and the handlers of
  three states do nothing, and \<open>send\<close> and \<open>receive\<close> end without returning a value, which is undefined
  behaviour.
\<close>

section \<open>Definitions\<close>

datatype connection_state =
    LISTEN
  | SYN_SENT
  | SYN_RECEIVED
  | ESTABLISHED
  | FIN_WAIT_1
  | FIN_WAIT_2
  | CLOSE_WAIT
  | CLOSING
  | LAST_ACK
  | TIME_WAIT
  | CLOSED

type_synonym callback_message = uint32

definition MSG_READABLE :: callback_message where "MSG_READABLE = 0x001"
definition MSG_WRITABLE :: callback_message where "MSG_WRITABLE = 0x002"
definition MSG_CLOSED :: callback_message where "MSG_CLOSED = 0x004"
definition MSG_CLOSING :: callback_message where "MSG_CLOSING = 0x008"
definition MSG_RESET :: callback_message where "MSG_RESET = 0x010"
definition MSG_REFUSED :: callback_message where "MSG_REFUSED = 0x020"
definition MSG_NOTEXIST :: callback_message where "MSG_NOTEXIST = 0x040"
definition MSG_NOSERVICE :: callback_message where "MSG_NOSERVICE = 0x080"

record 'w session = "'w send_state" +
  se_state :: connection_state
  se_callback :: "nat option"
  se_receive_buffer :: ring_buffer
  se_time_wait_alarm :: alarm_id

text \<open>The constructor; \<open>a\<^sub>1\<close> and \<open>a\<^sub>2\<close> are the addresses of the two alarms it creates.\<close>

definition SocketSession ::
  "(nat \<Rightarrow> byte) \<Rightarrow> 'w tcp_env \<Rightarrow> alarm_id \<Rightarrow> alarm_id \<Rightarrow> socket_address \<Rightarrow> socket_address \<Rightarrow> 'w \<Rightarrow>
     'w session res" where
  "SocketSession fresh env a\<^sub>1 a\<^sub>2 local_address remote_address w =
     rbind (SendBuffer fresh env a\<^sub>1 w) (\<lambda>(send_buffer, w).
     Inr \<lparr>ss_buf = send_buffer, ss_tcb = ControlBlock, ss_factory = SegmentFactory local_address remote_address,
          ss_world = env_createAlarm env a\<^sub>2 w, se_state = CLOSED, se_callback = None,
          se_receive_buffer = RingBuffer fresh (kMaxSegmentSize * 10), se_time_wait_alarm = a\<^sub>2\<rparr>)"

definition SocketSession_setCallback :: "nat \<Rightarrow> ('w, 'a) session_scheme \<Rightarrow> ('w, 'a) session_scheme" where
  "SocketSession_setCallback callback st = st\<lparr>se_callback := Some callback\<rparr>"

definition SocketSession_signalUser ::
  "(nat \<Rightarrow> callback_message \<Rightarrow> 'u \<Rightarrow> 'u) \<Rightarrow> callback_message \<Rightarrow> ('w, 'a) session_scheme \<Rightarrow> 'u \<Rightarrow> 'u" where
  "SocketSession_signalUser onMessage message st u =
     (case se_callback st of None \<Rightarrow> u | Some callback \<Rightarrow> onMessage callback message u)"

definition SocketSession_sendSegmentNow ::
  "bool \<Rightarrow> (nat \<Rightarrow> byte) \<Rightarrow> 'w tcp_env \<Rightarrow> uint32 \<Rightarrow> byte \<Rightarrow> ('w, 'a) session_scheme \<Rightarrow>
     ('w, 'a) session_scheme res" where
  "SocketSession_sendSegmentNow dbg fresh env seq ctl st =
     rbind (SegmentFactory_createSegment_ctl dbg (ss_factory st) seq ctl) (\<lambda>seg.
     ignoring (SendBuffer_sendSegment dbg fresh env seg st) Inr)"

definition SocketSession_onSegmentArrival :: "segment \<Rightarrow> ('w, 'a) session_scheme \<Rightarrow> ('w, 'a) session_scheme" where
  "SocketSession_onSegmentArrival segment st = st"

definition SocketSession_onSegmentArrival_CLOSED ::
  "segment \<Rightarrow> ('w, 'a) session_scheme \<Rightarrow> ('w, 'a) session_scheme" where
  "SocketSession_onSegmentArrival_CLOSED segment st = st"

definition SocketSession_onSegmentArrival_LISTEN ::
  "bool \<Rightarrow> (nat \<Rightarrow> byte) \<Rightarrow> 'w tcp_env \<Rightarrow> segment \<Rightarrow> ('w, 'a) session_scheme \<Rightarrow> rand_generator \<Rightarrow>
     (('w, 'a) session_scheme \<times> rand_generator) res" where
  "SocketSession_onSegmentArrival_LISTEN dbg fresh env segment st rand =
     (if Segment_isRST segment then Inr (st, rand)
      else if Segment_isACK segment then
        rbind (SocketSession_sendSegmentNow dbg fresh env (sg_acknowledgment segment) RST st) (\<lambda>st. Inr (st, rand))
      else if Segment_isSYN segment then
        let st = st\<lparr>ss_tcb := (ss_tcb st)\<lparr>cb_receive := (cb_receive (ss_tcb st))
              \<lparr>rcv_SYN_received := True, rcv_next := sg_sequence segment + 1, rcv_initial := sg_sequence segment\<rparr>\<rparr>\<rparr>
        in rbind (RandGenerator_rand_upper dbg rand 0xFFFFFFFF) (\<lambda>(rand, initial).
           rbind (SendBuffer_sendSYN dbg fresh env initial st) (\<lambda>st.
           Inr (st\<lparr>se_state := SYN_RECEIVED\<rparr>, rand)))
      else Inr (st, rand))"

definition SocketSession_onSegmentArrival_SYN_SENT ::
  "segment \<Rightarrow> ('w, 'a) session_scheme \<Rightarrow> ('w, 'a) session_scheme" where
  "SocketSession_onSegmentArrival_SYN_SENT segment st = st"

definition SocketSession_onSegmentArrival_OTHERWISE ::
  "segment \<Rightarrow> ('w, 'a) session_scheme \<Rightarrow> ('w, 'a) session_scheme" where
  "SocketSession_onSegmentArrival_OTHERWISE segment st = st"

definition SocketSession_send ::
  "byte list \<Rightarrow> size_t \<Rightarrow> ('w, 'a) session_scheme \<Rightarrow> (('w, 'a) session_scheme \<times> size_t) res" where
  "SocketSession_send data len st = Inl UndefinedBehaviour"

definition SocketSession_receive ::
  "size_t \<Rightarrow> ('w, 'a) session_scheme \<Rightarrow> (('w, 'a) session_scheme \<times> byte list \<times> size_t) res" where
  "SocketSession_receive len st = Inl UndefinedBehaviour"

definition SocketSession_open ::
  "bool \<Rightarrow> (nat \<Rightarrow> byte) \<Rightarrow> 'w tcp_env \<Rightarrow> ('w, 'a) session_scheme \<Rightarrow> rand_generator \<Rightarrow>
     (('w, 'a) session_scheme \<times> rand_generator) res" where
  "SocketSession_open dbg fresh env st rand =
     (if se_state st \<noteq> CLOSED then Inl FatalLog
      else
        rbind (RandGenerator_rand_upper dbg rand 0xFFFFFFFF) (\<lambda>(rand, initial).
        rbind (SendBuffer_sendSYN dbg fresh env initial st) (\<lambda>st.
        Inr (st\<lparr>se_state := SYN_SENT\<rparr>, rand))))"

definition SocketSession_open_passive :: "segment \<Rightarrow> ('w, 'a) session_scheme \<Rightarrow> ('w, 'a) session_scheme res" where
  "SocketSession_open_passive seg st =
     (if se_state st \<noteq> CLOSED then Inl FatalLog
      else Inr (SocketSession_onSegmentArrival seg (st\<lparr>se_state := LISTEN\<rparr>)))"

definition SocketSession_isClosed :: "('w, 'a) session_scheme \<Rightarrow> bool" where
  "SocketSession_isClosed st \<longleftrightarrow> se_state st = CLOSED"

definition SocketSession_close ::
  "bool \<Rightarrow> (nat \<Rightarrow> byte) \<Rightarrow> 'w tcp_env \<Rightarrow> ('w, 'a) session_scheme \<Rightarrow> ('w, 'a) session_scheme res" where
  "SocketSession_close dbg fresh env st =
     (case se_state st of
        CLOSED \<Rightarrow> Inr (st\<lparr>se_state := CLOSED\<rparr>)
      | LISTEN \<Rightarrow> Inr (st\<lparr>se_state := CLOSED\<rparr>)
      | SYN_SENT \<Rightarrow> Inr (st\<lparr>se_state := CLOSED\<rparr>)
      | SYN_RECEIVED \<Rightarrow> rbind (SendBuffer_sendFIN dbg fresh env st) (\<lambda>st. Inr (st\<lparr>se_state := FIN_WAIT_1\<rparr>))
      | ESTABLISHED \<Rightarrow> rbind (SendBuffer_sendFIN dbg fresh env st) (\<lambda>st. Inr (st\<lparr>se_state := FIN_WAIT_1\<rparr>))
      | FIN_WAIT_1 \<Rightarrow> Inl FatalLog
      | FIN_WAIT_2 \<Rightarrow> Inl FatalLog
      | CLOSING \<Rightarrow> Inl FatalLog
      | LAST_ACK \<Rightarrow> Inl FatalLog
      | TIME_WAIT \<Rightarrow> Inl FatalLog
      | CLOSE_WAIT \<Rightarrow> rbind (SendBuffer_sendFIN dbg fresh env st) (\<lambda>st. Inr (st\<lparr>se_state := LAST_ACK\<rparr>)))"

definition SocketSession_getLocalAddress :: "('w, 'a) session_scheme \<Rightarrow> socket_address" where
  "SocketSession_getLocalAddress st = sf_local (ss_factory st)"

definition SocketSession_getRemoteAddress :: "('w, 'a) session_scheme \<Rightarrow> socket_address" where
  "SocketSession_getRemoteAddress st = sf_remote (ss_factory st)"

definition SocketSession_enterCLOSED :: "('w, 'a) session_scheme \<Rightarrow> ('w, 'a) session_scheme" where
  "SocketSession_enterCLOSED st = st\<lparr>se_state := CLOSED\<rparr>"

section \<open>Lemmas\<close>

lemma rand_isn: "\<exists>rand' initial. RandGenerator_rand_upper dbg rand 0xFFFFFFFF = Inr (rand', initial)"
  by (simp add: RandGenerator_rand_upper_def RandGenerator_rand_range_def DCHECK_def case_prod_unfold Let_def)

lemma sb_inv_se_state [simp]: "sb_inv (st\<lparr>se_state := x\<rparr>) = sb_inv st"
  by (simp add: sb_inv_def sb_base_def)

text \<open>What the mock IP layer queues for a segment that is sent.\<close>

definition mock_received :: "bool \<Rightarrow> ip_address \<Rightarrow> ip_address \<Rightarrow> segment \<Rightarrow> segment" where
  "mock_received dbg src dst seg =
     \<lparr>sg_source = SocketAddress src (sa_port (sg_source seg)),
      sg_destination = SocketAddress dst (sa_port (sg_destination seg)), sg_sequence = sg_sequence seg,
      sg_acknowledgment = sg_acknowledgment seg, sg_flags = sg_flags seg,
      sg_window = (if dbg then sg_window seg else 0), sg_data = sg_payload seg,
      sg_own_data = (sg_data_length seg \<noteq> 0), sg_data_length = sg_data_length seg\<rparr>"

abbreviation put_queue :: "segment \<Rightarrow> ('w mock_world_scheme, 'a) send_state_scheme \<Rightarrow> ('w mock_world_scheme, 'a) send_state_scheme" where
  "put_queue seg st \<equiv> st\<lparr>ss_world := (ss_world st)\<lparr>mq_queue := mq_queue (ss_world st) @ [seg]\<rparr>\<rparr>"

lemma mock_sendSegment:
  assumes "segment_ok seg" and "unat (sg_data_length seg) \<le> 1460" and "length (mq_queue (ss_world st)) < 16"
  shows "SendBuffer_sendSegment dbg fresh (mock_env dbg) seg st =
    Inr (put_queue (mock_received dbg (sb_source (ss_buf st)) (sb_destination (ss_buf st)) seg) st, True)"
proof -
  let ?w = "DataWriter (map fresh [0..<1480]) kMaxTCPPacketLength" and ?n = "sg_data_length seg"
  have inv: "dw_inv ?w" by (rule DataWriter_inv) (simp_all add: kMaxTCPPacketLength_def)
  have room: "dw_room ?w (20 + unat ?n)" "dw_length ?w = 0" using assms(2) by (simp_all add: DataWriter_def)
  obtain w' c where w': "Segment_writeSegmentTo dbg (map fresh [1480..<1484]) (map fresh [1484..<1488]) seg ?w =
      Inr (w', False)" "DataWriter_written w' = tcp_header seg c @ sg_payload seg"
    using write_segment [OF inv room(2,1) assms(1), of "map fresh [1480..<1484]" "map fresh [1484..<1488]" dbg] by auto
  let ?bs = "tcp_header seg c @ sg_payload seg"
  have pl: "length (sg_payload seg) = unat ?n" using assms(1) by (simp add: segment_ok_def)
  have n2: "length ?bs \<le> 2 ^ 62" using assms(2) pl by simp
  note n = unat_of_nat_len [OF n2] n2
  have d: "of_nat (length ?bs) - 20 = ?n" unfolding length_append pl by simp
  have "MockIPLayer_sendPacket dbg (sb_source (ss_buf st)) (sb_destination (ss_buf st)) TCP ?bs (ss_world st) =
      Inr ((ss_world st)\<lparr>mq_queue := mq_queue (ss_world st) @
        [mock_received dbg (sb_source (ss_buf st)) (sb_destination (ss_buf st)) seg]\<rparr>, True)"
    using assms(3) pl parse_header [OF n refl, of dbg "sb_source (ss_buf st)" "sb_destination (ss_buf st)"]
    unfolding MockIPLayer_sendPacket_def d
    by (cases "?n = 0") (simp_all add: kMaxQueueLength_def Segment_copyData_def mem_read_def mock_received_def)
  then show ?thesis using w' by (simp add: SendBuffer_sendSegment_def mock_env_def)
qed

definition syn_segment :: "uint32 \<Rightarrow> ('w, 'a) send_state_scheme \<Rightarrow> segment" where
  "syn_segment initial st =
     (if rcv_SYN_received (cb_receive (ss_tcb st))
      then SegmentFactory_createSegment_ack (ss_factory st) initial (rcv_next (cb_receive (ss_tcb st))) (SYN OR ACK)
      else SegmentFactory_createSegment_ack (ss_factory st) initial 0 SYN)"

lemma mock_sendSYN:
  assumes inv: "sb_inv st" and fin: "sb_FIN (ss_buf st) = CtlNone" and q: "length (mq_queue (ss_world st)) < 16"
  shows "SendBuffer_sendSYN dbg fresh (mock_env dbg) initial st =
    Inr (put_queue (mock_received dbg (sb_source (ss_buf st)) (sb_destination (ss_buf st)) (syn_segment initial st))
      (put_buf (\<lambda>b. b\<lparr>sb_SYN := Sent\<rparr>)
        (put_send (\<lambda>s. s\<lparr>snd_initial := initial, snd_next := initial + 1, snd_unack := initial\<rparr>) st)))"
proof -
  let ?st = "put_buf (\<lambda>b. b\<lparr>sb_SYN := Sent\<rparr>)
    (put_send (\<lambda>s. s\<lparr>snd_initial := initial, snd_next := initial + 1, snd_unack := initial\<rparr>) st)"
  have ok: "segment_ok (SegmentFactory_createSegment_ack (ss_factory st) a b c)"
    "unat (sg_data_length (SegmentFactory_createSegment_ack (ss_factory st) a b c)) \<le> 1460" for a b c
    using sb_invD(4,5) [OF inv] by (simp_all add: segment_ok_def SegmentFactory_createSegment_ack_def
        SegmentFactory_createSegment_def)
  note send = mock_sendSegment [OF ok, of ?st]
  show ?thesis
    using fin q send unfolding SendBuffer_sendSYN_def SendBuffer_transmit_def SendBuffer_transmit_SYN_def
    by (cases "rcv_SYN_received (cb_receive (ss_tcb st))")
      (simp_all add: DCHECK_ok Let_def syn_segment_def SegmentFactory_createSegment_ctl_def SYN_def ACK_def)
qed

text \<open>What the constructor establishes, on any network that keeps its contract.\<close>

definition session_fresh :: "('w, 'a) session_scheme \<Rightarrow> bool" where
  "session_fresh st \<longleftrightarrow> sb_inv st \<and> sb_contents st = [] \<and> sb_SYN (ss_buf st) = CtlNone \<and>
     sb_FIN (ss_buf st) = CtlNone \<and> se_state st = CLOSED"

context tcp_network
begin

lemma SocketSession_ok:
  assumes "winv w" and "\<not> armed w a\<^sub>1" and "\<not> armed w a\<^sub>2" and "a\<^sub>1 \<noteq> a\<^sub>2"
    and "ip_v4 (sa_host l)" and "ip_v4 (sa_host r)"
  shows "\<exists>st. SocketSession fresh env a\<^sub>1 a\<^sub>2 l r w = Inr st \<and> session_fresh st \<and> winv (ss_world st) \<and>
    armed (ss_world st) = (armed w)(a\<^sub>1 := True)"
proof -
  obtain w' where w': "SendBuffer fresh env a\<^sub>1 w = Inr (\<lparr>sb_buffer = RingBuffer fresh (1024 * 256), sb_SYN = CtlNone,
      sb_FIN = CtlNone, sb_bytes_in_flight = 0, sb_source = IPAddress, sb_destination = IPAddress, sb_alarm = a\<^sub>1\<rparr>, w')"
    "winv w'" "armed w' = (armed w)(a\<^sub>1 := True)"
    using SendBuffer_ok [OF assms(1,2)] by blast
  have "winv (env_createAlarm env a\<^sub>2 w')" "armed (env_createAlarm env a\<^sub>2 w') = armed w'"
    using create_law [OF w'(2), of a\<^sub>2] w'(3) assms(3,4) by auto
  then show ?thesis
    using w' assms(5,6) RingBuffer_init [of "262144" fresh]
    by (simp add: SocketSession_def session_fresh_def sb_inv_def SegmentFactory_def) (simp add: RingBuffer_def)
qed

lemma open_ok:
  assumes "session_fresh st" and "winv (ss_world st)"
  shows "\<exists>st' rand'. SocketSession_open dbg fresh env st rand = Inr (st', rand') \<and> se_state st' = SYN_SENT \<and>
    sb_inv st' \<and> winv (ss_world st') \<and> armed (ss_world st') = armed (ss_world st)"
proof -
  obtain rand' initial where r: "RandGenerator_rand_upper dbg rand 0xFFFFFFFF = Inr (rand', initial)"
    using rand_isn by blast
  obtain st' where "SendBuffer_sendSYN dbg fresh env initial st = Inr st'" "sb_inv st'" "winv (ss_world st')"
      "armed (ss_world st') = armed (ss_world st)"
    using sendSYN_ok [of st dbg fresh initial] assms unfolding session_fresh_def by blast
  then show ?thesis using assms(1) r by (simp add: SocketSession_open_def session_fresh_def)
qed

end

lemma SocketSession_queue:
  "SocketSession fresh (mock_env dbg) a\<^sub>1 a\<^sub>2 l r w = Inr st \<Longrightarrow> mq_queue (ss_world st) = mq_queue w"
  by (auto simp: SocketSession_def SendBuffer_def mock_env_def Alarm_set_def MockAlarm_setImpl_def
      MockAlarmFactory_registerAlarm_def MockAlarmFactory_createAlarm_def Alarm_def as_register_def put_token_def
      put_deadline_def rbind_eq_Inr_iff Let_def)

lemma ex_session:
  "\<exists>st :: mock_world session. SocketSession (\<lambda>_. 0) (mock_env True) 1 2 (ex_v4 1) (ex_v4 2) MockAlarmFactory = Inr st \<and>
     session_fresh st \<and> alarms_ok (ss_world st) \<and> mq_queue (ss_world st) = []"
proof -
  have w: "alarms_ok MockAlarmFactory" "\<not> alarms_armed MockAlarmFactory a" "mq_queue MockAlarmFactory = []" for a
    by (simp_all add: MockAlarmFactory_def alarms_ok_def alarms_armed_def as_inv_def as_base_def as_links_def entries_def)
  have "ip_v4 (sa_host (ex_v4 x))" for x by (simp add: ex_v4_def SocketAddress_def ip_wf_def)
  with mock_net.SocketSession_ok [OF w(1,2,2), of 1 2 "ex_v4 1" "ex_v4 2" "\<lambda>_. 0" True]
  obtain st where "SocketSession (\<lambda>_. 0) (mock_env True) 1 2 (ex_v4 1) (ex_v4 2) MockAlarmFactory = Inr st"
    "session_fresh st" "alarms_ok (ss_world st)" by auto
  with SocketSession_queue [OF this(1)] w(3) show ?thesis by auto
qed

section \<open>Properties\<close>

text \<open>
  C16: the handler of LISTEN follows RFC 793: a reset is ignored; an acknowledgement is answered by
  one reset that takes its sequence number from the acknowledgement; a SYN moves the session to
  SYN_RECEIVED and is answered by one SYN with ACK, which acknowledges the sequence number after
  that of the SYN and carries the initial sequence number that the control block records; anything
  else is ignored. Observed at the mock IP layer while its queue has room.
\<close>

theorem SocketSession_LISTEN_replies:
  assumes "sb_inv st" and "sb_FIN (ss_buf st) = CtlNone" and "length (mq_queue (ss_world st)) < 16"
    and "run = SocketSession_onSegmentArrival_LISTEN dbg fresh (mock_env dbg) seg st rand"
  shows "(Segment_isRST seg \<longrightarrow> run = Inr (st, rand)) \<and>
    (\<not> Segment_isRST seg \<and> Segment_isACK seg \<longrightarrow>
      (\<exists>st' reply. run = Inr (st', rand) \<and> se_state st' = se_state st \<and>
        mq_queue (ss_world st') = mq_queue (ss_world st) @ [reply] \<and> sg_flags reply = RST \<and>
        sg_sequence reply = sg_acknowledgment seg)) \<and>
    (\<not> Segment_isRST seg \<and> \<not> Segment_isACK seg \<and> Segment_isSYN seg \<longrightarrow>
      (\<exists>st' rand' reply. run = Inr (st', rand') \<and> se_state st' = SYN_RECEIVED \<and>
        mq_queue (ss_world st') = mq_queue (ss_world st) @ [reply] \<and> sg_flags reply = SYN OR ACK \<and>
        sg_acknowledgment reply = sg_sequence seg + 1 \<and> rcv_next (cb_receive (ss_tcb st')) = sg_sequence seg + 1 \<and>
        sg_sequence reply = snd_initial (tcb_send st') \<and> snd_next (tcb_send st') = snd_initial (tcb_send st') + 1)) \<and>
    (\<not> Segment_isRST seg \<and> \<not> Segment_isACK seg \<and> \<not> Segment_isSYN seg \<longrightarrow> run = Inr (st, rand))"
proof (intro conjI impI)
  assume "\<not> Segment_isRST seg \<and> Segment_isACK seg"
  then show "\<exists>st' reply. run = Inr (st', rand) \<and> se_state st' = se_state st \<and>
      mq_queue (ss_world st') = mq_queue (ss_world st) @ [reply] \<and> sg_flags reply = RST \<and>
      sg_sequence reply = sg_acknowledgment seg"
    using mock_sendSegment [of "SegmentFactory_createSegment_ack (ss_factory st) (sg_acknowledgment seg) 0 RST" st dbg fresh]
      sb_invD(4,5) [OF assms(1)] assms(3)
    by (simp add: assms(4) SocketSession_onSegmentArrival_LISTEN_def SocketSession_sendSegmentNow_def
        SegmentFactory_createSegment_ctl_def SegmentFactory_createSegment_ack_def SegmentFactory_createSegment_def
        RST_def ACK_def DCHECK_def segment_ok_def mock_received_def)
next
  assume syn: "\<not> Segment_isRST seg \<and> \<not> Segment_isACK seg \<and> Segment_isSYN seg"
  obtain rand' initial where r: "RandGenerator_rand_upper dbg rand 0xFFFFFFFF = Inr (rand', initial)"
    using rand_isn by blast
  let ?st = "st\<lparr>ss_tcb := (ss_tcb st)\<lparr>cb_receive := (cb_receive (ss_tcb st))
    \<lparr>rcv_SYN_received := True, rcv_next := sg_sequence seg + 1, rcv_initial := sg_sequence seg\<rparr>\<rparr>\<rparr>"
  have "sb_inv ?st" using assms(1) by (simp add: sb_inv_def sb_base_def)
  from mock_sendSYN [OF this, of dbg fresh initial] assms(2,3) syn r
  show "\<exists>st' rand' reply. run = Inr (st', rand') \<and> se_state st' = SYN_RECEIVED \<and>
      mq_queue (ss_world st') = mq_queue (ss_world st) @ [reply] \<and> sg_flags reply = SYN OR ACK \<and>
      sg_acknowledgment reply = sg_sequence seg + 1 \<and> rcv_next (cb_receive (ss_tcb st')) = sg_sequence seg + 1 \<and>
      sg_sequence reply = snd_initial (tcb_send st') \<and> snd_next (tcb_send st') = snd_initial (tcb_send st') + 1"
    by (simp add: assms(4) SocketSession_onSegmentArrival_LISTEN_def syn_segment_def
        SegmentFactory_createSegment_ack_def SegmentFactory_createSegment_def mock_received_def)
qed (simp_all add: assms(4) SocketSession_onSegmentArrival_LISTEN_def)

theorem SocketSession_LISTEN_replies_witness:
  "\<exists>(st :: mock_world session) st' rand' reply.
     SocketSession (\<lambda>_. 0) (mock_env True) 1 2 (ex_v4 1) (ex_v4 2) MockAlarmFactory = Inr st \<and>
     SocketSession_onSegmentArrival_LISTEN True (\<lambda>_. 0) (mock_env True)
       (SegmentFactory_createSegment_ack (SegmentFactory (ex_v4 2) (ex_v4 1)) 300 0 SYN) st (RandGenerator 20191106) =
       Inr (st', rand') \<and>
     mq_queue (ss_world st') = [reply] \<and> sg_flags reply = SYN OR ACK \<and> sg_acknowledgment reply = 301"
proof -
  obtain st :: "mock_world session" where st: "SocketSession (\<lambda>_. 0) (mock_env True) 1 2 (ex_v4 1) (ex_v4 2) MockAlarmFactory = Inr st"
    "session_fresh st" "mq_queue (ss_world st) = []" using ex_session by blast
  let ?seg = "SegmentFactory_createSegment_ack (SegmentFactory (ex_v4 2) (ex_v4 1)) 300 0 SYN"
  have seg: "\<not> Segment_isRST ?seg" "\<not> Segment_isACK ?seg" "Segment_isSYN ?seg" "sg_sequence ?seg = 300"
    by (simp_all add: Segment_isRST_def Segment_isACK_def Segment_isSYN_def SegmentFactory_createSegment_ack_def
        SegmentFactory_createSegment_def SYN_def ACK_def RST_def)
  have "\<exists>st' rand' reply. SocketSession_onSegmentArrival_LISTEN True (\<lambda>_. 0) (mock_env True) ?seg st (RandGenerator 20191106) =
      Inr (st', rand') \<and> mq_queue (ss_world st') = [reply] \<and> sg_flags reply = SYN OR ACK \<and> sg_acknowledgment reply = 301"
    using SocketSession_LISTEN_replies [of st _ True "\<lambda>_. 0" ?seg "RandGenerator 20191106", OF _ _ _ refl] st(2,3) seg
    by (auto simp: session_fresh_def)
  with st(1) show ?thesis by blast
qed

text \<open>The CLOSE call of RFC 793: the state it leads to, if the call is allowed.\<close>

definition close_next :: "connection_state \<Rightarrow> connection_state option" where
  "close_next c =
     (if c \<in> {CLOSED, LISTEN, SYN_SENT} then Some CLOSED
      else if c \<in> {SYN_RECEIVED, ESTABLISHED} then Some FIN_WAIT_1
      else if c = CLOSE_WAIT then Some LAST_ACK
      else None)"



end
