(* ===== verification/Dispatchers.thy ===== *)
theory Dispatchers
  imports Ip_Layer Socket_Session
begin

text \<open>
  \<open>src/posix/socket_struct.{h,cpp}\<close>, \<open>segment_dispatcher\<close>, \<open>listen_dispatcher\<close> and \<open>reset_dispatcher\<close>:
  the sockets and the three handlers a received segment passes through. The world extends that of
  the network layer with the objects of the upper layer. An object is known by a number that is
  never reused; a pointer to an object that has been destroyed finds nothing, and its use is
  undefined behaviour. A stored session leaves out the world, which it shares with all others.

  The condition variables and the lock are not part of the state: an operation that holds the lock
  is one step, and waiting is an argument of the operations that wait.
\<close>

section \<open>Sockets\<close>

type_synonym session_id = nat
type_synonym struct_id = nat

datatype socket_type = PASSIVE | ACTIVE | UNSPECIFIED

record socket_struct =
  st_session :: "session_id option"
  st_backlog :: uint32
  st_pending :: "session_id list"
  st_bind_address :: socket_address
  st_type :: socket_type
  st_closing :: bool
  st_message :: callback_message

text \<open>The constructor leaves \<open>message_\<close> uninitialised.\<close>

definition SocketStruct :: "callback_message \<Rightarrow> socket_address \<Rightarrow> socket_struct" where
  "SocketStruct junk address =
     \<lparr>st_session = None, st_backlog = 0, st_pending = [], st_bind_address = address, st_type = UNSPECIFIED,
      st_closing = False, st_message = junk\<rparr>"

definition SocketStruct_onMessage :: "callback_message \<Rightarrow> socket_struct \<Rightarrow> socket_struct" where
  "SocketStruct_onMessage message st =
     (let st = st\<lparr>st_message := st_message st OR message\<rparr> in
      if message = MSG_CLOSING then st\<lparr>st_closing := True\<rparr> else st)"

text \<open>\<open>waitMessage\<close> up to the wait itself.\<close>

definition SocketStruct_waitMessage :: "socket_struct \<Rightarrow> socket_struct" where
  "SocketStruct_waitMessage st = st\<lparr>st_message := 0\<rparr>"

definition SocketStruct_isErrorMessage :: "socket_struct \<Rightarrow> bool" where
  "SocketStruct_isErrorMessage st \<longleftrightarrow> st_message st AND NOT (MSG_READABLE OR MSG_WRITABLE) \<noteq> 0"

section \<open>The objects of the upper layer\<close>

record posix_world = ip_world +
  px_rand_generator :: rand_generator
  px_null_fd :: int
  px_fd_set :: "(int \<times> struct_id) list"
  px_structs :: "struct_id \<rightharpoonup> socket_struct"
  px_sessions :: "session_id \<rightharpoonup> unit session"
  px_garbage :: "session_id list"
  px_reset_buffer :: "byte list"
  px_listening :: "(socket_address \<times> struct_id) list"
  px_listen_ready :: bool
  px_established :: "(socket_address \<times> socket_address \<times> session_id) list"
  px_fresh :: nat
  px_errno :: int

definition session_load :: "unit session \<Rightarrow> 'w \<Rightarrow> 'w session" where
  "session_load x w =
     \<lparr>ss_buf = ss_buf x, ss_tcb = ss_tcb x, ss_factory = ss_factory x, ss_world = w, se_state = se_state x,
      se_callback = se_callback x, se_receive_buffer = se_receive_buffer x,
      se_time_wait_alarm = se_time_wait_alarm x\<rparr>"

definition put_session :: "session_id \<Rightarrow> 'a posix_world_scheme session \<Rightarrow> 'a posix_world_scheme" where
  "put_session i st =
     (let w = ss_world st in w\<lparr>px_sessions := (px_sessions w)(i \<mapsto>
       \<lparr>ss_buf = ss_buf st, ss_tcb = ss_tcb st, ss_factory = ss_factory st, ss_world = (), se_state = se_state st,
        se_callback = se_callback st, se_receive_buffer = se_receive_buffer st,
        se_time_wait_alarm = se_time_wait_alarm st\<rparr>)\<rparr>)"

text \<open>A call of a method of a session through a pointer.\<close>

definition on_session ::
  "session_id \<Rightarrow> ('a posix_world_scheme session \<Rightarrow> 'a posix_world_scheme session res) \<Rightarrow> 'a posix_world_scheme \<Rightarrow>
     'a posix_world_scheme res" where
  "on_session i f s =
     (case px_sessions s i of
        None \<Rightarrow> Inl UndefinedBehaviour
      | Some x \<Rightarrow> rbind (f (session_load x s)) (\<lambda>st. Inr (put_session i st)))"

definition on_struct ::
  "struct_id \<Rightarrow> (socket_struct \<Rightarrow> 'b res) \<Rightarrow> 'a posix_world_scheme \<Rightarrow> 'b res" where
  "on_struct j f s = (case px_structs s j of None \<Rightarrow> Inl UndefinedBehaviour | Some st \<Rightarrow> f st)"

abbreviation put_struct :: "struct_id \<Rightarrow> socket_struct \<Rightarrow> 'a posix_world_scheme \<Rightarrow> 'a posix_world_scheme" where
  "put_struct j st s \<equiv> s\<lparr>px_structs := (px_structs s)(j \<mapsto> st)\<rparr>"

section \<open>Established sessions\<close>

type_synonym 's packet_callback = "byte list \<Rightarrow> size_t \<Rightarrow> ip_address \<Rightarrow> ip_address \<Rightarrow> 's \<Rightarrow> 's res"

definition SegmentDispatcher :: "bool \<Rightarrow> bool \<Rightarrow> 'a posix_world_scheme \<Rightarrow> 'a posix_world_scheme res" where
  "SegmentDispatcher dbg next_set s = rbind (DCHECK dbg next_set) (\<lambda>_. Inr (s\<lparr>px_established := []\<rparr>))"

definition SegmentDispatcher_lookupSession ::
  "socket_address \<Rightarrow> socket_address \<Rightarrow> 'a posix_world_scheme \<Rightarrow> session_id option" where
  "SegmentDispatcher_lookupSession to from s =
     map_option (\<lambda>(l, p, i). i)
       (find (\<lambda>(l, p, i). SocketAddress_eq l to \<and> SocketAddress_eq p from) (px_established s))"

definition SegmentDispatcher_addSession ::
  "socket_address \<Rightarrow> socket_address \<Rightarrow> session_id \<Rightarrow> 'a posix_world_scheme \<Rightarrow> 'a posix_world_scheme" where
  "SegmentDispatcher_addSession local_address peer session s =
     s\<lparr>px_established := px_established s @ [(local_address, peer, session)]\<rparr>"

fun erase_session ::
  "session_id \<Rightarrow> (socket_address \<times> socket_address \<times> session_id) list \<Rightarrow>
     (socket_address \<times> socket_address \<times> session_id) list" where
  "erase_session session [] = []"
| "erase_session session ((l, p, i) # es) = (if i = session then es else (l, p, i) # erase_session session es)"

definition SegmentDispatcher_removeSession ::
  "session_id \<Rightarrow> 'a posix_world_scheme \<Rightarrow> 'a posix_world_scheme" where
  "SegmentDispatcher_removeSession session s = s\<lparr>px_established := erase_session session (px_established s)\<rparr>"

definition SegmentDispatcher_onReceivePacket ::
  "bool \<Rightarrow> 'a posix_world_scheme packet_callback \<Rightarrow> 'a posix_world_scheme packet_callback" where
  "SegmentDispatcher_onReceivePacket dbg next buffer len source destination s =
     rbind (Segment_parse dbg source destination buffer len) (\<lambda>segment.
     case SegmentDispatcher_lookupSession (sg_destination segment) (sg_source segment) s of
       None \<Rightarrow> next buffer len source destination s
     | Some session \<Rightarrow> on_session session (\<lambda>st. Inr (SocketSession_onSegmentArrival segment st)) s)"

section \<open>Listening sockets\<close>

definition ListenDispatcher :: "'a posix_world_scheme \<Rightarrow> 'a posix_world_scheme" where
  "ListenDispatcher s = s\<lparr>px_listening := [], px_listen_ready := False\<rparr>"

definition ListenDispatcher_setDispatcher :: "'a posix_world_scheme \<Rightarrow> 'a posix_world_scheme" where
  "ListenDispatcher_setDispatcher s = s\<lparr>px_listen_ready := True\<rparr>"

definition ListenDispatcher_addListener ::
  "socket_address \<Rightarrow> struct_id \<Rightarrow> 'a posix_world_scheme \<Rightarrow> 'a posix_world_scheme" where
  "ListenDispatcher_addListener target socket_st s = s\<lparr>px_listening := px_listening s @ [(target, socket_st)]\<rparr>"

fun erase_listener ::
  "struct_id \<Rightarrow> (socket_address \<times> struct_id) list \<Rightarrow> (socket_address \<times> struct_id) list" where
  "erase_listener socket_st [] = []"
| "erase_listener socket_st ((a, j) # ls) = (if j = socket_st then ls else (a, j) # erase_listener socket_st ls)"

definition ListenDispatcher_removeSession :: "struct_id \<Rightarrow> 'a posix_world_scheme \<Rightarrow> 'a posix_world_scheme" where
  "ListenDispatcher_removeSession socket_st s = s\<lparr>px_listening := erase_listener socket_st (px_listening s)\<rparr>"

definition ListenDispatcher_lookupSession :: "socket_address \<Rightarrow> 'a posix_world_scheme \<Rightarrow> struct_id option" where
  "ListenDispatcher_lookupSession to s =
     map_option snd (find (\<lambda>(listener, j).
       sa_port to = sa_port listener \<and>
       (IPAddress_isInaddrAny (sa_host listener) \<or> IPAddress_eq (sa_host to) (sa_host listener))) (px_listening s))"

text \<open>A new session gets three numbers: its own and those of its two alarms.\<close>

definition make_session ::
  "(nat \<Rightarrow> byte) \<Rightarrow> 'a posix_world_scheme tcp_env \<Rightarrow> socket_address \<Rightarrow> socket_address \<Rightarrow> 'a posix_world_scheme \<Rightarrow>
     ('a posix_world_scheme \<times> session_id) res" where
  "make_session fresh env local_address remote_address s =
     (let i = px_fresh s in
      rbind (SocketSession fresh env (i + 1) (i + 2) local_address remote_address (s\<lparr>px_fresh := i + 3\<rparr>)) (\<lambda>st.
      Inr (put_session i st, i)))"

definition ListenDispatcher_onReceivePacket ::
  "bool \<Rightarrow> (nat \<Rightarrow> byte) \<Rightarrow> 'a posix_world_scheme tcp_env \<Rightarrow> 'a posix_world_scheme packet_callback \<Rightarrow>
     'a posix_world_scheme packet_callback" where
  "ListenDispatcher_onReceivePacket dbg fresh env next buffer len source destination s =
     rbind (Segment_parse dbg source destination buffer len) (\<lambda>segment.
     let to = sg_destination segment; from = sg_source segment in
     case ListenDispatcher_lookupSession to s of
       None \<Rightarrow> next buffer len source destination s
     | Some j \<Rightarrow>
         on_struct j (\<lambda>st.
           if of_nat (length (st_pending st)) \<ge> (ucast (st_backlog st) :: size_t) then Inr s
           else
             rbind (make_session fresh env to from s) (\<lambda>(s, i).
             let s = put_struct j (st\<lparr>st_pending := st_pending st @ [i]\<rparr>) s in
             rbind (on_session i (SocketSession_open_passive segment) s) (\<lambda>s.
             if \<not> px_listen_ready s then Inl FatalLog
             else Inr (SegmentDispatcher_addSession to from i s)))) s)"

section \<open>Segments without a connection\<close>

definition ResetDispatcher :: "(nat \<Rightarrow> byte) \<Rightarrow> 'a posix_world_scheme \<Rightarrow> 'a posix_world_scheme" where
  "ResetDispatcher fresh s = s\<lparr>px_reset_buffer := map fresh [0..<unat kMaxTCPPacketLength]\<rparr>"

definition ResetDispatcher_onReceivePacket ::
  "bool \<Rightarrow> (nat \<Rightarrow> byte) \<Rightarrow> 'a posix_world_scheme tcp_env \<Rightarrow> 'a posix_world_scheme packet_callback" where
  "ResetDispatcher_onReceivePacket dbg fresh env buffer len source destination s =
     rbind (Segment_parse dbg source destination buffer len) (\<lambda>segment.
     let to = sg_destination segment; from = sg_source segment; factory = SegmentFactory to from in
     rbind (if Segment_isACK segment
            then SegmentFactory_createSegment_ctl dbg factory (sg_acknowledgment segment) RST
            else Inr (SegmentFactory_createSegment_ack factory 0
              (ucast (ucast (sg_sequence segment) + sg_data_length segment)) (RST OR ACK))) (\<lambda>response.
     rbind (Segment_writeSegmentTo dbg (map fresh [0..<4]) (map fresh [4..<8]) segment
       (DataWriter (px_reset_buffer s) kMaxTCPPacketLength)) (\<lambda>(writer, _).
     rbind (env_sendPacket env (sa_host to) (sa_host from) TCP (DataWriter_written writer)
       (s\<lparr>px_reset_buffer := dw_buffer writer\<rparr>)) (\<lambda>(s, sent). Inr s))))"

section \<open>Lemmas\<close>

subsection \<open>The network layer leaves the objects above it alone\<close>

lemma Alarm_more:
  "Alarm_set dbg EpollAlarm_setImpl a t s = Inr s' \<Longrightarrow> ip_world.more s' = ip_world.more s"
  "Alarm_cancel EpollAlarm_cancelImpl a s = Inr s' \<Longrightarrow> ip_world.more s' = ip_world.more s"
  "Alarm_update EpollAlarm_setImpl EpollAlarm_cancelImpl a t g s = Inr s' \<Longrightarrow> ip_world.more s' = ip_world.more s"
  by (auto simp: Alarm_set_def Alarm_cancel_def Alarm_update_def Alarm_updateImpl_def EpollAlarm_setImpl_def
      EpollAlarm_cancelImpl_def EpollServer_registerAlarm_def EpollServer_unregisterAlarm_def as_register_def
      as_unregister_def put_token_def put_deadline_def rbind_eq_Inr_iff Let_def split: if_splits option.splits)

lemma sendPacket_more:
  "IPLayer_sendPacket src dst p bs s = Inr (s', ok) \<Longrightarrow> ip_world.more s' = ip_world.more s"
  by (auto simp: IPLayer_sendPacket_def IPLayer_makePacket_def IPLayer_deliverPacket_def ignoring_def
      rbind_eq_Inr_iff Let_def split: if_splits)

lemma ip_env_frame: "tcp_network (ip_env dbg) (\<lambda>s. ip_ok s \<and> ip_world.more s = X) alarms_armed"
proof (unfold_locales, goal_cases)
  case (1 w bs src dst)
  then show ?case using ip_net.send_law [of w bs dbg src dst] sendPacket_more
    by (fastforce simp: ip_env_def)
next
  case (2 w a)
  then show ?case using ip_net.create_law [of w a dbg]
    by (simp add: ip_env_def EpollAlarmFactory_createAlarm_def) (simp add: Alarm_def)
next
  case (3 w a)
  then show ?case using ip_net.set_law [of w a dbg] Alarm_more(1) by (fastforce simp: ip_env_def)
next
  case (4 w a)
  then show ?case using ip_net.update_law [of w dbg a] Alarm_more(3) by (fastforce simp: ip_env_def)
next
  case (5 w a)
  then show ?case using ip_net.cancel_law [of w dbg a] Alarm_more(2) by (fastforce simp: ip_env_def)
qed

lemma px_update_ok [simp]:
  "ip_ok (s\<lparr>px_sessions := x1\<rparr>) = ip_ok s" "ip_ok (s\<lparr>px_structs := x2\<rparr>) = ip_ok s"
  "ip_ok (s\<lparr>px_fresh := x3\<rparr>) = ip_ok s" "ip_ok (s\<lparr>px_established := x4\<rparr>) = ip_ok s"
  "alarms_armed (s\<lparr>px_sessions := x1\<rparr>) = alarms_armed s" "alarms_armed (s\<lparr>px_structs := x2\<rparr>) = alarms_armed s"
  "alarms_armed (s\<lparr>px_fresh := x3\<rparr>) = alarms_armed s" "alarms_armed (s\<lparr>px_established := x4\<rparr>) = alarms_armed s"
  by (simp_all add: ip_ok_def alarms_ok_def alarms_armed_def as_inv_def as_base_def as_links_def entries_def fun_eq_iff)

text \<open>The world is in order: the network layer is, and the alarms of future objects are not set.\<close>

definition px_ok :: "'a posix_world_scheme \<Rightarrow> bool" where
  "px_ok s \<longleftrightarrow> ip_ok s \<and> (\<forall>a. px_fresh s < a \<longrightarrow> \<not> alarms_armed s a)"

lemma put_session_facts [simp]:
  "px_structs (put_session i st) = px_structs (ss_world st)" "px_listen_ready (put_session i st) = px_listen_ready (ss_world st)"
  "px_established (put_session i st) = px_established (ss_world st)" "px_fresh (put_session i st) = px_fresh (ss_world st)"
  "ip_ok (put_session i st) = ip_ok (ss_world st)" "alarms_armed (put_session i st) = alarms_armed (ss_world st)"
  "px_fd_set (put_session i st) = px_fd_set (ss_world st)" "px_listening (put_session i st) = px_listening (ss_world st)"
  "px_garbage (put_session i st) = px_garbage (ss_world st)"
  by (simp_all add: put_session_def Let_def)

lemma make_session_ok:
  assumes "px_ok s" and "ip_v4 (sa_host l)" and "ip_v4 (sa_host r)"
  shows "\<exists>s' x. make_session fresh (ip_env dbg) l r s = Inr (s', px_fresh s) \<and> px_ok s' \<and>
    px_sessions s' = (px_sessions s)(px_fresh s \<mapsto> x) \<and> se_state x = CLOSED \<and>
    px_structs s' = px_structs s \<and> px_listen_ready s' = px_listen_ready s \<and> px_established s' = px_established s \<and>
    px_listening s' = px_listening s \<and> px_fd_set s' = px_fd_set s \<and> px_garbage s' = px_garbage s \<and>
    px_fresh s' = px_fresh s + 3"
proof -
  let ?i = "px_fresh s" and ?s = "s\<lparr>px_fresh := px_fresh s + 3\<rparr>"
  have "\<not> alarms_armed ?s (?i + 1)" "\<not> alarms_armed ?s (?i + 2)" using assms(1) by (simp_all add: px_ok_def)
  with tcp_network.SocketSession_ok [OF ip_env_frame [of dbg "ip_world.more ?s"], of ?s "?i + 1" "?i + 2" l r fresh] assms
  obtain st where st: "SocketSession fresh (ip_env dbg) (?i + 1) (?i + 2) l r ?s = Inr st" "session_fresh st"
      "ip_ok (ss_world st)" "ip_world.more (ss_world st) = ip_world.more ?s"
      "alarms_armed (ss_world st) = (alarms_armed ?s)(?i + 1 := True)"
    by (auto simp: px_ok_def)
  have more: "px_sessions (ss_world st) = px_sessions s" "px_structs (ss_world st) = px_structs s"
    "px_listen_ready (ss_world st) = px_listen_ready s" "px_established (ss_world st) = px_established s"
    "px_listening (ss_world st) = px_listening s" "px_fd_set (ss_world st) = px_fd_set s"
    "px_garbage (ss_world st) = px_garbage s" "px_fresh (ss_world st) = ?i + 3"
    using st(4) by (cases "ss_world st"; cases s; simp)+
  have "make_session fresh (ip_env dbg) l r s = Inr (put_session ?i st, ?i)"
    using st(1) by (simp add: make_session_def Let_def)
  moreover have "px_ok (put_session ?i st)"
    using st(3,5) more(8) assms(1) by (auto simp: px_ok_def)
  moreover have "\<exists>x. px_sessions (put_session ?i st) = (px_sessions s)(?i \<mapsto> x) \<and> se_state x = CLOSED"
    using more(1) st(2) by (auto simp: put_session_def Let_def session_fresh_def)
  ultimately show ?thesis using more by auto
qed

subsection \<open>Received packets\<close>

text \<open>A received TCP packet: the header of \<open>h\<close> with checksum \<open>c\<close>, and the data.\<close>

definition received :: "bool \<Rightarrow> ip_address \<Rightarrow> ip_address \<Rightarrow> segment \<Rightarrow> byte list \<Rightarrow> segment" where
  "received dbg source destination h d =
     \<lparr>sg_source = SocketAddress source (sa_port (sg_source h)),
      sg_destination = SocketAddress destination (sa_port (sg_destination h)),
      sg_sequence = sg_sequence h, sg_acknowledgment = sg_acknowledgment h, sg_flags = sg_flags h,
      sg_window = (if dbg then sg_window h else 0), sg_data = d, sg_own_data = False,
      sg_data_length = of_nat (length d)\<rparr>"

lemma parse_received:
  assumes "buf = tcp_header h c @ d" and "length d \<le> 2 ^ 61"
  shows "Segment_parse dbg source destination buf (of_nat (length buf)) = Inr (received dbg source destination h d)"
proof -
  have l: "length buf \<le> 2 ^ 62" using assms by simp
  have "of_nat (length buf) - 20 = (of_nat (length d) :: size_t)" using assms(1) by simp
  then show ?thesis
    using parse_header [OF unat_of_nat_len [OF l] l assms(1), of dbg source destination] by (simp add: received_def)
qed

lemma open_passive_stored:
  assumes "px_sessions s i = Some x" and "se_state x = CLOSED"
  shows "on_session i (SocketSession_open_passive segment) s =
    Inr (put_session i ((session_load x s)\<lparr>se_state := LISTEN\<rparr>))"
  using assms by (simp add: on_session_def SocketSession_open_passive_def SocketSession_onSegmentArrival_def session_load_def)

section \<open>Properties\<close>


text \<open>A stack with one listening socket, on port 80 of every address, with a backlog of 1.\<close>

definition ex_posix :: posix_world where
  "ex_posix =
     \<lparr>as_map = [], as_fresh = 0, as_alarms = (\<lambda>a. \<lparr>al_deadline = 0, al_token = None\<rparr>), as_now = 100000000,
      ep_epfd = 3, ep_cb_map = Map.empty, dm_device_list = [(''veth0'', ex_device)], dm_devices = [''veth0''],
      dm_ip_set = [], rt_entries = [], il_buffer = replicate 1500 0, il_callback = None, il_probe_alarm = 0,
      il_rand_generator = RandGenerator 233, px_rand_generator = RandGenerator 19260817, px_null_fd = 4,
      px_fd_set = [(5, 1)], px_structs = [1 \<mapsto> (SocketStruct 0 (SocketAddress (IPAddress_in_addr 0) 80))
        \<lparr>st_type := PASSIVE, st_backlog := 1\<rparr>], px_sessions = Map.empty, px_garbage = [],
      px_reset_buffer = replicate 1480 0, px_listening = [(SocketAddress (IPAddress_in_addr 0) 80, 1)],
      px_listen_ready = True, px_established = [], px_fresh = 2, px_errno = 0\<rparr>"

lemma ex_posix_ok: "px_ok ex_posix"
  by (simp add: px_ok_def ip_ok_def alarms_ok_def alarms_armed_def ex_posix_def as_inv_def as_base_def as_links_def
      entries_def)

definition ex_syn :: segment where
  "ex_syn = \<lparr>sg_source = ex_v4 1, sg_destination = ex_v4 2, sg_sequence = 7, sg_acknowledgment = 0, sg_flags = SYN,
     sg_window = 512, sg_data = [], sg_own_data = False, sg_data_length = 0\<rparr>"


text \<open>
  C23: the answer to a segment without a connection is the segment itself: the dispatcher builds a RST
  but writes the received segment, ports and flags as they came, and sends it to where it came from
  (with a zero window in a release build, which does not read the field).
\<close>

theorem ResetDispatcher_echoes:
  assumes "buf = tcp_header h c @ d" and "length d \<le> 1460" and "ip_v4 source" and "ip_v4 destination"
    and "length (px_reset_buffer s) = 1480"
  shows "\<exists>c' b. ResetDispatcher_onReceivePacket dbg fresh env buf (of_nat (length buf)) source destination s =
    rbind (env_sendPacket env destination source TCP
      (tcp_header (h\<lparr>sg_window := if dbg then sg_window h else 0\<rparr>) c' @ d) (s\<lparr>px_reset_buffer := b\<rparr>))
      (\<lambda>(s, sent). Inr s)"
proof -
  let ?seg = "received dbg source destination h d" and ?w = "DataWriter (px_reset_buffer s) kMaxTCPPacketLength"
  have n: "unat (of_nat (length d) :: size_t) = length d" using assms(2) by (intro unat_of_nat_len) simp
  have "dw_inv ?w" by (rule DataWriter_inv) (simp_all add: assms(5) kMaxTCPPacketLength_def)
  moreover have "dw_length ?w = 0" "dw_room ?w (20 + unat (sg_data_length ?seg))" "segment_ok ?seg"
    using assms(2-5) n by (simp_all add: DataWriter_def received_def segment_ok_def SocketAddress_def)
  ultimately obtain w' c' where w': "Segment_writeSegmentTo dbg (map fresh [0..<4]) (map fresh [4..<8]) ?seg ?w = Inr (w', False)"
      "DataWriter_written w' = tcp_header ?seg c' @ sg_payload ?seg"
    using write_segment [of ?w ?seg "map fresh [0..<4]" "map fresh [4..<8]" dbg] by auto
  have h: "tcp_header ?seg c' = tcp_header (h\<lparr>sg_window := if dbg then sg_window h else 0\<rparr>) c'"
    by (simp add: tcp_header_def tcp_fields_def received_def SocketAddress_def)
  have pay: "sg_payload ?seg = d" using n by (simp add: received_def)
  have "RST AND ACK = 0" by (simp add: RST_def ACK_def)
  then have ctl: "\<exists>r. SegmentFactory_createSegment_ctl dbg f seq RST = Inr r" for f seq
    by (simp add: SegmentFactory_createSegment_ctl_def)
  have parse: "Segment_parse dbg source destination buf (of_nat (length buf)) = Inr ?seg"
    using assms(1,2) by (intro parse_received) auto
  obtain r where r: "(if Segment_isACK ?seg
      then SegmentFactory_createSegment_ctl dbg (SegmentFactory (sg_destination ?seg) (sg_source ?seg)) (sg_acknowledgment ?seg) RST
      else Inr (SegmentFactory_createSegment_ack (SegmentFactory (sg_destination ?seg) (sg_source ?seg)) 0
        (ucast (ucast (sg_sequence ?seg) + sg_data_length ?seg)) (RST OR ACK))) = Inr r"
    using ctl by (cases "Segment_isACK ?seg") auto
  have "ResetDispatcher_onReceivePacket dbg fresh env buf (of_nat (length buf)) source destination s =
    rbind (env_sendPacket env destination source TCP (tcp_header ?seg c' @ d) (s\<lparr>px_reset_buffer := dw_buffer w'\<rparr>))
      (\<lambda>(s, sent). Inr s)"
    unfolding ResetDispatcher_onReceivePacket_def Let_def parse rbind_Inr r w'(1)
    by (simp add: w'(2) pay) (simp add: received_def SocketAddress_def)
  then show ?thesis unfolding h by blast
qed

theorem ResetDispatcher_echoes_witness:
  "\<exists>(s' :: posix_world) c. ResetDispatcher_onReceivePacket True (\<lambda>_. 0)
      (ip_env True\<lparr>env_sendPacket := \<lambda>src dst p bs s. Inr (s\<lparr>px_reset_buffer := bs\<rparr>, True)\<rparr>) (tcp_header ex_syn 0) 20
      (IPAddress_in_addr 0x0100000A) (IPAddress_in_addr 0x0200000A) ex_posix = Inr s' \<and>
    px_reset_buffer s' = tcp_header ex_syn c"
proof -
  let ?env = "ip_env True\<lparr>env_sendPacket := \<lambda>src dst p bs s. Inr (s\<lparr>px_reset_buffer := bs\<rparr>, True)\<rparr> :: posix_world tcp_env"
  have "length (tcp_header ex_syn 0) = 20" "length (px_reset_buffer ex_posix) = 1480" by (simp_all add: ex_posix_def)
  with ResetDispatcher_echoes [of "tcp_header ex_syn 0" ex_syn 0 "[]" "IPAddress_in_addr 0x0100000A"
      "IPAddress_in_addr 0x0200000A" ex_posix True "\<lambda>_. 0" ?env]
  show ?thesis by auto
qed

end
