(* ===== verification/Protocol_Stack.thy ===== *)
theory Protocol_Stack
  imports Dispatchers "HOL-Library.Sublist"
begin

text \<open>
  \<open>src/posix/protocol_stack.{h,cpp}\<close>: construction of the layers, the event
  loop thread and the socket calls. A call that the stack does not own goes to the C library, a
  parameter. Calls that wait take the list of what other threads do to the state until each wake-up;
  when it is used up the call is still waiting, \<open>None\<close>. \<open>_read\<close> and the body of the loop of \<open>_accept\<close>
  are left open in the code: the first ends without a value, the second waits forever.
\<close>

section \<open>Parameters and errors\<close>

record real_calls =
  real_socket :: "int \<Rightarrow> int \<Rightarrow> int \<Rightarrow> int"
  real_bind :: "int \<Rightarrow> byte list \<Rightarrow> uint32 \<Rightarrow> int"
  real_listen :: "int \<Rightarrow> int \<Rightarrow> int"
  real_connect :: "int \<Rightarrow> byte list \<Rightarrow> uint32 \<Rightarrow> int"
  real_accept :: "int \<Rightarrow> int"
  real_write :: "int \<Rightarrow> byte list \<Rightarrow> size_t \<Rightarrow> int"
  real_close :: "int \<Rightarrow> int"
  real_getaddrinfo :: "string \<Rightarrow> string \<Rightarrow> int"

text \<open>\<open>eval/wrap_null.c\<close>: the replacement of the C library where only the stack may be used.\<close>

definition wrap_null :: real_calls where
  "wrap_null = \<lparr>real_socket = (\<lambda>_ _ _. - 2), real_bind = (\<lambda>_ _ _. - 2), real_listen = (\<lambda>_ _. - 2),
     real_connect = (\<lambda>_ _ _. - 2), real_accept = (\<lambda>_. - 2), real_write = (\<lambda>_ _ _. - 2),
     real_close = (\<lambda>_. - 2), real_getaddrinfo = (\<lambda>_ _. - 2)\<rparr>"

definition EBADF :: int where "EBADF = 9"
definition EINVAL :: int where "EINVAL = 22"
definition EOPNOTSUPP :: int where "EOPNOTSUPP = 95"
definition ECONNABORTED :: int where "ECONNABORTED = 103"
definition EISCONN :: int where "EISCONN = 106"
definition ENOTCONN :: int where "ENOTCONN = 107"

definition RETURN_ERRNO :: "int \<Rightarrow> 'a posix_world_scheme \<Rightarrow> ('a posix_world_scheme \<times> int) res" where
  "RETURN_ERRNO err s = Inr (s\<lparr>px_errno := err\<rparr>, - 1)"

section \<open>Descriptors\<close>

definition ProtocolStack_ownFD :: "int \<Rightarrow> 'a posix_world_scheme \<Rightarrow> bool" where
  "ProtocolStack_ownFD fd s \<longleftrightarrow> map_of (px_fd_set s) fd \<noteq> None"

definition ProtocolStack_lookupStruct :: "int \<Rightarrow> 'a posix_world_scheme \<Rightarrow> struct_id option" where
  "ProtocolStack_lookupStruct fd s = map_of (px_fd_set s) fd"

text \<open>Erasing an entry destroys the socket it owns.\<close>

definition ProtocolStack_removeStruct :: "int \<Rightarrow> 'a posix_world_scheme \<Rightarrow> 'a posix_world_scheme" where
  "ProtocolStack_removeStruct fd s =
     s\<lparr>px_structs := (case map_of (px_fd_set s) fd of None \<Rightarrow> px_structs s | Some j \<Rightarrow> (px_structs s)(j := None)),
       px_fd_set := filter (\<lambda>e. fst e \<noteq> fd) (px_fd_set s)\<rparr>"

text \<open>The socket behind a descriptor; the null pointer is a fault.\<close>

definition with_struct ::
  "int \<Rightarrow> (struct_id \<Rightarrow> socket_struct \<Rightarrow> 'b res) \<Rightarrow> 'a posix_world_scheme \<Rightarrow> 'b res" where
  "with_struct fd f s =
     (case ProtocolStack_lookupStruct fd s of
        None \<Rightarrow> Inl NullDereference
      | Some j \<Rightarrow> on_struct j (f j) s)"

section \<open>Construction and event loop\<close>

text \<open>
  The constructor. \<open>epoll_create\<close>, the time of day, the devices libpcap finds and the result of
  opening \<open>/dev/null\<close> are parameters; the probe alarm has the number 0.
\<close>

definition ProtocolStack ::
  "bool \<Rightarrow> (nat \<Rightarrow> byte) \<Rightarrow> pton \<Rightarrow> int \<Rightarrow> timeofday \<Rightarrow> int \<times> string list \<Rightarrow> int \<Rightarrow> posix_world res" where
  "ProtocolStack dbg fresh inet_pton epoll_create gettimeofday pcap_findalldevs null_fd =
     rbind (EpollServer epoll_create gettimeofday
       (ether_world_ext [] [] []
         (ip_world_ext [] [] None 0 (RandGenerator 0)
           (posix_world_ext (RandGenerator 19260817) null_fd [] Map.empty Map.empty [] [] [] False [] 1 0 ())))) (\<lambda>s.
     let s = DeviceManager pcap_findalldevs s in
     rbind (IPLayer dbg fresh inet_pton 0 s) (\<lambda>s.
     let s = ListenDispatcher (ResetDispatcher fresh s) in
     rbind (SegmentDispatcher dbg True s) (\<lambda>s.
     if null_fd < 0 then Inl FatalLog
     else
       let s = DeviceManager_setCallback 0 s;
           s = IPLayer_setCallback 0 s
       in Inr (ListenDispatcher_setDispatcher s))))"

text \<open>
  The body of the thread runs the event loop forever. A run is given by what the system calls
  return in each round.
\<close>

record round_input =
  ri_timeofday :: timeofday
  ri_epoll_wait :: "int \<Rightarrow> int \<Rightarrow> int \<times> int list"

primrec ProtocolStack_startEventLoop ::
  "(nat \<Rightarrow> 'a epoll_server_scheme \<Rightarrow> 'a epoll_server_scheme res) \<Rightarrow> 'a epoll_server_scheme onAlarm \<Rightarrow>
     round_input list \<Rightarrow> 'a epoll_server_scheme \<Rightarrow> 'a epoll_server_scheme res option" where
  "ProtocolStack_startEventLoop onReadable onAlarm [] s = Some (Inr s)"
| "ProtocolStack_startEventLoop onReadable onAlarm (r # rs) s =
     Option.bind (EpollServer_runEventLoop (ri_timeofday r) (ri_epoll_wait r) onReadable onAlarm
         (Delta_fromMilliseconds 1000) s) (\<lambda>res.
       case res of
         Inl e \<Rightarrow> Some (Inl e)
       | Inr p \<Rightarrow> ProtocolStack_startEventLoop onReadable onAlarm rs (fst p))"

definition ProtocolStack_onReceivePacket ::
  "bool \<Rightarrow> (nat \<Rightarrow> byte) \<Rightarrow> 'a posix_world_scheme tcp_env \<Rightarrow> 'a posix_world_scheme packet_callback" where
  "ProtocolStack_onReceivePacket dbg fresh env =
     SegmentDispatcher_onReceivePacket dbg (ListenDispatcher_onReceivePacket dbg fresh env
       (ResetDispatcher_onReceivePacket dbg fresh env))"

section \<open>Socket calls\<close>

text \<open>
  \<open>_socket\<close>: \<open>AF_INET\<close> is 2, \<open>SOCK_STREAM\<close> 1, \<open>IPPROTO_TCP\<close> 6; \<open>dup\<close> is what duplicating the null
  descriptor returns. The port is truncated to 16 bits.
\<close>

definition ProtocolStack_socket ::
  "bool \<Rightarrow> real_calls \<Rightarrow> callback_message \<Rightarrow> int \<Rightarrow> int \<Rightarrow> int \<Rightarrow> int \<Rightarrow> 'a posix_world_scheme \<Rightarrow>
     ('a posix_world_scheme \<times> int) res" where
  "ProtocolStack_socket dbg real junk dup domain type protocol s =
     (if domain \<noteq> 2 \<or> type \<noteq> 1 \<or> protocol \<noteq> 0 \<and> protocol \<noteq> 6
      then Inr (s, real_socket real domain type protocol)
      else
        let fd = dup in
        rbind (DCHECK dbg (\<not> ProtocolStack_ownFD fd s)) (\<lambda>_.
        rbind (IPLayer_getDefaultIP s) (\<lambda>ip.
        rbind (RandGenerator_rand_range dbg (px_rand_generator s) 49162 65536) (\<lambda>(rand, port).
        let s = s\<lparr>px_rand_generator := rand\<rparr>;
            j = px_fresh s;
            s = ProtocolStack_removeStruct fd s
        in Inr (s\<lparr>px_fd_set := (fd, j) # px_fd_set s, px_fresh := j + 1,
                  px_structs := (px_structs s)(j \<mapsto> SocketStruct junk (SocketAddress ip (ucast port)))\<rparr>, fd)))))"

definition ProtocolStack_bind ::
  "real_calls \<Rightarrow> int \<Rightarrow> byte list \<Rightarrow> uint32 \<Rightarrow> 'a posix_world_scheme \<Rightarrow> ('a posix_world_scheme \<times> int) res" where
  "ProtocolStack_bind real socket address address_len s =
     (if \<not> ProtocolStack_ownFD socket s then Inr (s, real_bind real socket address address_len)
      else
        rbind (SocketAddress_sockaddr address address_len) (\<lambda>socket_address.
        with_struct socket (\<lambda>j st. Inr (put_struct j (st\<lparr>st_bind_address := socket_address\<rparr>) s, 0)) s))"

definition ProtocolStack_listen ::
  "real_calls \<Rightarrow> int \<Rightarrow> int \<Rightarrow> 'a posix_world_scheme \<Rightarrow> ('a posix_world_scheme \<times> int) res" where
  "ProtocolStack_listen real socket backlog s =
     (if \<not> ProtocolStack_ownFD socket s then Inr (s, real_listen real socket backlog)
      else
        let backlog = (if backlog \<le> 0 then 1 else backlog) in
        with_struct socket (\<lambda>j st.
          if st_type st \<noteq> UNSPECIFIED then RETURN_ERRNO EINVAL s
          else
            let s = put_struct j (st\<lparr>st_type := PASSIVE, st_backlog := of_int backlog\<rparr>) s
            in Inr (ListenDispatcher_addListener (st_bind_address st) j s, 0)) s)"

definition ProtocolStack_connect ::
  "bool \<Rightarrow> (nat \<Rightarrow> byte) \<Rightarrow> 'a posix_world_scheme tcp_env \<Rightarrow> real_calls \<Rightarrow> int \<Rightarrow> byte list \<Rightarrow> uint32 \<Rightarrow>
     'a posix_world_scheme \<Rightarrow> ('a posix_world_scheme \<times> int) res" where
  "ProtocolStack_connect dbg fresh env real socket address address_len s =
     (if \<not> ProtocolStack_ownFD socket s then Inr (s, real_connect real socket address address_len)
      else with_struct socket (\<lambda>j st.
        rbind (SocketAddress_sockaddr address address_len) (\<lambda>peer_address.
        if st_type st = PASSIVE then RETURN_ERRNO EOPNOTSUPP s
        else if st_type st = ACTIVE then RETURN_ERRNO EISCONN s
        else
          rbind (DCHECK dbg (st_type st = UNSPECIFIED)) (\<lambda>_.
          rbind (make_session fresh env (st_bind_address st) peer_address s) (\<lambda>(s, i).
          let s = put_struct j (st\<lparr>st_type := ACTIVE, st_session := Some i\<rparr>) s;
              s = SegmentDispatcher_addSession (st_bind_address st) peer_address i s
          in rbind (case px_sessions s i of
                      None \<Rightarrow> Inl UndefinedBehaviour
                    | Some x \<Rightarrow> SocketSession_open dbg fresh env (session_load x s) (px_rand_generator s)) (\<lambda>(se, rand).
             Inr ((put_session i (SocketSession_setCallback j se))\<lparr>px_rand_generator := rand\<rparr>, 0)))))) s)"

text \<open>The loop of \<open>_accept\<close>, while the calls of other threads are those of the list.\<close>

primrec accept_loop ::
  "struct_id \<Rightarrow> ('a posix_world_scheme \<Rightarrow> 'a posix_world_scheme) list \<Rightarrow> 'a posix_world_scheme \<Rightarrow>
     ('a posix_world_scheme \<times> int) res option" where
  "accept_loop j [] s = None"
| "accept_loop j (wake # wakes) s =
     (case px_structs s j of
        None \<Rightarrow> Some (Inl UndefinedBehaviour)
      | Some st \<Rightarrow> accept_loop j wakes (wake (put_struct j (SocketStruct_waitMessage st) s)))"

definition ProtocolStack_accept ::
  "real_calls \<Rightarrow> int \<Rightarrow> ('a posix_world_scheme \<Rightarrow> 'a posix_world_scheme) list \<Rightarrow> 'a posix_world_scheme \<Rightarrow>
     ('a posix_world_scheme \<times> int) res option" where
  "ProtocolStack_accept real socket wakes s =
     (if \<not> ProtocolStack_ownFD socket s then Some (Inr (s, real_accept real socket))
      else case ProtocolStack_lookupStruct socket s of
        None \<Rightarrow> Some (Inl NullDereference)
      | Some j \<Rightarrow>
          (case px_structs s j of
             None \<Rightarrow> Some (Inl UndefinedBehaviour)
           | Some st \<Rightarrow>
               if st_type st \<noteq> PASSIVE then Some (RETURN_ERRNO EINVAL s) else accept_loop j wakes s))"

definition ProtocolStack_read ::
  "int \<Rightarrow> size_t \<Rightarrow> 'a posix_world_scheme \<Rightarrow> ('a posix_world_scheme \<times> byte list \<times> int) res" where
  "ProtocolStack_read fildes nbyte s = Inl UndefinedBehaviour"

text \<open>Sending through the session of a socket.\<close>

definition struct_send ::
  "socket_struct \<Rightarrow> byte list \<Rightarrow> size_t \<Rightarrow> 'a posix_world_scheme \<Rightarrow> ('a posix_world_scheme \<times> size_t) res" where
  "struct_send st buf nbyte s =
     (case st_session st of
        None \<Rightarrow> Inl NullDereference
      | Some i \<Rightarrow>
          (case px_sessions s i of
             None \<Rightarrow> Inl UndefinedBehaviour
           | Some x \<Rightarrow> rbind (SocketSession_send buf nbyte (session_load x s)) (\<lambda>(se, n). Inr (put_session i se, n))))"

primrec write_loop ::
  "struct_id \<Rightarrow> byte list \<Rightarrow> size_t \<Rightarrow> ('a posix_world_scheme \<Rightarrow> 'a posix_world_scheme) list \<Rightarrow>
     'a posix_world_scheme \<Rightarrow> ('a posix_world_scheme \<times> int) res option" where
  "write_loop j buf nbyte [] s = None"
| "write_loop j buf nbyte (wake # wakes) s =
     (case px_structs s j of
        None \<Rightarrow> Some (Inl UndefinedBehaviour)
      | Some st \<Rightarrow>
          let s = wake (put_struct j (SocketStruct_waitMessage st) s) in
          (case px_structs s j of
             None \<Rightarrow> Some (Inl UndefinedBehaviour)
           | Some st \<Rightarrow>
               (case if st_message st AND MSG_WRITABLE \<noteq> 0 then struct_send st buf nbyte s else Inr (s, 0) of
                  Inl e \<Rightarrow> Some (Inl e)
                | Inr (s, rv) \<Rightarrow>
                    if 0 < rv then Some (Inr (s, uint rv))
                    else
                      (case px_structs s j of
                         None \<Rightarrow> Some (Inl UndefinedBehaviour)
                       | Some st \<Rightarrow>
                           if SocketStruct_isErrorMessage st then Some (RETURN_ERRNO ECONNABORTED s)
                           else write_loop j buf nbyte wakes s))))"

definition ProtocolStack_write ::
  "real_calls \<Rightarrow> int \<Rightarrow> byte list \<Rightarrow> size_t \<Rightarrow> ('a posix_world_scheme \<Rightarrow> 'a posix_world_scheme) list \<Rightarrow>
     'a posix_world_scheme \<Rightarrow> ('a posix_world_scheme \<times> int) res option" where
  "ProtocolStack_write real fildes buf nbyte wakes s =
     (if \<not> ProtocolStack_ownFD fildes s then Some (Inr (s, real_write real fildes buf nbyte))
      else case ProtocolStack_lookupStruct fildes s of
        None \<Rightarrow> Some (Inl NullDereference)
      | Some j \<Rightarrow>
          (case px_structs s j of
             None \<Rightarrow> Some (Inl UndefinedBehaviour)
           | Some st \<Rightarrow>
               if st_type st = UNSPECIFIED then Some (RETURN_ERRNO ENOTCONN s)
               else if st_type st \<noteq> ACTIVE then Some (RETURN_ERRNO EBADF s)
               else (case struct_send st buf nbyte s of
                   Inl e \<Rightarrow> Some (Inl e)
                 | Inr (s, rv) \<Rightarrow>
                     if 0 < rv then Some (Inr (s, uint rv)) else write_loop j buf nbyte wakes s)))"

text \<open>\<open>_close\<close>: the sessions of the socket are closed and kept in \<open>garbage_\<close>.\<close>

definition close_session ::
  "bool \<Rightarrow> (nat \<Rightarrow> byte) \<Rightarrow> 'a posix_world_scheme tcp_env \<Rightarrow> session_id \<Rightarrow> 'a posix_world_scheme \<Rightarrow>
     'a posix_world_scheme res" where
  "close_session dbg fresh env i s =
     rbind (on_session i (SocketSession_close dbg fresh env) s) (\<lambda>s. Inr (s\<lparr>px_garbage := px_garbage s @ [i]\<rparr>))"

primrec close_sessions ::
  "bool \<Rightarrow> (nat \<Rightarrow> byte) \<Rightarrow> 'a posix_world_scheme tcp_env \<Rightarrow> session_id list \<Rightarrow> 'a posix_world_scheme \<Rightarrow>
     'a posix_world_scheme res" where
  "close_sessions dbg fresh env [] s = Inr s"
| "close_sessions dbg fresh env (i # ids) s =
     rbind (close_session dbg fresh env i s) (close_sessions dbg fresh env ids)"

definition ProtocolStack_close ::
  "bool \<Rightarrow> (nat \<Rightarrow> byte) \<Rightarrow> 'a posix_world_scheme tcp_env \<Rightarrow> real_calls \<Rightarrow> int \<Rightarrow> 'a posix_world_scheme \<Rightarrow>
     ('a posix_world_scheme \<times> int) res" where
  "ProtocolStack_close dbg fresh env real fildes s =
     (if \<not> ProtocolStack_ownFD fildes s then Inr (s, real_close real fildes)
      else with_struct fildes (\<lambda>j st.
        rbind (case st_type st of
            UNSPECIFIED \<Rightarrow> Inr s
          | ACTIVE \<Rightarrow>
              (case st_session st of
                 None \<Rightarrow> Inl NullDereference
               | Some i \<Rightarrow> close_session dbg fresh env i s)
          | PASSIVE \<Rightarrow> close_sessions dbg fresh env (st_pending st) s) (\<lambda>s.
        Inr (ProtocolStack_removeStruct fildes s, 0))) s)"

definition ProtocolStack_getaddrinfo ::
  "real_calls \<Rightarrow> string \<Rightarrow> string \<Rightarrow> 'a posix_world_scheme \<Rightarrow> ('a posix_world_scheme \<times> int) res" where
  "ProtocolStack_getaddrinfo real node service s = Inr (s, real_getaddrinfo real node service)"

text \<open>The loop of \<open>closeAllFDs\<close> and of the destructor; a run without end is \<open>None\<close>.\<close>

partial_function (option) ProtocolStack_closeAllFDs ::
  "bool \<Rightarrow> (nat \<Rightarrow> byte) \<Rightarrow> 'a posix_world_scheme tcp_env \<Rightarrow> real_calls \<Rightarrow> 'a posix_world_scheme \<Rightarrow>
     'a posix_world_scheme res option" where
  "ProtocolStack_closeAllFDs dbg fresh env real s =
     (case px_fd_set s of
        [] \<Rightarrow> Some (Inr s)
      | e # es \<Rightarrow>
          (case ProtocolStack_close dbg fresh env real (fst e) s of
             Inl err \<Rightarrow> Some (Inl err)
           | Inr p \<Rightarrow> ProtocolStack_closeAllFDs dbg fresh env real (fst p)))"

declare ProtocolStack_closeAllFDs.simps [code]

definition ProtocolStack_canClose :: "'a posix_world_scheme \<Rightarrow> bool" where
  "ProtocolStack_canClose s \<longleftrightarrow> px_garbage s = []"

section \<open>Lemmas\<close>

subsection \<open>What the layers below leave alone\<close>

text \<open>An environment whose operations do not change the part \<open>f\<close> of the world.\<close>

locale tcp_frame =
  fixes env :: "'w tcp_env"
    and f :: "'w \<Rightarrow> 'f"
  assumes send_frame: "env_sendPacket env src dst p bs w = Inr (w', ok) \<Longrightarrow> f w' = f w"
    and create_frame: "f (env_createAlarm env a w) = f w"
    and set_frame: "env_alarm_set env a t w = Inr w' \<Longrightarrow> f w' = f w"
begin

lemma sendSegment_keeps:
  "SendBuffer_sendSegment dbg fresh env segment st = Inr (st', b) \<Longrightarrow> f (ss_world st') = f (ss_world st)"
  by (auto simp: SendBuffer_sendSegment_def rbind_eq_Inr_iff Let_def dest: send_frame split: if_splits prod.splits)

lemma transmit_loop_keeps:
  "SendBuffer_transmit_loop dbg fresh env st = Inr st' \<Longrightarrow> f (ss_world st') = f (ss_world st)"
proof (induction dbg fresh e \<equiv> env st arbitrary: st' rule: SendBuffer_transmit_loop.induct)
  case (1 dbg fresh st)
  show ?case
  proof (cases "sb_bytes_in_flight (ss_buf st) < kMaxBytesInFlight")
    case True
    obtain buf len where r: "RingBuffer_read_offset dbg (sb_buffer (ss_buf st)) (sb_bytes_in_flight (ss_buf st))
        kMaxSegmentSize = Inr (buf, len)"
      using 1(2) True by (subst (asm) SendBuffer_transmit_loop.simps) (auto split: sum.splits)
    show ?thesis
      using 1(2) True r 1(1) [OF True r refl refl refl refl]
      by (subst (asm) SendBuffer_transmit_loop.simps)
        (auto simp: Let_def rbind_eq_Inr_iff dest!: sendSegment_keeps split: sum.splits if_splits)
  qed (use 1(2) in \<open>simp add: SendBuffer_transmit_loop.simps [of dbg fresh env st]\<close>)
qed

lemma transmit_keeps: "SendBuffer_transmit dbg fresh env st = Inr st' \<Longrightarrow> f (ss_world st') = f (ss_world st)"
  by (auto simp: SendBuffer_transmit_def SendBuffer_transmit_SYN_def ignoring_def Let_def rbind_eq_Inr_iff
      dest: transmit_loop_keeps dest!: sendSegment_keeps split: ctl_state.splits if_splits)

lemma SocketSession_keeps: "SocketSession fresh env a b l r w = Inr st \<Longrightarrow> f (ss_world st) = f w"
  by (auto simp: SocketSession_def SendBuffer_def Let_def rbind_eq_Inr_iff create_frame dest: set_frame)

lemma open_keeps: "SocketSession_open dbg fresh env st rand = Inr (st', rand') \<Longrightarrow> f (ss_world st') = f (ss_world st)"
  by (auto simp: SocketSession_open_def SendBuffer_sendSYN_def Let_def rbind_eq_Inr_iff dest!: transmit_keeps
      split: if_splits)

lemma close_keeps: "SocketSession_close dbg fresh env st = Inr st' \<Longrightarrow> f (ss_world st') = f (ss_world st)"
  by (auto simp: SocketSession_close_def SendBuffer_sendFIN_def Let_def rbind_eq_Inr_iff dest!: transmit_keeps
      split: connection_state.splits if_splits)

end

interpretation ip_frame: tcp_frame "ip_env dbg" ip_world.more for dbg
proof (unfold_locales, goal_cases)
  case (2 a w)
  show ?case by (simp add: ip_env_def EpollAlarmFactory_createAlarm_def) (simp add: Alarm_def)
qed (auto simp: ip_env_def dest: sendPacket_more Alarm_more)

text \<open>The part of the world above the network layer, field by field.\<close>

lemma more_fields:
  assumes "ip_world.more w' = ip_world.more (w :: 'a posix_world_scheme)"
  shows "px_fd_set w' = px_fd_set w" "px_structs w' = px_structs w" "px_sessions w' = px_sessions w"
    "px_garbage w' = px_garbage w" "px_listening w' = px_listening w" "px_fresh w' = px_fresh w"
    "px_established w' = px_established w"
  using assms by (cases w; cases w'; simp)+

lemma make_session_frame:
  assumes "make_session fresh (ip_env dbg) l r s = Inr (s', i)"
  shows "i = px_fresh s \<and> (\<exists>x. px_sessions s' = (px_sessions s)(i \<mapsto> x)) \<and> px_fd_set s' = px_fd_set s \<and>
    px_structs s' = px_structs s \<and> px_garbage s' = px_garbage s \<and> px_fresh s' = px_fresh s + 3"
proof -
  obtain st where st: "SocketSession fresh (ip_env dbg) (px_fresh s + 1) (px_fresh s + 2) l r (s\<lparr>px_fresh := px_fresh s + 3\<rparr>) = Inr st"
      "s' = put_session i st" "i = px_fresh s"
    using assms by (auto simp: make_session_def Let_def rbind_eq_Inr_iff)
  show ?thesis using more_fields [OF ip_frame.SocketSession_keeps [OF st(1)]] st(2,3) by (auto simp: put_session_def Let_def)
qed

lemma close_session_frame:
  assumes "close_session dbg fresh (ip_env dbg) i s = Inr s'"
  shows "px_fd_set s' = px_fd_set s \<and> px_structs s' = px_structs s \<and> px_fresh s' = px_fresh s \<and>
    px_garbage s' = px_garbage s @ [i] \<and> px_listening s' = px_listening s \<and>
    dom (px_sessions s') = dom (px_sessions s)"
proof -
  obtain x st where st: "px_sessions s i = Some x" "SocketSession_close dbg fresh (ip_env dbg) (session_load x s) = Inr st"
      "s' = (put_session i st)\<lparr>px_garbage := px_garbage (put_session i st) @ [i]\<rparr>"
    using assms by (auto simp: close_session_def on_session_def rbind_eq_Inr_iff split: option.splits)
  show ?thesis using more_fields [OF ip_frame.close_keeps [OF st(2)]] st(1,3)
    by (simp add: put_session_def Let_def session_load_def insert_absorb domI)
qed

lemma close_sessions_frame:
  "close_sessions dbg fresh (ip_env dbg) ids s = Inr s' \<Longrightarrow>
     px_fd_set s' = px_fd_set s \<and> px_structs s' = px_structs s \<and> px_fresh s' = px_fresh s \<and>
     px_garbage s' = px_garbage s @ ids \<and> px_listening s' = px_listening s \<and> dom (px_sessions s') = dom (px_sessions s)"
proof (induction ids arbitrary: s)
  case (Cons i ids)
  then obtain s1 where s1: "close_session dbg fresh (ip_env dbg) i s = Inr s1"
    "close_sessions dbg fresh (ip_env dbg) ids s1 = Inr s'" by (auto simp: rbind_eq_Inr_iff)
  show ?case using close_session_frame [OF s1(1)] Cons.IH [OF s1(2)] by auto
qed simp

text \<open>What \<open>_close\<close> does to the tables: the sessions of the socket move to \<open>garbage_\<close>.\<close>

definition struct_sessions :: "socket_struct \<Rightarrow> session_id list" where
  "struct_sessions st = (case st_type st of UNSPECIFIED \<Rightarrow> []
     | ACTIVE \<Rightarrow> (case st_session st of None \<Rightarrow> [] | Some i \<Rightarrow> [i]) | PASSIVE \<Rightarrow> st_pending st)"

lemma ProtocolStack_close_frame:
  assumes "ProtocolStack_close dbg fresh (ip_env dbg) real fd s = Inr (s', r)" and "ProtocolStack_ownFD fd s"
  shows "\<exists>j st. map_of (px_fd_set s) fd = Some j \<and> px_structs s j = Some st \<and> r = 0 \<and>
    px_fd_set s' = filter (\<lambda>e. fst e \<noteq> fd) (px_fd_set s) \<and> px_structs s' = (px_structs s)(j := None) \<and>
    px_fresh s' = px_fresh s \<and> px_garbage s' = px_garbage s @ struct_sessions st \<and>
    px_listening s' = px_listening s \<and> dom (px_sessions s') = dom (px_sessions s)"
proof -
  obtain j st s1 where js: "map_of (px_fd_set s) fd = Some j" "px_structs s j = Some st"
      "s' = ProtocolStack_removeStruct fd s1" "r = 0"
      "(case st_type st of UNSPECIFIED \<Rightarrow> Inr s
        | ACTIVE \<Rightarrow> (case st_session st of None \<Rightarrow> Inl NullDereference | Some i \<Rightarrow> close_session dbg fresh (ip_env dbg) i s)
        | PASSIVE \<Rightarrow> close_sessions dbg fresh (ip_env dbg) (st_pending st) s) = Inr s1"
    using assms by (auto simp: ProtocolStack_close_def with_struct_def on_struct_def ProtocolStack_lookupStruct_def
        rbind_eq_Inr_iff split: option.splits)
  have "px_fd_set s1 = px_fd_set s \<and> px_structs s1 = px_structs s \<and> px_fresh s1 = px_fresh s \<and>
      px_garbage s1 = px_garbage s @ struct_sessions st \<and> px_listening s1 = px_listening s \<and>
      dom (px_sessions s1) = dom (px_sessions s)"
    using js(5) by (auto simp: struct_sessions_def dest!: close_session_frame close_sessions_frame
        split: socket_type.splits option.splits)
  then show ?thesis using js by (simp add: ProtocolStack_removeStruct_def)
qed

subsection \<open>The objects behind the descriptors\<close>

text \<open>
  Every descriptor has a socket of its own, and the sessions that a socket points to exist. \<open>G\<close>
  are sessions already in \<open>garbage_\<close>.
\<close>

definition struct_ok :: "session_id set \<Rightarrow> socket_struct \<Rightarrow> bool" where
  "struct_ok D st \<longleftrightarrow>
     (st_type st = ACTIVE \<longrightarrow> (case st_session st of None \<Rightarrow> False | Some i \<Rightarrow> i \<in> D)) \<and> set (st_pending st) \<subseteq> D"

definition px_inv :: "session_id list \<Rightarrow> 'a posix_world_scheme \<Rightarrow> bool" where
  "px_inv G s \<longleftrightarrow> prefix G (px_garbage s) \<and> distinct (map fst (px_fd_set s)) \<and> distinct (map snd (px_fd_set s)) \<and>
     (\<forall>j \<in> snd ` set (px_fd_set s). j < px_fresh s \<and>
       (case px_structs s j of None \<Rightarrow> False | Some st \<Rightarrow> struct_ok (dom (px_sessions s)) st))"

lemma struct_ok_mono: "struct_ok D st \<Longrightarrow> D \<subseteq> D' \<Longrightarrow> struct_ok D' st"
  by (auto simp: struct_ok_def split: option.splits)

lemma px_inv_mono:
  assumes "px_inv G s" and "px_fd_set s' = px_fd_set s" and "px_structs s' = px_structs s"
    and "px_fresh s \<le> px_fresh s'" and "dom (px_sessions s) \<subseteq> dom (px_sessions s')"
    and "prefix (px_garbage s) (px_garbage s')"
  shows "px_inv G s'"
  using assms struct_ok_mono [OF _ assms(5)] prefix_order.trans [OF _ assms(6), of G]
  by (fastforce simp: px_inv_def split: option.splits)

lemma px_inv_put_struct:
  assumes "px_inv G s" and "j \<in> snd ` set (px_fd_set s) \<Longrightarrow> struct_ok (dom (px_sessions s)) st"
  shows "px_inv G (put_struct j st s)"
  using assms by (fastforce simp: px_inv_def split: option.splits)

lemma px_inv_alive:
  assumes "px_inv G s" and "j \<in> snd ` set (px_fd_set s)"
  shows "\<exists>st. px_structs s j = Some st \<and> struct_ok (dom (px_sessions s)) st"
  using assms by (fastforce simp: px_inv_def split: option.splits)

lemma px_inv_struct:
  assumes "px_inv G s" and "map_of (px_fd_set s) fd = Some j" and "px_structs s j = Some st"
  shows "struct_ok (dom (px_sessions s)) st"
  using px_inv_alive [OF assms(1), of j] assms(3) map_of_SomeD [OF assms(2)] by force

lemma px_inv_remove:
  assumes "px_inv G s"
  shows "px_inv G (ProtocolStack_removeStruct fd s)"
proof -
  have "map_of (px_fd_set s) fd = Some j \<Longrightarrow> (fd', j) \<in> set (px_fd_set s) \<Longrightarrow> fd' = fd" for j fd'
    using assms inj_onD [of snd "set (px_fd_set s)" "(fd', j)" "(fd, j)"] map_of_SomeD [of "px_fd_set s" fd j]
    by (simp add: px_inv_def distinct_map)
  then show ?thesis using assms unfolding px_inv_def
    by (auto simp: ProtocolStack_removeStruct_def distinct_map filter_id_conv inj_on_def split: option.splits)
qed

text \<open>The operations one by one.\<close>

lemma with_struct_Inr:
  "with_struct fd f s = Inr y \<longleftrightarrow>
     (\<exists>j st. map_of (px_fd_set s) fd = Some j \<and> px_structs s j = Some st \<and> f j st = Inr y)"
  by (auto simp: with_struct_def on_struct_def ProtocolStack_lookupStruct_def split: option.splits)

lemma px_inv_socket:
  assumes "px_inv G s" and "ProtocolStack_socket dbg real junk fd domain type protocol s = Inr (s', r)"
  shows "px_inv G s'"
proof (cases "s' = s")
  case False
  then obtain rand address where s': "s' = (let s = ProtocolStack_removeStruct fd (s\<lparr>px_rand_generator := rand\<rparr>) in
      s\<lparr>px_fd_set := (fd, px_fresh s) # px_fd_set s, px_fresh := px_fresh s + 1,
        px_structs := (px_structs s)(px_fresh s \<mapsto> SocketStruct junk address)\<rparr>)"
    using assms(2) by (auto simp: ProtocolStack_socket_def Let_def rbind_eq_Inr_iff ProtocolStack_removeStruct_def
        split: if_splits)
  have "px_inv G (s\<lparr>px_rand_generator := rand\<rparr>)" using assms(1) by (rule px_inv_mono) simp_all
  then have inv: "px_inv G (ProtocolStack_removeStruct fd (s\<lparr>px_rand_generator := rand\<rparr>))" by (rule px_inv_remove)
  define s1 where "s1 = ProtocolStack_removeStruct fd (s\<lparr>px_rand_generator := rand\<rparr>)"
  have "fd \<notin> fst ` set (px_fd_set s1)" by (auto simp: s1_def ProtocolStack_removeStruct_def)
  moreover have "px_fresh s1 \<notin> snd ` set (px_fd_set s1)" using inv by (force simp: px_inv_def s1_def)
  ultimately show ?thesis using inv unfolding s' Let_def s1_def [symmetric]
    by (fastforce simp: px_inv_def struct_ok_def SocketStruct_def split: option.splits)
qed (use assms in simp)

lemma px_inv_bind:
  assumes "px_inv G s" and "ProtocolStack_bind real fd address len s = Inr (s', r)"
  shows "px_inv G s'"
proof (cases "s' = s")
  case False
  then obtain j st a where s': "map_of (px_fd_set s) fd = Some j" "px_structs s j = Some st"
      "s' = put_struct j (st\<lparr>st_bind_address := a\<rparr>) s"
    using assms(2) by (auto simp: ProtocolStack_bind_def with_struct_Inr rbind_eq_Inr_iff split: if_splits)
  show ?thesis unfolding s'(3) using assms(1) px_inv_struct [OF assms(1) s'(1,2)]
    by (intro px_inv_put_struct) (simp_all add: struct_ok_def)
qed (use assms in simp)

lemma px_inv_errno: "px_inv G s \<Longrightarrow> px_inv G (s\<lparr>px_errno := e\<rparr>)"
  by (erule px_inv_mono) simp_all

lemma px_inv_listen:
  assumes "px_inv G s" and "ProtocolStack_listen real fd backlog s = Inr (s', r)"
  shows "px_inv G s'"
proof (cases "s' = s \<or> (\<exists>e. s' = s\<lparr>px_errno := e\<rparr>)")
  case False
  then obtain j st b where s': "map_of (px_fd_set s) fd = Some j" "px_structs s j = Some st"
      "s' = ListenDispatcher_addListener (st_bind_address st) j (put_struct j (st\<lparr>st_type := PASSIVE, st_backlog := b\<rparr>) s)"
    using assms(2) by (auto simp: ProtocolStack_listen_def with_struct_Inr RETURN_ERRNO_def Let_def split: if_splits)
  have "px_inv G (put_struct j (st\<lparr>st_type := PASSIVE, st_backlog := b\<rparr>) s)"
    using assms(1) px_inv_struct [OF assms(1) s'(1,2)] by (intro px_inv_put_struct) (simp_all add: struct_ok_def)
  then show ?thesis unfolding s'(3) by (rule px_inv_mono) (simp_all add: ListenDispatcher_addListener_def)
qed (use assms(1) px_inv_errno in auto)

lemma px_inv_make_session:
  assumes "px_inv G s" and "make_session fresh (ip_env dbg) l r s = Inr (s', i)"
  shows "px_inv G s' \<and> dom (px_sessions s') = insert i (dom (px_sessions s)) \<and> px_structs s' = px_structs s \<and>
    px_fd_set s' = px_fd_set s"
  using make_session_frame [OF assms(2)] px_inv_mono [OF assms(1), of s'] by (auto simp: subset_insertI)

text \<open>A connect that opens a session, step by step.\<close>

lemma ProtocolStack_connect_steps:
  assumes "ProtocolStack_connect dbg fresh env real fd address len s = Inr (s', r)"
    and "s' \<noteq> s" and "\<nexists>e. s' = s\<lparr>px_errno := e\<rparr>"
  obtains j st peer s1 i s2 x se rand where "map_of (px_fd_set s) fd = Some j" "px_structs s j = Some st"
    "make_session fresh env (st_bind_address st) peer s = Inr (s1, i)"
    "s2 = SegmentDispatcher_addSession (st_bind_address st) peer i (put_struct j (st\<lparr>st_type := ACTIVE, st_session := Some i\<rparr>) s1)"
    "SocketSession_open dbg fresh env (session_load x s2) (px_rand_generator s2) = Inr (se, rand)"
    "s' = (put_session i (SocketSession_setCallback j se))\<lparr>px_rand_generator := rand\<rparr>"
proof -
  define k where "k j st peer = rbind (make_session fresh env (st_bind_address st) peer s) (\<lambda>(s, i).
      let s = put_struct j (st\<lparr>st_type := ACTIVE, st_session := Some i\<rparr>) s;
          s = SegmentDispatcher_addSession (st_bind_address st) peer i s
      in rbind (case px_sessions s i of
                  None \<Rightarrow> Inl UndefinedBehaviour
                | Some x \<Rightarrow> SocketSession_open dbg fresh env (session_load x s) (px_rand_generator s)) (\<lambda>(se, rand).
         Inr ((put_session i (SocketSession_setCallback j se))\<lparr>px_rand_generator := rand\<rparr>, 0 :: int)))" for j st peer
  obtain j st peer where a: "map_of (px_fd_set s) fd = Some j" "px_structs s j = Some st" and b: "k j st peer = Inr (s', r)"
    using assms unfolding ProtocolStack_connect_def k_def [symmetric]
    by (auto simp: RETURN_ERRNO_def rbind_eq_Inr_iff with_struct_Inr split: if_splits)
  obtain s1 i where c: "make_session fresh env (st_bind_address st) peer s = Inr (s1, i)"
    using b by (auto simp: k_def rbind_eq_Inr_iff)
  define s2 where "s2 = SegmentDispatcher_addSession (st_bind_address st) peer i
    (put_struct j (st\<lparr>st_type := ACTIVE, st_session := Some i\<rparr>) s1)"
  from b c obtain x se rand where "SocketSession_open dbg fresh env (session_load x s2) (px_rand_generator s2) = Inr (se, rand)"
    "s' = (put_session i (SocketSession_setCallback j se))\<lparr>px_rand_generator := rand\<rparr>"
    unfolding k_def Let_def by (auto simp: rbind_eq_Inr_iff simp flip: s2_def split: option.splits)
  with a c s2_def show thesis by (rule that)
qed

lemma px_inv_connect:
  assumes "px_inv G s" and "ProtocolStack_connect dbg fresh (ip_env dbg) real fd address len s = Inr (s', r)"
  shows "px_inv G s'"
proof (cases "s' = s \<or> (\<exists>e. s' = s\<lparr>px_errno := e\<rparr>)")
  case False
  then obtain j st peer s1 i s2 x se rand where s': "map_of (px_fd_set s) fd = Some j" "px_structs s j = Some st"
      "make_session fresh (ip_env dbg) (st_bind_address st) peer s = Inr (s1, i)"
      "s2 = SegmentDispatcher_addSession (st_bind_address st) peer i (put_struct j (st\<lparr>st_type := ACTIVE, st_session := Some i\<rparr>) s1)"
      "SocketSession_open dbg fresh (ip_env dbg) (session_load x s2) (px_rand_generator s2) = Inr (se, rand)"
      "s' = (put_session i (SocketSession_setCallback j se))\<lparr>px_rand_generator := rand\<rparr>"
    using ProtocolStack_connect_steps [OF assms(2)] by blast
  note s1 = px_inv_make_session [OF assms(1) s'(3)]
  have "struct_ok (dom (px_sessions s1)) (st\<lparr>st_type := ACTIVE, st_session := Some i\<rparr>)"
    using px_inv_struct [OF assms(1) s'(1,2)] s1 by (auto simp: struct_ok_def)
  with s1 have "px_inv G (put_struct j (st\<lparr>st_type := ACTIVE, st_session := Some i\<rparr>) s1)" by (intro px_inv_put_struct) simp_all
  then have inv: "px_inv G s2" unfolding s'(4) by (rule px_inv_mono) (simp_all add: SegmentDispatcher_addSession_def)
  have "ip_world.more (ss_world se) = ip_world.more s2"
    using ip_frame.open_keeps [OF s'(5)] by (simp add: session_load_def)
  note fields = more_fields [OF this]
  show ?thesis unfolding s'(6)
    by (rule px_inv_mono [OF inv]) (auto simp: put_session_def SocketSession_setCallback_def Let_def fields)
qed (use assms(1) px_inv_errno in auto)

lemma px_inv_close:
  assumes "px_inv G s" and "ProtocolStack_close dbg fresh (ip_env dbg) real fd s = Inr (s', r)"
  shows "px_inv G s'"
proof (cases "ProtocolStack_ownFD fd s")
  case True
  from ProtocolStack_close_frame [OF assms(2) this] obtain j where
    "map_of (px_fd_set s) fd = Some j" "px_fd_set s' = filter (\<lambda>e. fst e \<noteq> fd) (px_fd_set s)"
    "px_structs s' = (px_structs s)(j := None)" "px_fresh s' = px_fresh s" "dom (px_sessions s') = dom (px_sessions s)"
    "prefix (px_garbage s) (px_garbage s')"
    by (metis prefixI)
  then show ?thesis
    by (intro px_inv_mono [OF px_inv_remove [OF assms(1), of fd]]) (simp_all add: ProtocolStack_removeStruct_def)
qed (use assms in \<open>simp add: ProtocolStack_close_def\<close>)

text \<open>A received packet, through the three dispatchers.\<close>

lemma px_inv_reset:
  assumes "px_inv G s" and "ResetDispatcher_onReceivePacket dbg fresh (ip_env dbg) buf len src dst s = Inr s'"
  shows "px_inv G s'"
proof -
  obtain b where "ip_world.more s' = ip_world.more (s\<lparr>px_reset_buffer := b\<rparr>)"
    using assms(2) ip_frame.send_frame
    by (fastforce simp: ResetDispatcher_onReceivePacket_def Let_def rbind_eq_Inr_iff)
  from more_fields [OF this] show ?thesis by (intro px_inv_mono [OF assms(1)]) simp_all
qed

lemma px_inv_on_session:
  assumes "px_inv G s" and "on_session i g s = Inr s'" and "\<And>st st'. g st = Inr st' \<Longrightarrow> ss_world st' = ss_world st"
  shows "px_inv G s'"
proof -
  obtain x st where "g (session_load x s) = Inr st" "s' = put_session i st"
    using assms(2) by (auto simp: on_session_def rbind_eq_Inr_iff split: option.splits)
  with assms(3) [OF this(1)] show ?thesis
    by (intro px_inv_mono [OF assms(1)]) (auto simp: put_session_def Let_def session_load_def)
qed

lemma open_passive_world: "SocketSession_open_passive seg st = Inr st' \<Longrightarrow> ss_world st' = ss_world st"
  by (auto simp: SocketSession_open_passive_def SocketSession_onSegmentArrival_def split: if_splits)

lemma px_inv_listen_packet:
  assumes "px_inv G s" and "\<And>s s'. px_inv G s \<Longrightarrow> nxt buf len src dst s = Inr s' \<Longrightarrow> px_inv G s'"
    and "ListenDispatcher_onReceivePacket dbg fresh (ip_env dbg) nxt buf len src dst s = Inr s'"
  shows "px_inv G s'"
proof -
  obtain seg where seg: "Segment_parse dbg src dst buf len = Inr seg"
    using assms(3) by (auto simp: ListenDispatcher_onReceivePacket_def rbind_eq_Inr_iff)
  let ?to = "sg_destination seg" and ?from = "sg_source seg"
  consider (none) "ListenDispatcher_lookupSession ?to s = None" | (drop) "s' = s" |
    (new) j st s1 i s2 where "px_structs s j = Some st" "make_session fresh (ip_env dbg) ?to ?from s = Inr (s1, i)"
      "on_session i (SocketSession_open_passive seg) (put_struct j (st\<lparr>st_pending := st_pending st @ [i]\<rparr>) s1) = Inr s2"
      "s' = SegmentDispatcher_addSession ?to ?from i s2"
    using assms(3) seg
    by (fastforce simp: ListenDispatcher_onReceivePacket_def Let_def on_struct_def rbind_eq_Inr_iff
        split: option.splits if_splits)
  then show ?thesis
  proof cases
    case new
    note s1 = px_inv_make_session [OF assms(1) new(2)]
    have "px_inv G (put_struct j (st\<lparr>st_pending := st_pending st @ [i]\<rparr>) s1)"
      using s1 px_inv_alive [OF assms(1), of j] new(1)
      by (intro px_inv_put_struct) (auto simp: struct_ok_def split: option.splits)
    from px_inv_on_session [OF this new(3) open_passive_world] have "px_inv G s2" .
    then show ?thesis unfolding new(4) by (rule px_inv_mono) (simp_all add: SegmentDispatcher_addSession_def)
  qed (use assms seg in \<open>auto simp: ListenDispatcher_onReceivePacket_def\<close>)
qed

lemma px_inv_packet:
  assumes "px_inv G s" and "ProtocolStack_onReceivePacket dbg fresh (ip_env dbg) buf len src dst s = Inr s'"
  shows "px_inv G s'"
proof -
  obtain seg where seg: "Segment_parse dbg src dst buf len = Inr seg"
    using assms(2) by (auto simp: ProtocolStack_onReceivePacket_def SegmentDispatcher_onReceivePacket_def rbind_eq_Inr_iff)
  show ?thesis
  proof (cases "SegmentDispatcher_lookupSession (sg_destination seg) (sg_source seg) s")
    case None
    with assms(2) seg have "ListenDispatcher_onReceivePacket dbg fresh (ip_env dbg)
        (ResetDispatcher_onReceivePacket dbg fresh (ip_env dbg)) buf len src dst s = Inr s'"
      by (simp add: ProtocolStack_onReceivePacket_def SegmentDispatcher_onReceivePacket_def)
    from px_inv_listen_packet [OF assms(1) px_inv_reset this] show ?thesis .
  next
    case (Some i)
    with assms(2) seg have "on_session i (\<lambda>st. Inr (SocketSession_onSegmentArrival seg st)) s = Inr s'"
      by (simp add: ProtocolStack_onReceivePacket_def SegmentDispatcher_onReceivePacket_def)
    from px_inv_on_session [OF assms(1) this] show ?thesis by (auto simp: SocketSession_onSegmentArrival_def)
  qed
qed

end
