(* ===== verification/Socket_Calls.thy ===== *)
theory Socket_Calls
  imports Protocol_Stack
begin

text \<open>
  Sequences of socket calls and received packets on the stack of \<open>Protocol_Stack\<close>: the objects behind
  the descriptors stay alive, closed sessions stay in \<open>garbage_\<close>, closing everything ends, and what a
  listening socket gets between \<open>_socket\<close> and \<open>_close\<close>.
\<close>

section \<open>The steps\<close>

text \<open>
  One step: a completed socket call, a wait of \<open>_accept\<close> or \<open>_write\<close>, a message to a socket, a packet
  from the network layer, or anything the layers below do on their own state.
\<close>

inductive px_step :: "bool \<Rightarrow> posix_world \<Rightarrow> posix_world \<Rightarrow> bool" for dbg where
  step_socket: "ProtocolStack_socket dbg real junk fd domain type protocol s = Inr (s', r) \<Longrightarrow> px_step dbg s s'"
| step_bind: "ProtocolStack_bind real fd address len s = Inr (s', r) \<Longrightarrow> px_step dbg s s'"
| step_listen: "ProtocolStack_listen real fd backlog s = Inr (s', r) \<Longrightarrow> px_step dbg s s'"
| step_connect: "ProtocolStack_connect dbg fresh (ip_env dbg) real fd address len s = Inr (s', r) \<Longrightarrow> px_step dbg s s'"
| step_close: "ProtocolStack_close dbg fresh (ip_env dbg) real fd s = Inr (s', r) \<Longrightarrow> px_step dbg s s'"
| step_wait: "px_structs s j = Some st \<Longrightarrow> px_step dbg s (put_struct j (SocketStruct_waitMessage st) s)"
| step_message: "px_structs s j = Some st \<Longrightarrow> px_step dbg s (put_struct j (SocketStruct_onMessage m st) s)"
| step_packet: "ProtocolStack_onReceivePacket dbg fresh (ip_env dbg) buf len src dst s = Inr s' \<Longrightarrow> px_step dbg s s'"
| step_below: "ip_world.more s' = ip_world.more s \<Longrightarrow> px_step dbg s s'"

lemma px_inv_message:
  assumes "px_inv G s" and "px_structs s j = Some st" and "\<And>D. struct_ok D st \<Longrightarrow> struct_ok D st'"
  shows "px_inv G (put_struct j st' s)"
  using assms(1) by (rule px_inv_put_struct) (use px_inv_alive [OF assms(1), of j] assms(2,3) in auto)

lemma px_inv_step:
  assumes "px_inv G s" and "px_step dbg s s'"
  shows "px_inv G s'"
  using assms(2,1)
proof cases
  case step_wait
  then show ?thesis using assms(1) by (auto intro!: px_inv_message simp: SocketStruct_waitMessage_def struct_ok_def)
next
  case step_message
  then show ?thesis using assms(1)
    by (auto intro!: px_inv_message simp: SocketStruct_onMessage_def struct_ok_def Let_def)
next
  case step_below
  from more_fields [OF this] show ?thesis by (intro px_inv_mono [OF assms(1)]) simp_all
next
  case step_socket
  with assms(1) show ?thesis by (rule px_inv_socket)
next
  case step_bind
  with assms(1) show ?thesis by (rule px_inv_bind)
next
  case step_listen
  with assms(1) show ?thesis by (rule px_inv_listen)
next
  case step_connect
  with assms(1) show ?thesis by (rule px_inv_connect)
next
  case step_close
  with assms(1) show ?thesis by (rule px_inv_close)
next
  case step_packet
  with assms(1) show ?thesis by (rule px_inv_packet)
qed

lemma px_inv_steps: "(px_step dbg)\<^sup>*\<^sup>* s s' \<Longrightarrow> px_inv G s \<Longrightarrow> px_inv G s'"
  by (induction rule: rtranclp_induct) (auto dest: px_inv_step)

lemma px_inv_garbage: "px_inv [] s \<Longrightarrow> px_inv (px_garbage s) s"
  by (simp add: px_inv_def)

section \<open>The destructor of the evaluation programs\<close>

text \<open>
  \<open>eval/clean_up.c\<close>: close everything, then wait until the stack can be closed. \<open>runs\<close> is what the
  other threads do to the stack during each sleep; when it is used up the loop is still waiting.
\<close>

primrec clean_up_wait :: "(posix_world \<Rightarrow> posix_world) list \<Rightarrow> posix_world \<Rightarrow> posix_world option" where
  "clean_up_wait [] s = (if ProtocolStack_canClose s then Some s else None)"
| "clean_up_wait (run # runs) s = (if ProtocolStack_canClose s then Some s else clean_up_wait runs (run s))"

definition clean_up ::
  "bool \<Rightarrow> (nat \<Rightarrow> byte) \<Rightarrow> posix_world tcp_env \<Rightarrow> real_calls \<Rightarrow> (posix_world \<Rightarrow> posix_world) list \<Rightarrow> posix_world \<Rightarrow>
     posix_world res option" where
  "clean_up dbg fresh env real runs s =
     Option.bind (ProtocolStack_closeAllFDs dbg fresh env real s) (\<lambda>r.
       case r of Inl e \<Rightarrow> Some (Inl e) | Inr s \<Rightarrow> map_option Inr (clean_up_wait runs s))"

section \<open>Lemmas: closing everything\<close>

definition socket_sessions :: "'a posix_world_scheme \<Rightarrow> struct_id \<Rightarrow> session_id list" where
  "socket_sessions s j = (case px_structs s j of None \<Rightarrow> [] | Some st \<Rightarrow> struct_sessions st)"

lemma close_first:
  assumes "px_inv [] s" and "px_fd_set s = (fd, j) # es"
    and "ProtocolStack_close dbg fresh (ip_env dbg) real fd s = Inr (s', r)"
  shows "px_inv [] s' \<and> px_fd_set s' = es \<and> px_garbage s' = px_garbage s @ socket_sessions s j \<and>
    map (\<lambda>e. socket_sessions s' (snd e)) es = map (\<lambda>e. socket_sessions s (snd e)) es"
proof -
  have own: "ProtocolStack_ownFD fd s" using assms(2) by (simp add: ProtocolStack_ownFD_def)
  have d: "fd \<notin> fst ` set es" "j \<notin> snd ` set es" using assms(1,2) by (auto simp: px_inv_def)
  then have "filter (\<lambda>e. fst e \<noteq> fd) (px_fd_set s) = es"
    using assms(2) by (auto simp: filter_id_conv)
  moreover obtain st where "px_structs s j = Some st"
      "px_fd_set s' = filter (\<lambda>e. fst e \<noteq> fd) (px_fd_set s)" "px_structs s' = (px_structs s)(j := None)"
      "px_garbage s' = px_garbage s @ struct_sessions st"
    using ProtocolStack_close_frame [OF assms(3) own] assms(2) by auto
  ultimately show ?thesis using px_inv_close [OF assms(1,3)] d(2) by (force simp: socket_sessions_def)
qed

lemma closeAllFDs_run:
  "px_inv [] s \<Longrightarrow> \<exists>r. ProtocolStack_closeAllFDs dbg fresh (ip_env dbg) real s = Some r \<and>
     (\<forall>s'. r = Inr s' \<longrightarrow> px_fd_set s' = [] \<and>
       px_garbage s' = px_garbage s @ concat (map (\<lambda>e. socket_sessions s (snd e)) (px_fd_set s)))"
proof (induction "px_fd_set s" arbitrary: s)
  case Nil
  then show ?case by (subst ProtocolStack_closeAllFDs.simps) simp
next
  case (Cons e es)
  obtain fd j where e: "e = (fd, j)" by (cases e)
  show ?case
  proof (cases "ProtocolStack_close dbg fresh (ip_env dbg) real fd s")
    case (Inl err)
    then show ?thesis using Cons.hyps(2) e by (subst ProtocolStack_closeAllFDs.simps) (simp flip: Cons.hyps(2))
  next
    case (Inr p)
    then have p: "ProtocolStack_close dbg fresh (ip_env dbg) real fd s = Inr (fst p, snd p)" by simp
    have fds: "px_fd_set s = (fd, j) # es" using Cons.hyps(2) e by simp
    note c = close_first [OF Cons.prems fds p]
    have "ProtocolStack_closeAllFDs dbg fresh (ip_env dbg) real s = ProtocolStack_closeAllFDs dbg fresh (ip_env dbg) real (fst p)"
      using Inr fds by (subst ProtocolStack_closeAllFDs.simps) simp
    then show ?thesis using Cons.hyps(1) [of "fst p"] c fds by auto
  qed
qed

lemma clean_up_wait_stuck:
  assumes "\<forall>run \<in> set runs. \<forall>s. (px_step dbg)\<^sup>*\<^sup>* s (run s)" and "px_inv G s" and "G \<noteq> []"
  shows "clean_up_wait runs s = None"
  using assms
proof (induction runs arbitrary: s)
  case (Cons run runs)
  then have "px_inv G (run s)" by (meson list.set_intros(1) px_inv_steps)
  with Cons show ?case by (auto simp: px_inv_def ProtocolStack_canClose_def)
qed (auto simp: px_inv_def ProtocolStack_canClose_def)

section \<open>Lemmas: a new listener\<close>

lemma find_append: "find P (xs @ ys) = (case find P xs of None \<Rightarrow> find P ys | Some x \<Rightarrow> Some x)"
  by (induction xs) auto

lemma new_listener_found:
  assumes "\<forall>(l, j) \<in> set (px_listening s). sa_port l \<noteq> sa_port a" and "px_listening s' = px_listening s @ [(a, j)]"
    and "sa_port to = sa_port a" and "IPAddress_isInaddrAny (sa_host a) \<or> IPAddress_eq (sa_host to) (sa_host a)"
  shows "ListenDispatcher_lookupSession to s' = Some j"
proof -
  have "find (\<lambda>(l, j). sa_port a = sa_port l \<and> Q l) (px_listening s) = None" for Q
    using assms(1) by (fastforce simp: find_None_iff)
  then show ?thesis using assms(2-4) by (simp add: ListenDispatcher_lookupSession_def find_append)
qed

section \<open>Properties\<close>

text \<open>
  C2: whatever sequence of socket calls and packets the stack goes through, a descriptor it owns leads
  to a live socket, a connected socket to a live session, and every session of its queue is alive.
\<close>

theorem ProtocolStack_objects_alive:
  assumes "px_inv [] s" and "(px_step dbg)\<^sup>*\<^sup>* s s'" and "ProtocolStack_ownFD fd s'"
  shows "\<exists>j st. ProtocolStack_lookupStruct fd s' = Some j \<and> px_structs s' j = Some st \<and>
    (st_type st = ACTIVE \<longrightarrow> (\<exists>i x. st_session st = Some i \<and> px_sessions s' i = Some x)) \<and>
    set (st_pending st) \<subseteq> dom (px_sessions s')"
proof -
  obtain j where j: "map_of (px_fd_set s') fd = Some j" using assms(3) by (auto simp: ProtocolStack_ownFD_def)
  then have "j \<in> snd ` set (px_fd_set s')" by (force dest: map_of_SomeD)
  from px_inv_alive [OF px_inv_steps [OF assms(2,1)] this] j show ?thesis
    by (auto simp: ProtocolStack_lookupStruct_def struct_ok_def split: option.splits)
qed

lemma ex_posix_inv: "px_inv [] ex_posix" "px_inv [] (ex_posix\<lparr>px_garbage := [7]\<rparr>)"
  by (simp_all add: px_inv_def struct_ok_def ex_posix_def SocketStruct_def)

lemma ex_bind:
  "px_step dbg ex_posix (put_struct 1 ((SocketStruct 0 SocketAddress_default)\<lparr>st_type := PASSIVE, st_backlog := 1\<rparr>) ex_posix)"
  by (rule step_bind [where real = wrap_null and fd = 5 and address = "[]" and len = 0 and r = 0])
    (simp add: ProtocolStack_bind_def ProtocolStack_ownFD_def ex_posix_def with_struct_Inr SocketAddress_sockaddr_def
      SocketStruct_def)

theorem ProtocolStack_objects_alive_witness:
  "\<exists>s' j st. (px_step True)\<^sup>*\<^sup>* ex_posix s' \<and> s' \<noteq> ex_posix \<and> ProtocolStack_lookupStruct 5 s' = Some j \<and> px_structs s' j = Some st"
proof -
  let ?s = "put_struct 1 ((SocketStruct 0 SocketAddress_default)\<lparr>st_type := PASSIVE, st_backlog := 1\<rparr>) ex_posix"
  have "px_structs ?s 1 \<noteq> px_structs ex_posix 1"
    by (simp add: ex_posix_def SocketStruct_def SocketAddress_def SocketAddress_default_def)
  then have "?s \<noteq> ex_posix" by metis
  moreover have "ProtocolStack_ownFD 5 ?s" by (simp add: ProtocolStack_ownFD_def ex_posix_def)
  ultimately show ?thesis
    using ProtocolStack_objects_alive [OF ex_posix_inv(1) r_into_rtranclp [where r = "px_step True", OF ex_bind]]
      r_into_rtranclp [where r = "px_step True", OF ex_bind] by blast
qed

text \<open>
  nothing empties \<open>garbage_\<close>. Once a session has been closed, \<open>canClose\<close> is false after every
  further sequence of calls and packets.
\<close>

theorem ProtocolStack_canClose_never_again:
  assumes "px_inv [] s" and "\<not> ProtocolStack_canClose s" and "(px_step dbg)\<^sup>*\<^sup>* s s'"
  shows "\<not> ProtocolStack_canClose s'"
  using px_inv_steps [OF assms(3) px_inv_garbage [OF assms(1)]] assms(2)
  by (auto simp: px_inv_def ProtocolStack_canClose_def)

theorem ProtocolStack_canClose_never_again_witness:
  "\<exists>s'. (px_step True)\<^sup>*\<^sup>* (ex_posix\<lparr>px_garbage := [7]\<rparr>) s' \<and> px_fd_set s' = [] \<and> \<not> ProtocolStack_canClose s'"
proof -
  let ?s = "ex_posix\<lparr>px_garbage := [7]\<rparr>"
  have "ProtocolStack_close True (\<lambda>_. 0) (ip_env True) wrap_null 5 ?s = Inr (ProtocolStack_removeStruct 5 ?s, 0)"
    by (simp add: ProtocolStack_close_def ProtocolStack_ownFD_def ex_posix_def with_struct_Inr SocketStruct_def)
  then have step: "(px_step True)\<^sup>*\<^sup>* ?s (ProtocolStack_removeStruct 5 ?s)"
    by (intro r_into_rtranclp) (rule step_close)
  moreover have "px_fd_set (ProtocolStack_removeStruct 5 ?s) = []"
    by (simp add: ProtocolStack_removeStruct_def ex_posix_def)
  ultimately show ?thesis
    using ProtocolStack_canClose_never_again [OF ex_posix_inv(2) _ step] by (auto simp: ProtocolStack_canClose_def)
qed

text \<open>
  C19: the loop that closes all descriptors ends. If no call of \<open>_close\<close> aborts the process, no
  descriptor is left and the sessions of all sockets are in \<open>garbage_\<close>, in order.
\<close>

theorem ProtocolStack_closeAllFDs_ends:
  assumes "px_inv [] s"
  shows "\<exists>r. ProtocolStack_closeAllFDs dbg fresh (ip_env dbg) real s = Some r \<and>
    (\<forall>s'. r = Inr s' \<longrightarrow> px_fd_set s' = [] \<and>
      px_garbage s' = px_garbage s @ concat (map (\<lambda>e. socket_sessions s (snd e)) (px_fd_set s)))"
  using assms by (rule closeAllFDs_run)

theorem ProtocolStack_closeAllFDs_ends_witness:
  "\<exists>r. ProtocolStack_closeAllFDs True (\<lambda>_. 0) (ip_env True) wrap_null ex_posix = Some r \<and>
    (\<forall>s'. r = Inr s' \<longrightarrow> px_fd_set s' = [] \<and> ProtocolStack_canClose s')"
  using ProtocolStack_closeAllFDs_ends [OF ex_posix_inv(1), of True "\<lambda>_. 0" wrap_null]
  by (auto simp: ex_posix_def socket_sessions_def struct_sessions_def SocketStruct_def ProtocolStack_canClose_def)

text \<open>
  C20: the destructor of the evaluation programs does not return once a connection has existed: if
  some descriptor still has a session, or one was closed before, then either closing aborts the process
  or the loop waits forever, whatever the stack does meanwhile. Without any session it returns.
\<close>

theorem clean_up_returns_iff:
  assumes "px_inv [] s" and "\<forall>run \<in> set runs. \<forall>s. (px_step dbg)\<^sup>*\<^sup>* s (run s)"
    and "ProtocolStack_closeAllFDs dbg fresh (ip_env dbg) real s = Some (Inr s1)"
  shows "(\<exists>s'. clean_up dbg fresh (ip_env dbg) real runs s = Some (Inr s')) \<longleftrightarrow>
    px_garbage s = [] \<and> (\<forall>(fd, j) \<in> set (px_fd_set s). socket_sessions s j = [])"
proof -
  let ?G = "px_garbage s @ concat (map (\<lambda>e. socket_sessions s (snd e)) (px_fd_set s))"
  have s1: "px_fd_set s1 = []" "px_garbage s1 = ?G"
    using closeAllFDs_run [OF assms(1), of dbg fresh real] assms(3) by auto
  have iff: "?G = [] \<longleftrightarrow> px_garbage s = [] \<and> (\<forall>(fd, j) \<in> set (px_fd_set s). socket_sessions s j = [])"
    by (auto simp: concat_eq_Nil_conv)
  show ?thesis
  proof (cases "?G = []")
    case True
    have "clean_up_wait runs s1 = Some s1" using True s1(2) by (cases runs) (simp_all add: ProtocolStack_canClose_def)
    then show ?thesis using True assms(3) unfolding iff [symmetric] by (simp add: clean_up_def)
  next
    case False
    have "px_inv ?G s1" using s1 by (simp add: px_inv_def)
    from clean_up_wait_stuck [OF assms(2) this False] have "clean_up_wait runs s1 = None" .
    then show ?thesis using False assms(3) unfolding iff [symmetric] by (simp add: clean_up_def)
  qed
qed

theorem clean_up_returns_iff_witness:
  "\<exists>s'. clean_up True (\<lambda>_. 0) (ip_env True) wrap_null [id] ex_posix = Some (Inr s')"
proof -
  have c: "ProtocolStack_close True (\<lambda>_. 0) (ip_env True) wrap_null 5 ex_posix = Inr (ProtocolStack_removeStruct 5 ex_posix, 0)"
    by (simp add: ProtocolStack_close_def ProtocolStack_ownFD_def ex_posix_def with_struct_Inr SocketStruct_def)
  have "px_fd_set ex_posix = [(5, 1)]" "px_fd_set (ProtocolStack_removeStruct 5 ex_posix) = []"
    by (simp_all add: ProtocolStack_removeStruct_def ex_posix_def)
  then have "ProtocolStack_closeAllFDs True (\<lambda>_. 0) (ip_env True) wrap_null ex_posix = Some (Inr (ProtocolStack_removeStruct 5 ex_posix))"
    using c by (simp add: ProtocolStack_closeAllFDs.simps)
  from clean_up_returns_iff [OF ex_posix_inv(1) _ this, of "[id]"] show ?thesis
    by (simp add: ex_posix_def socket_sessions_def struct_sessions_def SocketStruct_def)
qed

text \<open>
  C22: closing a listening socket frees it but leaves it registered with the dispatcher: the next
  segment for its port makes the dispatcher use the freed object, which is undefined behaviour.
\<close>

theorem ProtocolStack_close_leaves_listener:
  assumes "map_of (px_fd_set s) fd = Some j" and "px_structs s j = Some st" and "st_type st = PASSIVE"
    and "st_pending st = []" and "buf = tcp_header h c @ d" and "length d \<le> 2 ^ 61"
    and "ListenDispatcher_lookupSession (SocketAddress dst (sa_port (sg_destination h))) s = Some j"
    and "SegmentDispatcher_lookupSession (SocketAddress dst (sa_port (sg_destination h)))
      (SocketAddress src (sa_port (sg_source h))) s = None"
  shows "\<exists>s'. ProtocolStack_close dbg fresh env real fd s = Inr (s', 0) \<and> \<not> ProtocolStack_ownFD fd s' \<and>
    ProtocolStack_onReceivePacket dbg fresh env buf (of_nat (length buf)) src dst s' = Inl UndefinedBehaviour"
proof (intro exI conjI)
  let ?s = "ProtocolStack_removeStruct fd s"
  show "ProtocolStack_close dbg fresh env real fd s = Inr (?s, 0)"
    using assms(1-4) by (simp add: ProtocolStack_close_def ProtocolStack_ownFD_def with_struct_Inr)
  show "\<not> ProtocolStack_ownFD fd ?s"
    by (auto simp: ProtocolStack_ownFD_def ProtocolStack_removeStruct_def map_of_eq_None_iff)
  have "px_structs ?s j = None" using assms(1) by (simp add: ProtocolStack_removeStruct_def)
  moreover have "ListenDispatcher_lookupSession to ?s = ListenDispatcher_lookupSession to s"
    "SegmentDispatcher_lookupSession to from ?s = SegmentDispatcher_lookupSession to from s" for to "from"
    by (simp_all add: ProtocolStack_removeStruct_def ListenDispatcher_lookupSession_def SegmentDispatcher_lookupSession_def)
  moreover have "sg_destination (received dbg src dst h d) = SocketAddress dst (sa_port (sg_destination h))"
    "sg_source (received dbg src dst h d) = SocketAddress src (sa_port (sg_source h))"
    by (simp_all add: received_def)
  ultimately show "ProtocolStack_onReceivePacket dbg fresh env buf (of_nat (length buf)) src dst ?s = Inl UndefinedBehaviour"
    using parse_received [OF assms(5,6), of dbg src dst] assms(7,8)
    by (simp add: ProtocolStack_onReceivePacket_def SegmentDispatcher_onReceivePacket_def
        ListenDispatcher_onReceivePacket_def on_struct_def)
qed

theorem ProtocolStack_close_leaves_listener_witness:
  "\<exists>s'. ProtocolStack_close True (\<lambda>_. 0) (ip_env True) wrap_null 5 ex_posix = Inr (s', 0) \<and>
    ProtocolStack_onReceivePacket True (\<lambda>_. 0) (ip_env True) (tcp_header ex_syn 0) 20
      (IPAddress_in_addr 0x0100000A) (IPAddress_in_addr 0x0200000A) s' = Inl UndefinedBehaviour"
proof -
  have "length (tcp_header ex_syn 0) = 20" by simp
  then show ?thesis
    using ProtocolStack_close_leaves_listener [where s = ex_posix and fd = 5 and j = 1 and h = ex_syn and c = 0 and d = "[]"
        and src = "IPAddress_in_addr 0x0100000A" and dst = "IPAddress_in_addr 0x0200000A" and dbg = True
        and fresh = "\<lambda>_. 0" and env = "ip_env True" and real = wrap_null]
    by (fastforce simp: ex_posix_def ListenDispatcher_lookupSession_def SegmentDispatcher_lookupSession_def
        SocketAddress_def IPAddress_isInaddrAny_def ex_syn_def ex_v4_def SocketStruct_def)
qed

text \<open>
  C21: \<open>_socket\<close>, \<open>_bind\<close> and \<open>_listen\<close> on a new descriptor: segments for the bound port of a matching
  address are dispatched to the new socket, whose backlog is the argument or at least 1; from then on
  \<open>_listen\<close>, \<open>_connect\<close> and \<open>_write\<close> fail with \<open>EINVAL\<close>, \<open>EOPNOTSUPP\<close> and \<open>EBADF\<close>.
\<close>

theorem ProtocolStack_listening_socket:
  assumes "\<not> ProtocolStack_ownFD fd s" and "IPLayer_getDefaultIP s = Inr ip"
    and "SocketAddress_sockaddr address len = Inr a"
    and "\<forall>(l, j) \<in> set (px_listening s). sa_port l \<noteq> sa_port a"
  shows "\<exists>s1 s2 s3 st. ProtocolStack_socket dbg real junk fd 2 1 0 s = Inr (s1, fd) \<and>
    ProtocolStack_bind real fd address len s1 = Inr (s2, 0) \<and> ProtocolStack_listen real fd backlog s2 = Inr (s3, 0) \<and>
    px_structs s3 (px_fresh s) = Some st \<and> st_backlog st = (if backlog \<le> 0 then 1 else of_int backlog) \<and>
    (\<forall>to. sa_port to = sa_port a \<and> (IPAddress_isInaddrAny (sa_host a) \<or> IPAddress_eq (sa_host to) (sa_host a)) \<longrightarrow>
      ListenDispatcher_lookupSession to s3 = Some (px_fresh s)) \<and>
    ProtocolStack_listen real fd b s3 = Inr (s3\<lparr>px_errno := EINVAL\<rparr>, - 1) \<and>
    ProtocolStack_connect dbg fresh env real fd address len s3 = Inr (s3\<lparr>px_errno := EOPNOTSUPP\<rparr>, - 1) \<and>
    ProtocolStack_write real fd buf n wakes s3 = Some (Inr (s3\<lparr>px_errno := EBADF\<rparr>, - 1))"
proof -
  let ?j = "px_fresh s"
  obtain g port where rand: "RandGenerator_rand_range dbg (px_rand_generator s) 49162 65536 = Inr (g, port)"
    by (cases "RandGenerator_rand (px_rand_generator s)") (simp add: RandGenerator_rand_range_def)
  define s1 where "s1 = s\<lparr>px_rand_generator := g, px_fd_set := (fd, ?j) # px_fd_set s, px_fresh := ?j + 1,
    px_structs := (px_structs s)(?j \<mapsto> SocketStruct junk (SocketAddress ip (ucast port)))\<rparr>"
  define st where "st = (SocketStruct junk (SocketAddress ip (ucast port)))\<lparr>st_bind_address := a\<rparr>"
  define st' where "st' = st\<lparr>st_type := PASSIVE, st_backlog := if backlog \<le> 0 then 1 else of_int backlog\<rparr>"
  define s2 where "s2 = put_struct ?j st s1"
  define s3 where "s3 = ListenDispatcher_addListener a ?j (put_struct ?j st' s2)"
  have "filter (\<lambda>e. fst e \<noteq> fd) (px_fd_set s) = px_fd_set s"
    using assms(1) by (auto simp: filter_id_conv ProtocolStack_ownFD_def map_of_eq_None_iff)
  then have 1: "ProtocolStack_socket dbg real junk fd 2 1 0 s = Inr (s1, fd)"
    using assms(1,2) rand by (simp add: ProtocolStack_socket_def ProtocolStack_removeStruct_def Let_def s1_def ProtocolStack_ownFD_def)
  have fd1: "map_of (px_fd_set s1) fd = Some ?j" "px_structs s1 ?j = Some (SocketStruct junk (SocketAddress ip (ucast port)))"
    by (simp_all add: s1_def)
  then have 2: "ProtocolStack_bind real fd address len s1 = Inr (s2, 0)"
    using assms(3) by (simp add: ProtocolStack_bind_def ProtocolStack_ownFD_def with_struct_Inr s2_def st_def)
  have fd2: "map_of (px_fd_set s2) fd = Some ?j" "px_structs s2 ?j = Some st" "st_type st = UNSPECIFIED" "st_bind_address st = a"
    using fd1 by (simp_all add: s2_def st_def SocketStruct_def)
  then have 3: "ProtocolStack_listen real fd backlog s2 = Inr (s3, 0)"
    by (simp add: ProtocolStack_listen_def ProtocolStack_ownFD_def with_struct_Inr s3_def st'_def Let_def)
  have fd3: "map_of (px_fd_set s3) fd = Some ?j" "px_structs s3 ?j = Some st'" "st_type st' = PASSIVE"
    using fd2(1) by (simp_all add: s3_def st'_def ListenDispatcher_addListener_def)
  have "px_listening s3 = px_listening s @ [(a, ?j)]"
    by (simp add: s3_def s2_def s1_def ListenDispatcher_addListener_def)
  note look = new_listener_found [OF assms(4) this]
  have "ProtocolStack_listen real fd b s3 = Inr (s3\<lparr>px_errno := EINVAL\<rparr>, - 1)"
    "ProtocolStack_connect dbg fresh env real fd address len s3 = Inr (s3\<lparr>px_errno := EOPNOTSUPP\<rparr>, - 1)"
    "ProtocolStack_write real fd buf n wakes s3 = Some (Inr (s3\<lparr>px_errno := EBADF\<rparr>, - 1))"
    using fd3 assms(3)
    by (simp_all add: ProtocolStack_listen_def ProtocolStack_connect_def ProtocolStack_write_def ProtocolStack_ownFD_def
        with_struct_Inr RETURN_ERRNO_def ProtocolStack_lookupStruct_def)
  then show ?thesis using 1 2 3 fd3(2) look by (force simp: st'_def)
qed

theorem ProtocolStack_listening_socket_witness:
  "\<exists>s1 s2 s3. ProtocolStack_socket True wrap_null 0 6 2 1 0 ex_posix = Inr (s1, 6) \<and>
    ProtocolStack_bind wrap_null 6 [] 0 s1 = Inr (s2, 0) \<and> ProtocolStack_listen wrap_null 6 0 s2 = Inr (s3, 0) \<and>
    ProtocolStack_write wrap_null 6 [] 0 [] s3 = Some (Inr (s3\<lparr>px_errno := EBADF\<rparr>, - 1))"
proof -
  have "\<not> ProtocolStack_ownFD 6 ex_posix" "IPLayer_getDefaultIP ex_posix = Inr (Device_getIpAddress ex_device)"
    "SocketAddress_sockaddr [] 0 = Inr SocketAddress_default"
    "\<forall>(l, j) \<in> set (px_listening ex_posix). sa_port l \<noteq> sa_port SocketAddress_default"
    by (simp_all add: ProtocolStack_ownFD_def ex_posix_def IPLayer_getDefaultIP_def DeviceManager_findDefaultDevice_def
        SocketAddress_sockaddr_def SocketAddress_default_def SocketAddress_def)
  from ProtocolStack_listening_socket [OF this, of True wrap_null 0 0] show ?thesis by blast
qed

end
