(* ===== verification/Stream_Io.thy ===== *)
theory Stream_Io
  imports Prelude
begin

text \<open>
  The robust reading and writing loops of the evaluation programs, \<open>eval/unp.c\<close> (\<open>readn\<close>, \<open>writen\<close>,
  \<open>readline\<close>) and \<open>3rd/mperf/src/util.c\<close> (\<open>rio_readnr\<close>, \<open>rio_writenr\<close>), over the calls \<open>read\<close> and
  \<open>write\<close> of POSIX. A call transfers at least one and at most the requested number of bytes, or fails
  with an error number; a \<open>read\<close> after the last byte of the peer returns 0. How the calls of a run end
  is a list of events; when it is used up the next call blocks, which is the value \<open>None\<close>.
\<close>

section \<open>Calls\<close>

datatype io_event = Chunk nat | Fail int

record conn =
  cn_in :: "byte list"
  cn_out :: "byte list"
  cn_events :: "io_event list"
  cn_errno :: int

type_synonym 'a io = "'a res option"

definition iobind :: "'a io \<Rightarrow> ('a \<Rightarrow> 'b io) \<Rightarrow> 'b io" where
  "iobind m f = (case m of None \<Rightarrow> None | Some r \<Rightarrow> (case r of Inl e \<Rightarrow> Some (Inl e) | Inr x \<Rightarrow> f x))"

abbreviation ioreturn :: "'a \<Rightarrow> 'a io" where
  "ioreturn x \<equiv> Some (Inr x)"

abbreviation iolift :: "'a res \<Rightarrow> 'a io" where
  "iolift r \<equiv> Some r"

definition EINTR :: int where "EINTR = 4"

text \<open>\<open>read\<close> into the block \<open>buf\<close> at offset \<open>ptr\<close>: the block afterwards and the result.\<close>

definition sys_read :: "size_t \<Rightarrow> byte list \<Rightarrow> size_t \<Rightarrow> conn \<Rightarrow> (conn \<times> byte list \<times> int) io" where
  "sys_read ptr buf n c =
     (case cn_events c of
        [] \<Rightarrow> None
      | Fail e # es \<Rightarrow> ioreturn (c\<lparr>cn_events := es, cn_errno := e\<rparr>, buf, - 1)
      | Chunk k # es \<Rightarrow>
          let bs = take (min (unat n) (max 1 k)) (cn_in c) in
          iobind (iolift (mem_write buf ptr bs)) (\<lambda>buf.
          ioreturn (c\<lparr>cn_events := es, cn_in := drop (length bs) (cn_in c)\<rparr>, buf, int (length bs))))"

text \<open>\<open>write\<close> from the block \<open>buf\<close> at offset \<open>ptr\<close>; the bytes it takes must be inside the block.\<close>

definition sys_write :: "byte list \<Rightarrow> size_t \<Rightarrow> size_t \<Rightarrow> conn \<Rightarrow> (conn \<times> int) io" where
  "sys_write buf ptr n c =
     (case cn_events c of
        [] \<Rightarrow> None
      | Fail e # es \<Rightarrow> ioreturn (c\<lparr>cn_events := es, cn_errno := e\<rparr>, - 1)
      | Chunk k # es \<Rightarrow>
          iobind (iolift (mem_read buf ptr (of_nat (min (unat n) k)))) (\<lambda>bs.
          ioreturn (c\<lparr>cn_events := es, cn_out := cn_out c @ bs\<rparr>, int (length bs))))"

lemma iobind_simps [simp]: "iobind None f = None" "iobind (Some (Inl e)) f = Some (Inl e)" "iobind (ioreturn x) f = f x"
  by (simp_all add: iobind_def)

lemma iobind_cong [fundef_cong]: "m = m' \<Longrightarrow> (\<And>x. m' = ioreturn x \<Longrightarrow> f x = g x) \<Longrightarrow> iobind m f = iobind m' g"
  by (auto simp: iobind_def split: option.splits sum.splits)

lemma iobind_eq_Inr: "iobind m f = ioreturn y \<longleftrightarrow> (\<exists>x. m = ioreturn x \<and> f x = ioreturn y)"
  by (auto simp: iobind_def split: option.splits sum.splits)

lemma sys_read_events: "sys_read ptr buf n c = ioreturn (c', r) \<Longrightarrow> length (cn_events c') < length (cn_events c)"
  by (auto simp: sys_read_def iobind_eq_Inr Let_def split: list.splits io_event.splits)

lemma sys_write_events: "sys_write buf ptr n c = ioreturn (c', r) \<Longrightarrow> length (cn_events c') < length (cn_events c)"
  by (auto simp: sys_write_def iobind_eq_Inr split: list.splits io_event.splits)

section \<open>The loops of the evaluation programs\<close>

text \<open>A result of type \<open>ssize_t\<close> stored in an \<open>int\<close>.\<close>

definition to_int :: "int \<Rightarrow> int" where
  "to_int r = sint (of_int r :: 32 word)"

function readn_loop :: "size_t \<Rightarrow> size_t \<Rightarrow> size_t \<Rightarrow> byte list \<Rightarrow> conn \<Rightarrow> (conn \<times> byte list \<times> int) io" where
  "readn_loop nbytes nleft ptr buf c =
     (if nleft = 0 then ioreturn (c, buf, sint nbytes)
      else iobind (sys_read ptr buf nleft c) (\<lambda>(c, buf, r).
        let nread = to_int r in
        if nread = 0 then ioreturn (c, buf, sint (nbytes - nleft))
        else if nread < 0 \<and> cn_errno c \<noteq> EINTR then ioreturn (c, buf, - 1)
        else let nread = (if nread < 0 then 0 else nread)
          in readn_loop nbytes (nleft - of_int nread) (ptr + of_int nread) buf c))"
  by pat_completeness auto

termination readn_loop
  by (relation "measure (\<lambda>(nbytes, nleft, ptr, buf, c). length (cn_events c))") (auto dest: sys_read_events)

declare readn_loop.simps [simp del]

definition readn :: "byte list \<Rightarrow> size_t \<Rightarrow> conn \<Rightarrow> (conn \<times> byte list \<times> int) io" where
  "readn buff nbytes c = readn_loop nbytes nbytes 0 buff c"

function writen_loop :: "size_t \<Rightarrow> size_t \<Rightarrow> size_t \<Rightarrow> byte list \<Rightarrow> conn \<Rightarrow> (conn \<times> int) io" where
  "writen_loop nbytes nleft ptr buf c =
     (if nleft = 0 then ioreturn (c, sint nbytes)
      else iobind (sys_write buf ptr nleft c) (\<lambda>(c, r).
        let nwritten = to_int r in
        if nwritten = 0 \<or> nwritten < 0 \<and> cn_errno c \<noteq> EINTR then ioreturn (c, - 1)
        else writen_loop nbytes (nleft - of_int nwritten) (ptr + of_int nwritten) buf c))"
  by pat_completeness auto

termination writen_loop
  by (relation "measure (\<lambda>(nbytes, nleft, ptr, buf, c). length (cn_events c))") (auto dest: sys_write_events)

declare writen_loop.simps [simp del]

definition writen :: "byte list \<Rightarrow> size_t \<Rightarrow> conn \<Rightarrow> (conn \<times> int) io" where
  "writen buff nbytes c = writen_loop nbytes nbytes 0 buff c"

text \<open>\<open>readline\<close>, one byte at a time; \<open>n\<close> is the counter of the loop.\<close>

function readline_loop :: "size_t \<Rightarrow> size_t \<Rightarrow> size_t \<Rightarrow> byte list \<Rightarrow> conn \<Rightarrow> (conn \<times> byte list \<times> int) io" where
  "readline_loop maxlen n ptr buf c =
     (if \<not> n < maxlen then iobind (iolift (mem_write buf ptr [0])) (\<lambda>buf. ioreturn (c, buf, sint n))
      else iobind (sys_read 0 [0] 1 c) (\<lambda>(c, ch, rc).
        if rc = 1 then
          iobind (iolift (mem_write buf ptr ch)) (\<lambda>buf.
          if hd ch = 10 then iobind (iolift (mem_write buf (ptr + 1) [0])) (\<lambda>buf. ioreturn (c, buf, sint n))
          else readline_loop maxlen (n + 1) (ptr + 1) buf c)
        else if rc = 0 then iobind (iolift (mem_write buf ptr [0])) (\<lambda>buf. ioreturn (c, buf, sint (n - 1)))
        else if cn_errno c = EINTR then readline_loop maxlen n ptr buf c
        else ioreturn (c, buf, - 1)))"
  by pat_completeness auto

termination readline_loop
  by (relation "measure (\<lambda>(maxlen, n, ptr, buf, c). length (cn_events c))") (auto dest: sys_read_events)

declare readline_loop.simps [simp del]

definition readline :: "byte list \<Rightarrow> size_t \<Rightarrow> conn \<Rightarrow> (conn \<times> byte list \<times> int) io" where
  "readline buff maxlen c = readline_loop maxlen 1 0 buff c"

section \<open>The loops of mperf\<close>

function rio_readnr_loop :: "size_t \<Rightarrow> size_t \<Rightarrow> size_t \<Rightarrow> byte list \<Rightarrow> conn \<Rightarrow> (conn \<times> byte list \<times> int) io" where
  "rio_readnr_loop n nleft bufp buf c =
     (if nleft = 0 then ioreturn (c, buf, sint (n - nleft))
      else iobind (sys_read bufp buf nleft c) (\<lambda>(c, buf, nread).
        if nread < 0 then
          if cn_errno c = EINTR then ioreturn (c, buf, sint (n - nleft)) else ioreturn (c, buf, - 1)
        else if nread = 0 then ioreturn (c, buf, sint (n - nleft))
        else rio_readnr_loop n (nleft - of_int nread) (bufp + of_int nread) buf c))"
  by pat_completeness auto

termination rio_readnr_loop
  by (relation "measure (\<lambda>(n, nleft, bufp, buf, c). length (cn_events c))") (auto dest: sys_read_events)

declare rio_readnr_loop.simps [simp del]

definition rio_readnr :: "byte list \<Rightarrow> size_t \<Rightarrow> conn \<Rightarrow> (conn \<times> byte list \<times> int) io" where
  "rio_readnr usrbuf n c = rio_readnr_loop n n 0 usrbuf c"

function rio_writenr_loop :: "size_t \<Rightarrow> size_t \<Rightarrow> size_t \<Rightarrow> byte list \<Rightarrow> conn \<Rightarrow> (conn \<times> int) io" where
  "rio_writenr_loop n nleft bufp buf c =
     (if nleft = 0 then ioreturn (c, sint n)
      else iobind (sys_write buf bufp nleft c) (\<lambda>(c, nwritten).
        if nwritten \<le> 0 then
          if cn_errno c = EINTR then ioreturn (c, sint (n - nleft)) else ioreturn (c, - 1)
        else rio_writenr_loop n (nleft - of_int nwritten) (bufp + of_int nwritten) buf c))"
  by pat_completeness auto

termination rio_writenr_loop
  by (relation "measure (\<lambda>(n, nleft, bufp, buf, c). length (cn_events c))") (auto dest: sys_write_events)

declare rio_writenr_loop.simps [simp del]

definition rio_writenr :: "byte list \<Rightarrow> size_t \<Rightarrow> conn \<Rightarrow> (conn \<times> int) io" where
  "rio_writenr usrbuf n c = rio_writenr_loop n n 0 usrbuf c"

section \<open>Lemmas: transfers without failures\<close>

text \<open>The next \<open>n\<close> calls each transfer something.\<close>

definition is_chunk :: "io_event \<Rightarrow> bool" where
  "is_chunk e \<longleftrightarrow> (case e of Chunk k \<Rightarrow> 0 < k | Fail _ \<Rightarrow> False)"

definition steady :: "nat \<Rightarrow> io_event list \<Rightarrow> bool" where
  "steady n es \<longleftrightarrow> n \<le> length es \<and> list_all is_chunk (take n es)"

lemma steady_Cons: "steady (Suc n) es \<Longrightarrow> \<exists>k es'. es = Chunk k # es' \<and> 0 < k \<and> steady n es'"
  by (cases es) (auto simp: steady_def is_chunk_def split: io_event.splits)

lemma steady_mono: "steady n es \<Longrightarrow> m \<le> n \<Longrightarrow> steady m es"
  by (auto simp: steady_def list_all_length)

lemma steady_drop: "steady (n + k) es \<Longrightarrow> m \<le> n \<Longrightarrow> steady k (drop m es)"
  by (auto simp: steady_def list_all_length nth_append)

text \<open>One call of \<open>read\<close> or \<open>write\<close> inside a loop.\<close>

lemma sys_read_chunk:
  assumes "cn_events c = Chunk k # es" and "nleft \<noteq> 0" and "unat nleft \<le> length (cn_in c)"
    and "unat ptr + unat nleft \<le> length buf"
  shows "\<exists>j. 0 < j \<and> j \<le> unat nleft \<and> sys_read ptr buf nleft c =
    ioreturn (c\<lparr>cn_events := es, cn_in := drop j (cn_in c)\<rparr>,
      take (unat ptr) buf @ take j (cn_in c) @ drop (unat ptr + j) buf, int j)"
proof -
  let ?j = "min (unat nleft) (max 1 k)"
  have n: "0 < unat nleft" using assms(2) by (simp add: unat_gt_0)
  have l: "length (take ?j (cn_in c)) = ?j" using assms(3) by simp
  have "mem_write buf ptr (take ?j (cn_in c)) = Inr (take (unat ptr) buf @ take ?j (cn_in c) @ drop (unat ptr + ?j) buf)"
    using mem_write_ok [of ptr "take ?j (cn_in c)" buf] assms(4) l by simp
  then have "sys_read ptr buf nleft c = ioreturn (c\<lparr>cn_events := es, cn_in := drop ?j (cn_in c)\<rparr>,
      take (unat ptr) buf @ take ?j (cn_in c) @ drop (unat ptr + ?j) buf, int ?j)"
    using assms(1) l by (simp add: sys_read_def Let_def)
  with n show ?thesis by (intro exI [of _ ?j]) simp
qed

lemma sys_write_chunk:
  assumes "cn_events c = Chunk k # es" and "0 < k" and "nleft \<noteq> 0" and "unat ptr + unat nleft \<le> length buf"
  shows "\<exists>j. 0 < j \<and> j \<le> unat nleft \<and> sys_write buf ptr nleft c =
    ioreturn (c\<lparr>cn_events := es, cn_out := cn_out c @ take j (drop (unat ptr) buf)\<rparr>, int j)"
proof -
  let ?j = "min (unat nleft) k"
  have n: "0 < unat nleft" using assms(3) by (simp add: unat_gt_0)
  have u: "unat (of_nat ?j :: size_t) = ?j"
    using unat_lt_64 [of nleft] by (simp add: unat_of_nat min_def)
  have "mem_read buf ptr (of_nat ?j) = Inr (take ?j (drop (unat ptr) buf))"
    using mem_read_ok [of ptr "of_nat ?j" buf] assms(4) u by simp
  then have "sys_write buf ptr nleft c = ioreturn (c\<lparr>cn_events := es, cn_out := cn_out c @ take ?j (drop (unat ptr) buf)\<rparr>, int ?j)"
    using assms(1,4) by (simp add: sys_write_def)
  with n assms(2) show ?thesis by (intro exI [of _ ?j]) simp
qed

text \<open>The counters after a transfer of \<open>j\<close> bytes.\<close>

lemma advance:
  fixes nleft ptr :: size_t
  assumes "j \<le> unat nleft" and "unat ptr + unat nleft < 2 ^ 64"
  shows "unat (nleft - of_nat j) = unat nleft - j" "unat (ptr + of_nat j) = unat ptr + j"
proof -
  have u: "unat (of_nat j :: size_t) = j" using assms by (simp add: unat_of_nat)
  then show "unat (nleft - of_nat j) = unat nleft - j" using assms(1) by (simp add: unat_sub_le)
  show "unat (ptr + of_nat j) = unat ptr + j" using assms u by (simp add: unat_add_lt)
qed

lemma to_int_small: "0 \<le> r \<Longrightarrow> r < 2 ^ 31 \<Longrightarrow> to_int r = r"
  by (simp add: to_int_def signed_of_int signed_take_bit_int_eq_self)

lemma sint_small:
  fixes n :: size_t
  assumes "unat n < 2 ^ 63"
  shows "sint n = int (unat n)"
proof -
  have "int (unat n) < 2 ^ 63" using assms by (metis of_nat_less_iff of_nat_numeral of_nat_power)
  then have "signed_take_bit 63 (uint n) = uint n" by (intro signed_take_bit_int_eq_self) (simp_all add: order_trans [OF _ uint_ge_0])
  then show ?thesis by (simp add: sint_uint)
qed

text \<open>
  What the reading loops have in common: \<open>nleft\<close> bytes are still to be read to offset \<open>ptr\<close>, a call
  that reads \<open>j\<close> bytes moves both on, and at the end \<open>R\<close> is returned.
\<close>

locale reading_loop =
  fixes L :: "size_t \<Rightarrow> size_t \<Rightarrow> byte list \<Rightarrow> conn \<Rightarrow> (conn \<times> byte list \<times> int) io"
    and R :: int
  assumes stop: "L 0 ptr buf c = ioreturn (c, buf, R)"
    and step: "nleft \<noteq> 0 \<Longrightarrow> sys_read ptr buf nleft c = ioreturn (c', buf', int j) \<Longrightarrow> 0 < j \<Longrightarrow> j < 2 ^ 31 \<Longrightarrow>
      L nleft ptr buf c = L (nleft - of_nat j) (ptr + of_nat j) buf' c'"
begin

lemma steady_reads:
  assumes "steady (unat nleft) (cn_events c)" and "unat nleft \<le> length (cn_in c)"
    and "unat ptr + unat nleft \<le> length buf" and "unat ptr + unat nleft < 2 ^ 31"
  shows "\<exists>m \<le> unat nleft. L nleft ptr buf c =
    ioreturn (c\<lparr>cn_in := drop (unat nleft) (cn_in c), cn_events := drop m (cn_events c)\<rparr>,
      take (unat ptr) buf @ take (unat nleft) (cn_in c) @ drop (unat ptr + unat nleft) buf, R)"
  using assms
proof (induction "unat nleft" arbitrary: nleft ptr buf c rule: less_induct)
  case less
  show ?case
  proof (cases "nleft = 0")
    case True
    then show ?thesis by (simp add: stop)
  next
    case False
    then obtain l where l: "unat nleft = Suc l" by (metis not0_implies_Suc unat_eq_zero)
    with less.prems(1) obtain k es where es: "cn_events c = Chunk k # es" "steady l es"
      using steady_Cons by metis
    obtain j where j: "0 < j" "j \<le> unat nleft" "sys_read ptr buf nleft c =
        ioreturn (c\<lparr>cn_events := es, cn_in := drop j (cn_in c)\<rparr>,
          take (unat ptr) buf @ take j (cn_in c) @ drop (unat ptr + j) buf, int j)"
      using sys_read_chunk [OF es(1) False less.prems(2,3)] by auto
    let ?c = "c\<lparr>cn_events := es, cn_in := drop j (cn_in c)\<rparr>"
    let ?buf = "take (unat ptr) buf @ take j (cn_in c) @ drop (unat ptr + j) buf"
    let ?nleft = "nleft - of_nat j" and ?ptr = "ptr + of_nat j"
    have u: "unat ?nleft = unat nleft - j" "unat ?ptr = unat ptr + j"
      using advance [OF j(2), of ptr] less.prems(4) by simp_all
    have "steady (unat nleft - j) es" using es(2) by (rule steady_mono) (use l j(1) in simp)
    then obtain m where m: "m \<le> unat ?nleft" "L ?nleft ?ptr ?buf ?c =
      ioreturn (?c\<lparr>cn_in := drop (unat ?nleft) (cn_in ?c), cn_events := drop m (cn_events ?c)\<rparr>,
        take (unat ?ptr) ?buf @ take (unat ?nleft) (cn_in ?c) @ drop (unat ?ptr + unat ?nleft) ?buf, R)"
      using less.hyps [of ?nleft ?c ?ptr ?buf] less.prems(2-4) j(1,2) u by (auto simp: diff_le_mono)
    have "L nleft ptr buf c = L ?nleft ?ptr ?buf ?c"
      using step [OF False j(3,1)] j(2) less.prems(4) by simp
    moreover have "take (unat ptr + j) ?buf = take (unat ptr) buf @ take j (cn_in c)"
      "drop (unat ptr + unat nleft) ?buf = drop (unat ptr + unat nleft) buf"
      using j(2) less.prems(2,3) by (simp_all add: add.commute)
    moreover have "take (unat nleft) (cn_in c) = take j (cn_in c) @ take (unat nleft - j) (drop j (cn_in c))"
      using take_add [of j "unat nleft - j" "cn_in c"] j(2) by simp
    ultimately show ?thesis using m j(1,2) es(1) u by (intro exI [of _ "Suc m"]) simp
  qed
qed

end

locale writing_loop =
  fixes L :: "size_t \<Rightarrow> size_t \<Rightarrow> byte list \<Rightarrow> conn \<Rightarrow> (conn \<times> int) io"
    and R :: int
  assumes stop: "L 0 ptr buf c = ioreturn (c, R)"
    and step: "nleft \<noteq> 0 \<Longrightarrow> sys_write buf ptr nleft c = ioreturn (c', int j) \<Longrightarrow> 0 < j \<Longrightarrow> j < 2 ^ 31 \<Longrightarrow>
      L nleft ptr buf c = L (nleft - of_nat j) (ptr + of_nat j) buf c'"
begin

lemma steady_writes:
  assumes "steady (unat nleft) (cn_events c)" and "unat ptr + unat nleft \<le> length buf" and "unat ptr + unat nleft < 2 ^ 31"
  shows "\<exists>m \<le> unat nleft. L nleft ptr buf c =
    ioreturn (c\<lparr>cn_out := cn_out c @ take (unat nleft) (drop (unat ptr) buf), cn_events := drop m (cn_events c)\<rparr>, R)"
  using assms
proof (induction "unat nleft" arbitrary: nleft ptr c rule: less_induct)
  case less
  show ?case
  proof (cases "nleft = 0")
    case True
    then show ?thesis by (simp add: stop)
  next
    case False
    then obtain l where l: "unat nleft = Suc l" by (metis not0_implies_Suc unat_eq_zero)
    with less.prems(1) obtain k es where es: "cn_events c = Chunk k # es" "0 < k" "steady l es"
      using steady_Cons by metis
    obtain j where j: "0 < j" "j \<le> unat nleft" "sys_write buf ptr nleft c =
        ioreturn (c\<lparr>cn_events := es, cn_out := cn_out c @ take j (drop (unat ptr) buf)\<rparr>, int j)"
      using sys_write_chunk [OF es(1,2) False less.prems(2)] by auto
    let ?c = "c\<lparr>cn_events := es, cn_out := cn_out c @ take j (drop (unat ptr) buf)\<rparr>"
    let ?nleft = "nleft - of_nat j" and ?ptr = "ptr + of_nat j"
    have u: "unat ?nleft = unat nleft - j" "unat ?ptr = unat ptr + j"
      using advance [OF j(2), of ptr] less.prems(3) by simp_all
    have "steady (unat nleft - j) es" using es(3) by (rule steady_mono) (use l j(1) in simp)
    then obtain m where m: "m \<le> unat ?nleft" "L ?nleft ?ptr buf ?c =
      ioreturn (?c\<lparr>cn_out := cn_out ?c @ take (unat ?nleft) (drop (unat ?ptr) buf), cn_events := drop m (cn_events ?c)\<rparr>, R)"
      using less.hyps [of ?nleft ?c ?ptr] less.prems(2,3) j(1,2) u by (auto simp: diff_le_mono)
    have "L nleft ptr buf c = L ?nleft ?ptr buf ?c"
      using step [OF False j(3,1)] j(2) less.prems(3) by simp
    moreover have "take (unat nleft) (drop (unat ptr) buf) =
        take j (drop (unat ptr) buf) @ take (unat nleft - j) (drop (unat ptr + j) buf)"
      using take_add [of j "unat nleft - j" "drop (unat ptr) buf"] j(2) by (simp add: add.commute)
    ultimately show ?thesis using m j(1,2) es(1) u by (intro exI [of _ "Suc m"]) simp
  qed
qed

end

interpretation readn: reading_loop "readn_loop n" "sint n" for n
  by unfold_locales (simp add: readn_loop.simps [of n 0], subst readn_loop.simps, simp add: to_int_small)

interpretation rio_readnr: reading_loop "rio_readnr_loop n" "sint n" for n
  by unfold_locales (simp add: rio_readnr_loop.simps [of n 0], subst rio_readnr_loop.simps, simp)

interpretation writen: writing_loop "writen_loop n" "sint n" for n
  by unfold_locales (simp add: writen_loop.simps [of n 0], subst writen_loop.simps, simp add: to_int_small)

interpretation rio_writenr: writing_loop "rio_writenr_loop n" "sint n" for n
  by unfold_locales (simp add: rio_writenr_loop.simps [of n 0], subst rio_writenr_loop.simps, simp)

section \<open>Lemmas: transfers with failures\<close>

text \<open>A call of \<open>read\<close> with room for its bytes does not fault.\<close>

lemma sys_read_cases:
  assumes "unat ptr + unat nleft \<le> length buf"
  obtains "cn_events c = []" "sys_read ptr buf nleft c = None"
  | e es where "cn_events c = Fail e # es" "sys_read ptr buf nleft c = ioreturn (c\<lparr>cn_events := es, cn_errno := e\<rparr>, buf, - 1)"
  | k es j where "cn_events c = Chunk k # es" "j = min (min (unat nleft) (max 1 k)) (length (cn_in c))"
      "sys_read ptr buf nleft c = ioreturn (c\<lparr>cn_events := es, cn_in := drop j (cn_in c)\<rparr>,
        take (unat ptr) buf @ take j (cn_in c) @ drop (unat ptr + j) buf, int j)"
proof (cases "cn_events c")
  case (Cons ev es)
  show thesis
  proof (cases ev)
    case (Chunk k)
    let ?bs = "take (min (unat nleft) (max 1 k)) (cn_in c)"
    have "mem_write buf ptr ?bs = Inr (take (unat ptr) buf @ ?bs @ drop (unat ptr + length ?bs) buf)"
      using assms by (intro mem_write_ok) simp
    then show thesis using Cons Chunk that(3) [of k es "length ?bs"] take_min_length [of "min (unat nleft) (max 1 k)" "cn_in c"]
      by (simp add: sys_read_def Let_def min.commute)
  qed (use Cons that(2) in \<open>simp add: sys_read_def\<close>)
qed (use that(1) in \<open>simp add: sys_read_def\<close>)

text \<open>The number of calls in a run that do not fail.\<close>

definition chunks :: "io_event list \<Rightarrow> nat" where
  "chunks es = length (filter (\<lambda>e. case e of Chunk k \<Rightarrow> True | Fail _ \<Rightarrow> False) es)"

lemma chunks_simps [simp]: "chunks [] = 0" "chunks (Chunk k # es) = Suc (chunks es)" "chunks (Fail e # es) = chunks es"
  by (simp_all add: chunks_def)

text \<open>
  What a reading loop with \<open>p\<close> bytes read and \<open>n\<close> to go can end in: it never faults, it blocks only
  while the peer is silent, and otherwise \<open>k\<close> more bytes were read and it returns their number, or -1
  after an error. \<open>intr\<close> tells whether an interrupt ends the loop.
\<close>

definition read_result :: "bool \<Rightarrow> nat \<Rightarrow> nat \<Rightarrow> nat \<Rightarrow> conn \<Rightarrow> conn \<Rightarrow> int \<Rightarrow> bool" where
  "read_result intr p n k c c' r \<longleftrightarrow>
     k \<le> n \<and> k \<le> length (cn_in c) \<and> cn_in c' = drop k (cn_in c) \<and> cn_out c' = cn_out c \<and> set (cn_events c') \<subseteq> set (cn_events c) \<and>
     (cn_errno c' = cn_errno c \<or> Fail (cn_errno c') \<in> set (cn_events c)) \<and>
     chunks (cn_events c) \<le> chunks (cn_events c') + k + (if k = n then 0 else 1) \<and>
     (r = int (p + k) \<and> (k = n \<or> k = length (cn_in c) \<or> intr \<and> Fail EINTR \<in> set (cn_events c)) \<or>
      r = - 1 \<and> cn_errno c' \<noteq> EINTR \<and> Fail (cn_errno c') \<in> set (cn_events c))"

definition read_outcome :: "bool \<Rightarrow> nat \<Rightarrow> nat \<Rightarrow> byte list \<Rightarrow> conn \<Rightarrow> (conn \<times> byte list \<times> int) io \<Rightarrow> bool" where
  "read_outcome intr p n buf c res \<longleftrightarrow>
     (case res of
        None \<Rightarrow> chunks (cn_events c) \<le> min n (length (cn_in c))
      | Some (Inl e) \<Rightarrow> False
      | Some (Inr (c', buf', r)) \<Rightarrow>
          (\<exists>k. read_result intr p n k c c' r \<and> buf' = take p buf @ take k (cn_in c) @ drop (p + k) buf))"

lemma read_outcomeE:
  assumes "read_outcome intr p n buf c res"
  obtains "res = None" "chunks (cn_events c) \<le> n" "chunks (cn_events c) \<le> length (cn_in c)"
  | c' r k where "res = ioreturn (c', take p buf @ take k (cn_in c) @ drop (p + k) buf, r)" "read_result intr p n k c c' r"
  using assms by (auto simp: read_outcome_def split: option.splits sum.splits)

lemma read_outcome_retry:
  assumes "read_outcome intr p n buf (c\<lparr>cn_events := es, cn_errno := e\<rparr>) res" and "cn_events c = Fail e # es"
  shows "read_outcome intr p n buf c res"
  using assms(1)
proof (cases rule: read_outcomeE)
  case (2 c' r k)
  then have "read_result intr p n k c c' r" using assms(2) by (auto simp: read_result_def)
  then show ?thesis using 2(1) by (auto simp: read_outcome_def)
qed (use assms(2) in \<open>simp add: read_outcome_def\<close>)

lemma read_outcome_step:
  assumes "read_outcome intr (p + j) (n - j) (take p buf @ take j (cn_in c) @ drop (p + j) buf)
      (c\<lparr>cn_events := es, cn_in := drop j (cn_in c)\<rparr>) res"
    and "cn_events c = Chunk l # es" and "0 < j" and "j \<le> n" and "j \<le> length (cn_in c)" and "p + n \<le> length buf"
  shows "read_outcome intr p n buf c res"
  using assms(1)
proof (cases rule: read_outcomeE)
  case (2 c' r k)
  let ?buf = "take p buf @ take j (cn_in c) @ drop (p + j) buf"
  have "take (p + j) ?buf @ take k (drop j (cn_in c)) @ drop (p + j + k) ?buf =
      take p buf @ take (j + k) (cn_in c) @ drop (p + (j + k)) buf"
    using assms(4-6) by (simp add: take_add ac_simps)
  moreover have "read_result intr p n (j + k) c c' r"
    using 2(2) assms(2-5) by (auto simp: read_result_def ac_simps split: if_splits)
  ultimately show ?thesis using 2(1) by (auto simp: read_outcome_def)
qed (use assms(2-5) in \<open>auto simp: read_outcome_def\<close>)

text \<open>
  What the two reading loops do when a call returns no data: at the end of the stream they return what
  they have so far; after an interrupt they return it as well, or they try again.
\<close>

locale reading_loop_any = reading_loop +
  fixes intr :: bool
  assumes block: "nleft \<noteq> 0 \<Longrightarrow> sys_read ptr buf nleft c = None \<Longrightarrow> L nleft ptr buf c = None"
    and eof: "nleft \<noteq> 0 \<Longrightarrow> sys_read ptr buf nleft c = ioreturn (c', buf', 0) \<Longrightarrow>
      unat ptr + unat nleft < 2 ^ 31 \<Longrightarrow> R = int (unat ptr + unat nleft) \<Longrightarrow> L nleft ptr buf c = ioreturn (c', buf', int (unat ptr))"
    and failed: "nleft \<noteq> 0 \<Longrightarrow> sys_read ptr buf nleft c = ioreturn (c', buf, - 1) \<Longrightarrow>
      unat ptr + unat nleft < 2 ^ 31 \<Longrightarrow> R = int (unat ptr + unat nleft) \<Longrightarrow>
      L nleft ptr buf c = (if cn_errno c' \<noteq> EINTR then ioreturn (c', buf, - 1)
        else if intr then ioreturn (c', buf, int (unat ptr)) else L nleft ptr buf c')"
begin

lemma any_reads:
  assumes "unat ptr + unat nleft \<le> length buf" and "unat ptr + unat nleft < 2 ^ 31" and "R = int (unat ptr + unat nleft)"
  shows "read_outcome intr (unat ptr) (unat nleft) buf c (L nleft ptr buf c)"
  using assms
proof (induction "length (cn_events c)" arbitrary: nleft ptr buf c rule: less_induct)
  case less
  show ?case
  proof (cases "nleft = 0")
    case True
    then show ?thesis using less.prems(3) by (simp add: stop read_outcome_def read_result_def)
  next
    case False
    then have pos: "0 < unat nleft" by (simp add: unat_gt_0)
    show ?thesis using less.prems(1)
    proof (cases rule: sys_read_cases [where c = c])
      case 1
      then show ?thesis using block [OF False] by (simp add: read_outcome_def)
    next
      case (2 e es)
      let ?c = "c\<lparr>cn_events := es, cn_errno := e\<rparr>"
      have "read_outcome intr (unat ptr) (unat nleft) buf c (L nleft ptr buf ?c)"
        using read_outcome_retry [OF less.hyps [of ?c, OF _ less.prems]] 2(1) by simp
      then show ?thesis using failed [OF False 2(2) less.prems(2,3)] 2(1) pos
        by (auto simp: read_outcome_def read_result_def intro!: exI [of _ 0])
    next
      case (3 k es j)
      let ?c = "c\<lparr>cn_events := es, cn_in := drop j (cn_in c)\<rparr>"
      let ?buf = "take (unat ptr) buf @ take j (cn_in c) @ drop (unat ptr + j) buf"
      let ?nleft = "nleft - of_nat j" and ?ptr = "ptr + of_nat j"
      have j: "j \<le> unat nleft" "j \<le> length (cn_in c)" using 3(2) by simp_all
      show ?thesis
      proof (cases "j = 0")
        case True
        then have "cn_in c = []" using 3(2) pos by (simp add: min_def split: if_splits)
        then show ?thesis using True eof [OF False _ less.prems(2,3)] 3(1,3) pos
          by (auto simp: read_outcome_def read_result_def)
      next
        case moved: False
        have u: "unat ?nleft = unat nleft - j" "unat ?ptr = unat ptr + j"
          using advance [OF j(1), of ptr] less.prems(2) by simp_all
        have IH: "read_outcome intr (unat ptr + j) (unat nleft - j) ?buf ?c (L ?nleft ?ptr ?buf ?c)"
          using less.hyps [of ?c ?ptr ?nleft ?buf] less.prems 3(1) j u by simp
        have "L nleft ptr buf c = L ?nleft ?ptr ?buf ?c" using step [OF False 3(3)] moved j(1) less.prems(2) by simp
        then show ?thesis using read_outcome_step [OF IH 3(1)] moved j less.prems(1) by simp
      qed
    qed
  qed
qed

end

lemma prefix_count:
  fixes n nleft ptr :: size_t
  assumes "unat ptr + unat nleft < 2 ^ 31" and "sint n = int (unat ptr + unat nleft)"
  shows "unat ptr + unat nleft = unat n" "sint (n - nleft) = int (unat ptr)"
proof -
  have "n = of_int (sint n)" by simp
  also have "\<dots> = of_nat (unat ptr + unat nleft)" unfolding assms(2) by simp
  finally have "unat n = (unat ptr + unat nleft) mod 2 ^ 64" by (simp only: unat_of_nat) simp
  then show n: "unat ptr + unat nleft = unat n" using assms(1) by simp
  then have "unat (n - nleft) = unat ptr" by (simp add: unat_sub_le)
  then show "sint (n - nleft) = int (unat ptr)" using n assms(1) by (subst sint_small) simp_all
qed

interpretation readn: reading_loop_any "readn_loop n" "sint n" False for n
proof (unfold_locales, goal_cases)
  case (1 nleft ptr buf c)
  then show ?case by (subst readn_loop.simps) simp
next
  case (2 nleft ptr buf c c' buf')
  then show ?case using prefix_count(2) [OF 2(3,4)] by (subst readn_loop.simps) (simp add: to_int_def)
next
  case (3 nleft ptr buf c c')
  then show ?case by (subst readn_loop.simps) (simp add: to_int_def)
qed

interpretation rio_readnr: reading_loop_any "rio_readnr_loop n" "sint n" True for n
proof (unfold_locales, goal_cases)
  case (1 nleft ptr buf c)
  then show ?case by (subst rio_readnr_loop.simps) simp
next
  case (2 nleft ptr buf c c' buf')
  then show ?case using prefix_count(2) [OF 2(3,4)] by (subst rio_readnr_loop.simps) simp
next
  case (3 nleft ptr buf c c')
  then show ?case using prefix_count(2) [OF 3(3,4)] by (subst rio_readnr_loop.simps) simp
qed

text \<open>The same for \<open>rio_writenr\<close>.\<close>

lemma sys_write_cases:
  assumes "unat ptr + unat nleft \<le> length buf"
  obtains "cn_events c = []" "sys_write buf ptr nleft c = None"
  | e es where "cn_events c = Fail e # es" "sys_write buf ptr nleft c = ioreturn (c\<lparr>cn_events := es, cn_errno := e\<rparr>, - 1)"
  | k es j where "cn_events c = Chunk k # es" "j = min (unat nleft) k"
      "sys_write buf ptr nleft c = ioreturn (c\<lparr>cn_events := es, cn_out := cn_out c @ take j (drop (unat ptr) buf)\<rparr>, int j)"
proof (cases "cn_events c")
  case (Cons ev es)
  show thesis
  proof (cases ev)
    case (Chunk k)
    let ?j = "min (unat nleft) k"
    have "unat (of_nat ?j :: size_t) = ?j" using unat_lt_64 [of nleft] by (simp add: unat_of_nat min_def)
    then have "mem_read buf ptr (of_nat ?j) = Inr (take ?j (drop (unat ptr) buf))"
      using mem_read_ok [of ptr "of_nat ?j" buf] assms by simp
    then show thesis using Cons Chunk that(3) [of k es ?j] assms by (simp add: sys_write_def)
  qed (use Cons that(2) in \<open>simp add: sys_write_def\<close>)
qed (use that(1) in \<open>simp add: sys_write_def\<close>)

definition write_result :: "nat \<Rightarrow> nat \<Rightarrow> nat \<Rightarrow> byte list \<Rightarrow> conn \<Rightarrow> conn \<Rightarrow> int \<Rightarrow> bool" where
  "write_result p n k buf c c' r \<longleftrightarrow>
     k \<le> n \<and> cn_out c' = cn_out c @ take k (drop p buf) \<and> cn_in c' = cn_in c \<and>
     chunks (cn_events c) \<le> chunks (cn_events c') + k + (if k = n then 0 else 1) \<and> (r = int (p + k) \<or> r = - 1 \<and> k < n)"

definition write_outcome :: "nat \<Rightarrow> nat \<Rightarrow> byte list \<Rightarrow> conn \<Rightarrow> (conn \<times> int) io \<Rightarrow> bool" where
  "write_outcome p n buf c res \<longleftrightarrow>
     (case res of
        None \<Rightarrow> chunks (cn_events c) \<le> n
      | Some (Inl e) \<Rightarrow> False
      | Some (Inr (c', r)) \<Rightarrow> (\<exists>k. write_result p n k buf c c' r))"

lemma write_outcomeE:
  assumes "write_outcome p n buf c res"
  obtains "res = None" "chunks (cn_events c) \<le> n" | c' r k where "res = ioreturn (c', r)" "write_result p n k buf c c' r"
  using assms by (auto simp: write_outcome_def split: option.splits sum.splits)

lemma write_outcome_step:
  assumes "write_outcome (p + j) (n - j) buf (c\<lparr>cn_events := es, cn_out := cn_out c @ take j (drop p buf)\<rparr>) res"
    and "cn_events c = Chunk l # es" and "0 < j" and "j \<le> n"
  shows "write_outcome p n buf c res"
  using assms(1)
proof (cases rule: write_outcomeE)
  case (2 c' r k)
  then have "write_result p n (j + k) buf c c' r"
    using assms(2-4) by (auto simp: write_result_def take_add ac_simps split: if_splits)
  then show ?thesis using 2(1) by (auto simp: write_outcome_def)
qed (use assms(2-4) in \<open>simp add: write_outcome_def\<close>)

lemma rio_writenr_any:
  assumes "unat ptr + unat nleft = unat n" and "unat n \<le> length buf" and "unat n < 2 ^ 31"
  shows "write_outcome (unat ptr) (unat nleft) buf c (rio_writenr_loop n nleft ptr buf c)"
  using assms
proof (induction "length (cn_events c)" arbitrary: nleft ptr c rule: less_induct)
  case less
  have room: "unat ptr + unat nleft \<le> length buf" using less.prems(1,2) by simp
  have s: "sint n = int (unat ptr + unat nleft)" using less.prems(1,3) sint_small [of n] by simp
  have part: "sint (n - nleft) = int (unat ptr)" using prefix_count(2) [OF _ s] less.prems(1,3) by simp
  show ?case
  proof (cases "nleft = 0")
    case True
    then show ?thesis using s by (simp add: rio_writenr.stop write_outcome_def write_result_def)
  next
    case False
    then have pos: "0 < unat nleft" by (simp add: unat_gt_0)
    show ?thesis using room
    proof (cases rule: sys_write_cases [where c = c])
      case 1
      then show ?thesis using False by (subst rio_writenr_loop.simps) (simp add: write_outcome_def)
    next
      case (2 e es)
      then show ?thesis using False part pos
        by (subst rio_writenr_loop.simps) (auto simp: write_outcome_def write_result_def intro!: exI [of _ 0])
    next
      case (3 k es j)
      let ?c = "c\<lparr>cn_events := es, cn_out := cn_out c @ take j (drop (unat ptr) buf)\<rparr>"
      show ?thesis
      proof (cases "j = 0")
        case True
        then show ?thesis using False part 3(1,3) pos
          by (subst rio_writenr_loop.simps) (auto simp: write_outcome_def write_result_def intro!: exI [of _ 0])
      next
        case moved: False
        let ?nleft = "nleft - of_nat j" and ?ptr = "ptr + of_nat j"
        have j: "j \<le> unat nleft" using 3(2) by simp
        have u: "unat ?nleft = unat nleft - j" "unat ?ptr = unat ptr + j"
          using advance [OF j, of ptr] less.prems(1,3) by simp_all
        have "rio_writenr_loop n nleft ptr buf c = rio_writenr_loop n ?nleft ?ptr buf ?c"
          using rio_writenr.step [OF False 3(3)] moved j less.prems(1,3) by simp
        moreover have "write_outcome (unat ptr + j) (unat nleft - j) buf ?c (rio_writenr_loop n ?nleft ?ptr buf ?c)"
          using less.hyps [of ?c ?ptr ?nleft] less.prems 3(1) j u by simp
        ultimately show ?thesis using write_outcome_step [OF _ 3(1)] moved j by simp
      qed
    qed
  qed
qed

section \<open>Properties\<close>

text \<open>
  C29: \<open>readn\<close> survives interrupts. For every way the calls of \<open>read\<close> can end: it never writes outside
  the buffer, it blocks only while the peer is silent, and it returns \<open>n\<close> with the next \<open>n\<close> bytes of
  the stream in the buffer, or fewer if the stream ends there, or -1 after an error that is not an
  interrupt. The rest of the buffer is unchanged and no byte is lost or read twice.
\<close>

theorem readn_correct:
  assumes "unat n \<le> length buf" and "unat n < 2 ^ 31"
  shows "case readn buf n c of
      None \<Rightarrow> chunks (cn_events c) \<le> unat n
    | Some (Inl e) \<Rightarrow> False
    | Some (Inr (c', buf', r)) \<Rightarrow>
        (\<exists>k \<le> unat n. buf' = take k (cn_in c) @ drop k buf \<and> cn_in c' = drop k (cn_in c) \<and>
          (r = int k \<and> (k = unat n \<or> k = length (cn_in c)) \<or> r = - 1 \<and> cn_errno c' \<noteq> EINTR))"
proof -
  have "sint n = int (unat n)" using assms(2) by (intro sint_small) simp
  with readn.any_reads [of 0 n buf n c] assms have "read_outcome False 0 (unat n) buf c (readn buf n c)" by (simp add: readn_def)
  then show ?thesis by (cases rule: read_outcomeE) (auto simp: read_result_def)
qed

theorem readn_correct_witness:
  "\<exists>c' r. readn [0, 0, 0, 0, 9] 4 \<lparr>cn_in = [1, 2, 3, 4, 5], cn_out = [], cn_events = [Chunk 2, Fail EINTR, Chunk 1, Chunk 7, Chunk 1, Chunk 1],
     cn_errno = 0\<rparr> = ioreturn (c', [1, 2, 3, 4, 9], r) \<and> r = 4"
proof -
  let ?c = "\<lparr>cn_in = [1, 2, 3, 4, 5], cn_out = [], cn_events = [Chunk 2, Fail EINTR, Chunk 1, Chunk 7, Chunk 1, Chunk 1], cn_errno = 0\<rparr>"
  have "readn [0, 0, 0, 0, 9] 4 ?c = ioreturn (?c\<lparr>cn_in := [5], cn_events := [Chunk 1, Chunk 1], cn_errno := EINTR\<rparr>, [1, 2, 3, 4, 9], 4)"
    by (simp add: readn_def readn_loop.simps sys_read_def mem_write_def to_int_def EINTR_def Let_def)
  with readn_correct [of 4 "[0, 0, 0, 0, 9]" ?c] show ?thesis by simp
qed

lemma writen_interrupt:
  assumes "nleft \<noteq> 0" and "cn_events c = Fail EINTR # es"
  shows "writen_loop n nleft ptr buf c = writen_loop n (nleft + 1) (ptr - 1) buf (c\<lparr>cn_events := es, cn_errno := EINTR\<rparr>)"
proof -
  have "to_int (- 1) = - 1" by (simp add: to_int_def)
  then show ?thesis using assms by (subst writen_loop.simps) (simp add: sys_write_def)
qed

lemma writen_last:
  assumes "nleft \<noteq> 0" and "cn_events c = Chunk m # es" and "unat nleft \<le> m" and "unat ptr + unat nleft \<le> length buf"
    and "unat nleft < 2 ^ 31"
  shows "writen_loop n nleft ptr buf c =
    ioreturn (c\<lparr>cn_out := cn_out c @ take (unat nleft) (drop (unat ptr) buf), cn_events := es\<rparr>, sint n)"
proof -
  have "sys_write buf ptr nleft c =
      ioreturn (c\<lparr>cn_events := es, cn_out := cn_out c @ take (unat nleft) (drop (unat ptr) buf)\<rparr>, int (unat nleft))"
    using assms(2-4) by (simp add: sys_write_def mem_read_def)
  moreover have "0 < unat nleft" using assms(1) by (simp add: unat_gt_0)
  ultimately show ?thesis using writen.step [OF assms(1) _ _ assms(5), of buf ptr c _ n] by (simp add: writen.stop)
qed

lemma writen_interrupted_first:
  assumes "n \<noteq> 0" and "unat n < 2 ^ 31" and "length buf \<le> 2 ^ 62"
  shows "writen_loop n n 0 buf (c\<lparr>cn_events := [Fail EINTR, Chunk m]\<rparr>) = Some (Inl OutOfBounds)"
proof -
  have "unat (n + 1) = unat n + 1" using assms(2) by (simp add: unat_add_lt)
  then have "n + 1 \<noteq> 0" by (metis Suc_eq_plus1 nat.simps(3) unat_0)
  moreover have "unat (- 1 :: size_t) = 2 ^ 64 - 1" by (simp add: unsigned_minus_1_eq_mask mask_eq_exp_minus_1)
  ultimately show ?thesis
    using assms(3) writen_interrupt [OF assms(1), of "c\<lparr>cn_events := [Fail EINTR, Chunk m]\<rparr>" "[Chunk m]" n 0 buf]
    by (simp add: writen_loop.simps [of n "n + 1"] sys_write_def mem_read_def)
qed

text \<open>
  C39: \<open>writen\<close> does not survive interrupts: it treats the result -1 of an interrupted \<open>write\<close> as a
  count. An interrupt after \<open>k\<close> bytes makes it send the last of them again, so the peer gets \<open>n + 1\<close>
  bytes; an interrupt of the first call makes it read in front of the buffer.
\<close>

theorem writen_interrupted:
  assumes "0 < k" and "k < unat n" and "unat n \<le> length buf" and "unat n < 2 ^ 31" and "unat n - k < m"
    and "length buf \<le> 2 ^ 62"
  shows "writen buf n (c\<lparr>cn_events := [Chunk k, Fail EINTR, Chunk m]\<rparr>) =
      ioreturn (c\<lparr>cn_out := cn_out c @ take k buf @ drop (k - 1) (take (unat n) buf), cn_events := [], cn_errno := EINTR\<rparr>, int (unat n)) \<and>
    writen buf n (c\<lparr>cn_events := [Fail EINTR, Chunk m]\<rparr>) = Some (Inl OutOfBounds)"
proof -
  have n0: "n \<noteq> 0" using assms(2) by auto
  let ?c0 = "c\<lparr>cn_events := [Chunk k, Fail EINTR, Chunk m]\<rparr>"
  have uk: "unat (of_nat k :: size_t) = k" using assms(2,4) by (simp add: unat_of_nat)
  have "sys_write buf 0 n ?c0 = ioreturn (c\<lparr>cn_events := [Fail EINTR, Chunk m], cn_out := cn_out c @ take k buf\<rparr>, int k)"
    using assms(2,3) uk by (simp add: sys_write_def mem_read_def)
  from writen.step [OF n0 this assms(1), of n] assms(2,4)
  have 1: "writen_loop n n 0 buf ?c0 =
    writen_loop n (n - of_nat k) (of_nat k) buf (c\<lparr>cn_events := [Fail EINTR, Chunk m], cn_out := cn_out c @ take k buf\<rparr>)" by simp
  have "n - of_nat k \<noteq> 0" using uk assms(2) by auto
  from writen_interrupt [OF this, where ptr = "of_nat k" and n = n and buf = buf
      and c = "c\<lparr>cn_events := [Fail EINTR, Chunk m], cn_out := cn_out c @ take k buf\<rparr>"]
  have 2: "writen_loop n n 0 buf ?c0 = writen_loop n (n - of_nat k + 1) (of_nat k - 1) buf
      (c\<lparr>cn_out := cn_out c @ take k buf, cn_events := [Chunk m], cn_errno := EINTR\<rparr>)" using 1 by simp
  have u: "unat (n - of_nat k + 1) = unat n - k + 1" "unat (of_nat k - 1 :: size_t) = k - 1"
    using uk assms(1,2,4) by (simp_all add: unat_sub_le unat_add_lt)
  then have "n - of_nat k + 1 \<noteq> 0" by (metis Suc_eq_plus1 nat.simps(3) unat_0)
  from writen_last [OF this, of "c\<lparr>cn_out := cn_out c @ take k buf, cn_events := [Chunk m], cn_errno := EINTR\<rparr>" m "[]"
      "of_nat k - 1" buf n] u assms
  have "writen_loop n n 0 buf ?c0 = ioreturn (c\<lparr>cn_out := cn_out c @ take k buf @ take (unat n - k + 1) (drop (k - 1) buf),
      cn_events := [], cn_errno := EINTR\<rparr>, sint n)" unfolding 2 by simp
  moreover have "take (unat n - k + 1) (drop (k - 1) buf) = drop (k - 1) (take (unat n) buf)"
    using assms(1,2) by (simp add: drop_take Suc_diff_le)
  moreover have "sint n = int (unat n)" using assms(4) by (intro sint_small) simp
  moreover have "writen_loop n n 0 buf (c\<lparr>cn_events := [Fail EINTR, Chunk m]\<rparr>) = Some (Inl OutOfBounds)"
    using writen_interrupted_first [OF n0 assms(4,6)] .
  ultimately show ?thesis by (simp add: writen_def)
qed

theorem writen_interrupted_witness:
  "\<exists>c. writen [1, 2, 3] 3 \<lparr>cn_in = [], cn_out = [], cn_events = [Chunk 1, Fail EINTR, Chunk 9], cn_errno = 0\<rparr> =
     ioreturn (c, 3) \<and> cn_out c = [1, 1, 2, 3]"
  using writen_interrupted [of 1 3 "[1, 2, 3]" 9 "\<lparr>cn_in = [], cn_out = [], cn_events = [], cn_errno = 0\<rparr>"] by auto

end
