(* ===== verification/C_Strings.thy ===== *)
theory C_Strings
  imports Time_Base Stream_Io
begin

text \<open>
  The functions of the C library by which the programs of mperf read their command lines and their
  control messages, as the GNU library has them: \<open>atoi\<close> and the conversion \<open>%d\<close> of \<open>sscanf\<close> and
  \<open>sprintf\<close>, and \<open>getopt\<close> for short options. A string is the list of its characters without the
  terminating zero; \<open>bytes_of\<close> gives its bytes in memory.
\<close>

section \<open>Characters\<close>

definition bytes_of :: "string \<Rightarrow> byte list" where
  "bytes_of s = map of_char s"

definition string_of :: "byte list \<Rightarrow> string" where
  "string_of bs = map (\<lambda>b. char_of (unat b)) bs"

definition is_digit :: "char \<Rightarrow> bool" where
  "is_digit c \<longleftrightarrow> 48 \<le> (of_char c :: nat) \<and> (of_char c :: nat) \<le> 57"

definition is_space :: "char \<Rightarrow> bool" where
  "is_space c \<longleftrightarrow> (of_char c :: nat) = 32 \<or> 9 \<le> (of_char c :: nat) \<and> (of_char c :: nat) \<le> 13"

section \<open>Numbers\<close>

definition digits_value :: "string \<Rightarrow> nat" where
  "digits_value s = fold (\<lambda>c v. 10 * v + (of_char c - 48)) s 0"

text \<open>Space, a sign, at least one digit: the number and the rest of the string.\<close>

definition scan_int :: "string \<Rightarrow> (int \<times> string) option" where
  "scan_int s =
     (let s = dropWhile is_space s;
          neg = (case s of [] \<Rightarrow> False | c # _ \<Rightarrow> c = CHR ''-'');
          s = (case s of [] \<Rightarrow> [] | c # cs \<Rightarrow> if c = CHR ''-'' \<or> c = CHR ''+'' then cs else s);
          ds = takeWhile is_digit s;
          v = int (digits_value ds)
      in if ds = [] then None else Some (if neg then - v else v, dropWhile is_digit s))"

text \<open>A number out of the range of \<open>long\<close> becomes the nearest \<open>long\<close>, which is then cut to an \<open>int\<close>.\<close>

definition long_to_int :: "int \<Rightarrow> int" where
  "long_to_int v = to_int (max (- (2 ^ 63)) (min (2 ^ 63 - 1) v))"

definition atoi :: "string \<Rightarrow> int" where
  "atoi s = (case scan_int s of None \<Rightarrow> 0 | Some (v, _) \<Rightarrow> long_to_int v)"

text \<open>\<open>sscanf\<close> with \<open>n\<close> conversions \<open>%d\<close>: the variables that are assigned.\<close>

primrec scan_ints :: "nat \<Rightarrow> string \<Rightarrow> int list" where
  "scan_ints 0 s = []"
| "scan_ints (Suc n) s = (case scan_int s of None \<Rightarrow> [] | Some (v, s) \<Rightarrow> long_to_int v # scan_ints n s)"

section \<open>Options\<close>

datatype opt_kind = NoArg | ReqArg | OptArg

type_synonym optstring = "(char \<times> opt_kind) list"

text \<open>
  One argument \<open>-xyz\<close>: the options in it, with their arguments, and the remaining arguments. An
  unknown option or one without its argument is \<open>?\<close>.
\<close>

fun getopt_cluster :: "optstring \<Rightarrow> string \<Rightarrow> string list \<Rightarrow> (char \<times> string option) list \<times> string list" where
  "getopt_cluster os [] rest = ([], rest)"
| "getopt_cluster os (c # cs) rest =
     (case map_of os c of
        None \<Rightarrow> (let (opts, rest) = getopt_cluster os cs rest in ((CHR ''?'', None) # opts, rest))
      | Some NoArg \<Rightarrow> (let (opts, rest) = getopt_cluster os cs rest in ((c, None) # opts, rest))
      | Some OptArg \<Rightarrow> ([(c, if cs = [] then None else Some cs)], rest)
      | Some ReqArg \<Rightarrow>
          if cs \<noteq> [] then ([(c, Some cs)], rest)
          else (case rest of [] \<Rightarrow> ([(CHR ''?'', None)], []) | a # rest \<Rightarrow> ([(c, Some a)], rest)))"

lemma getopt_cluster_rest: "length (snd (getopt_cluster os cs rest)) \<le> length rest"
  by (induction os cs rest rule: getopt_cluster.induct)
    (auto simp: case_prod_beta split: option.splits opt_kind.splits list.splits)

text \<open>The sequence of results of \<open>getopt\<close> until it returns \<open>EOF\<close>. Arguments that are not options are passed over.\<close>

function getopt :: "optstring \<Rightarrow> string list \<Rightarrow> (char \<times> string option) list" where
  "getopt os [] = []"
| "getopt os (a # rest) =
     (if a = ''--'' then []
      else case a of
        c # d # cs \<Rightarrow>
          if c = CHR ''-'' then
            fst (getopt_cluster os (d # cs) rest) @ getopt os (snd (getopt_cluster os (d # cs) rest))
          else getopt os rest
      | _ \<Rightarrow> getopt os rest)"
  by pat_completeness auto

termination getopt
  by (relation "measure (\<lambda>(os, as). length as)") (auto simp: le_imp_less_Suc getopt_cluster_rest simp del: getopt_cluster.simps)

declare getopt.simps(2) [simp del]

section \<open>Lemmas: printed numbers are read back\<close>

lemma digit_char: "d < 10 \<Longrightarrow> (of_char (char_of (48 + d :: nat)) :: nat) = 48 + d"
  by (simp add: take_bit_nat_eq_self)

lemma digits_value_snoc: "digits_value (s @ [c]) = 10 * digits_value s + (of_char c - 48)"
  by (simp add: digits_value_def)

lemma show_nat_digits: "list_all is_digit (show_nat n) \<and> show_nat n \<noteq> [] \<and> digits_value (show_nat n) = n"
proof (induction n rule: show_nat.induct)
  case (1 n)
  show ?case
  proof (cases "n < 10")
    case True
    then show ?thesis by (subst show_nat.simps, subst show_nat.simps, subst show_nat.simps)
        (simp add: is_digit_def digits_value_def digit_char del: of_char_of)
  next
    case False
    then have s: "show_nat n = show_nat (n div 10) @ [char_of (48 + n mod 10)]" by simp
    show ?thesis unfolding s using 1 [OF False]
      by (simp add: is_digit_def digits_value_snoc digit_char del: of_char_of show_nat.simps)
  qed
qed

lemma scan_digits:
  assumes "list_all is_digit ds" and "ds \<noteq> []" and "rest = [] \<or> \<not> is_digit (hd rest)"
  shows "scan_int (ds @ rest) = Some (int (digits_value ds), rest)" "scan_int (CHR ''-'' # ds @ rest) = Some (- int (digits_value ds), rest)"
proof -
  obtain d ds' where d: "ds = d # ds'" "is_digit d" using assms(1,2) by (cases ds) auto
  then have sp: "\<not> is_space d" "d \<noteq> CHR ''-''" "d \<noteq> CHR ''+''" by (auto simp: is_digit_def is_space_def)
  have all: "\<forall>x \<in> set ds. is_digit x" using assms(1) by (simp add: list_all_iff)
  have "takeWhile is_digit rest = []" "dropWhile is_digit rest = rest" using assms(3) by (cases rest; auto)+
  then have tw: "takeWhile is_digit (ds @ rest) = ds" "dropWhile is_digit (ds @ rest) = rest"
    using all by (simp_all add: takeWhile_append2 dropWhile_append2)
  have "\<not> is_space (CHR ''-'')" by (simp add: is_space_def)
  then show "scan_int (ds @ rest) = Some (int (digits_value ds), rest)" "scan_int (CHR ''-'' # ds @ rest) = Some (- int (digits_value ds), rest)"
    using tw sp assms(2) by (simp_all add: scan_int_def d(1))
qed

lemma scan_show_int:
  assumes "rest = [] \<or> \<not> is_digit (hd rest)"
  shows "scan_int (show_int x @ rest) = Some (x, rest)"
  using scan_digits [OF _ _ assms, of "show_nat (nat \<bar>x\<bar>)"] show_nat_digits [of "nat \<bar>x\<bar>"]
  by (cases "x < 0") (simp_all add: show_int_def del: show_nat.simps)

lemma scan_int_space: "is_space c \<Longrightarrow> scan_int (c # s) = scan_int s"
  by (simp add: scan_int_def)

lemma long_to_int_id: "- (2 ^ 31) \<le> v \<Longrightarrow> v < 2 ^ 31 \<Longrightarrow> long_to_int v = v"
  by (simp add: long_to_int_def to_int_def signed_of_int signed_take_bit_int_eq_self)

lemma atoi_show_int: "- (2 ^ 31) \<le> v \<Longrightarrow> v < 2 ^ 31 \<Longrightarrow> atoi (show_int v) = v"
  using scan_show_int [of "[]" v] by (simp add: atoi_def long_to_int_id)

lemma atoi_range: "- (2 ^ 31) \<le> atoi s \<and> atoi s < 2 ^ 31"
  using sint_range_size [of "of_int x :: 32 word" for x]
  by (auto simp: atoi_def long_to_int_def to_int_def word_size split: option.splits)

lemma show_int_not_Nil: "show_int v \<noteq> []"
  using show_nat_digits by (simp add: show_int_def del: show_nat.simps)

text \<open>A printed number has no zero byte in it.\<close>

lemma show_int_no_zero: "0 \<notin> set (bytes_of (show_int v))"
proof -
  have "(of_char c :: byte) \<noteq> 0" if "c \<in> set (show_nat n)" for c n
  proof -
    have "is_digit c" using that show_nat_digits [of n] by (auto simp: list_all_iff)
    then have "unat (of_nat (of_char c) :: byte) = of_char c" "(of_char c :: nat) \<noteq> 0" by (auto simp: is_digit_def unat_of_nat)
    then have "(of_nat (of_char c) :: byte) \<noteq> 0" by (metis unat_0)
    then show ?thesis unfolding of_nat_of_char .
  qed
  then show ?thesis by (auto simp: bytes_of_def show_int_def simp del: show_nat.simps split: if_splits)
qed

end
