(* ===== verification/Mperf_Messages.thy ===== *)
theory Mperf_Messages
  imports Stream_Io Time_Base
begin

text \<open>
  \<open>3rd/mperf/src/util.c\<close> and \<open>util.h\<close>: messages between the programs of mperf. A message on a
  connection is its length, an \<open>int\<close> in host order, and its bytes; within one machine the controller
  leaves it in a shared block. Timeouts are signals: an alarm that goes off interrupts the call that
  waits, the event \<open>Fail EINTR\<close>. What the functions log is not a part of the state.
\<close>

section \<open>Constants\<close>

definition PACKET_LEN :: int where "PACKET_LEN = 131072"
definition SHARED_BLOCK_LEN :: nat where "SHARED_BLOCK_LEN = 4096"

definition SIG_TERM :: int where "SIG_TERM = 0"
definition SIG_CONF :: int where "SIG_CONF = 1"

definition RET_SUCC :: int where "RET_SUCC = 0"
definition RET_EMSG :: int where "RET_EMSG = 1"
definition RET_EKILL :: int where "RET_EKILL = 2"
definition RET_EREAD :: int where "RET_EREAD = 3"
definition RET_EWRITE :: int where "RET_EWRITE = 4"
definition RET_EPROC :: int where "RET_EPROC = 5"

lemmas ret_defs = RET_SUCC_def RET_EMSG_def RET_EKILL_def RET_EREAD_def RET_EWRITE_def RET_EPROC_def

definition retstr :: "int \<Rightarrow> string" where
  "retstr ret =
     (if ret = RET_SUCC then ''Success(RET_SUCC, '' @ show_int RET_SUCC @ '')''
      else if ret = RET_EMSG then ''Unrecognized control message(RET_EMSG, '' @ show_int RET_EMSG @ '')''
      else if ret = RET_EKILL then ''Controller failed to send signal(RET_EKILL, '' @ show_int RET_EKILL @ '')''
      else if ret = RET_EREAD then ''Failed to read message(RET_EREAD, '' @ show_int RET_EREAD @ '')''
      else if ret = RET_EWRITE then ''Failed to write message(RET_EWRITE, '' @ show_int RET_EWRITE @ '')''
      else if ret = RET_EPROC then ''Server not running(RET_EPROC, '' @ show_int RET_EPROC @ '')''
      else ''Value not defined('' @ show_int ret @ '')'')"

section \<open>Messages in shared memory\<close>

text \<open>\<open>strlen\<close>: a string without a terminating zero inside its block is read past the end.\<close>

fun c_strlen :: "byte list \<Rightarrow> nat res" where
  "c_strlen [] = Inl OutOfBounds"
| "c_strlen (b # bs) = (if b = 0 then Inr 0 else rbind (c_strlen bs) (\<lambda>n. Inr (Suc n)))"

text \<open>An \<open>int\<close> in memory, and its conversion to \<open>size_t\<close>.\<close>

definition int_bytes :: "int \<Rightarrow> byte list" where
  "int_bytes x = host_bytes32 (of_int x)"

definition bytes_int :: "byte list \<Rightarrow> int" where
  "bytes_int bs = sint (host_word32 bs)"

definition setMessage :: "byte list \<Rightarrow> byte list \<Rightarrow> byte list res" where
  "setMessage message smem =
     rbind (c_strlen message) (\<lambda>l.
     let len = to_int (int l + 1) in
     rbind (mem_write smem 0 (int_bytes len)) (\<lambda>smem.
     rbind (mem_read message 0 (of_int len)) (\<lambda>bs.
     mem_write smem 4 bs)))"

definition getMessage :: "byte list \<Rightarrow> byte list \<Rightarrow> (byte list \<times> int) res" where
  "getMessage dest smem =
     rbind (mem_read smem 0 4) (\<lambda>l.
     let len = bytes_int l in
     rbind (mem_read smem 4 (of_int len)) (\<lambda>bs.
     rbind (mem_write dest 0 bs) (\<lambda>dest. Inr (dest, 0))))"

section \<open>Messages on a connection\<close>

text \<open>The static buffer \<open>buf\<close> of \<open>rSendMessage\<close> is passed along.\<close>

definition rSendMessage :: "byte list \<Rightarrow> int \<Rightarrow> byte list \<Rightarrow> conn \<Rightarrow> (conn \<times> byte list \<times> int) io" where
  "rSendMessage message len buf c =
     iobind (iolift (rbind (mem_write buf 0 (int_bytes len)) (\<lambda>buf.
       rbind (mem_read message 0 (of_int len)) (\<lambda>bs. mem_write buf 4 bs)))) (\<lambda>buf.
     iobind (rio_writenr buf (of_int len + 4) c) (\<lambda>(c, r).
     ioreturn (c, buf, if r < to_int (len + 4) then RET_EWRITE else RET_SUCC)))"

text \<open>The static variable \<open>msglen\<close> of \<open>rReceiveMessage\<close>, as its four bytes, is passed along.\<close>

definition rReceiveMessage :: "byte list \<Rightarrow> byte list \<Rightarrow> conn \<Rightarrow> (conn \<times> byte list \<times> byte list \<times> int) io" where
  "rReceiveMessage buf msglen c =
     iobind (rio_readnr msglen 4 c) (\<lambda>(c, msglen, r).
     if r < 4 then ioreturn (c, buf, msglen, RET_EREAD)
     else
       iobind (rio_readnr buf (of_int (bytes_int msglen)) c) (\<lambda>(c, buf, r).
       ioreturn (c, buf, msglen, if r < bytes_int msglen then RET_EREAD else RET_SUCC)))"

definition rSendBytes :: "byte list \<Rightarrow> int \<Rightarrow> conn \<Rightarrow> (conn \<times> int) io" where
  "rSendBytes buf len c =
     iobind (rio_writenr buf (of_int len) c) (\<lambda>(c, r).
     ioreturn (c, if r < len then RET_EWRITE else RET_SUCC))"

definition rRecvBytes :: "byte list \<Rightarrow> int \<Rightarrow> conn \<Rightarrow> (conn \<times> byte list \<times> int) io" where
  "rRecvBytes buf len c =
     iobind (rio_readnr buf (of_int len) c) (\<lambda>(c, buf, r).
     ioreturn (c, buf, if r < len then RET_EWRITE else RET_SUCC))"

section \<open>Lemmas\<close>

lemma length_int_bytes [simp]: "length (int_bytes x) = 4"
  by (simp add: int_bytes_def)

lemma bytes_int_bytes: "- (2 ^ 31) \<le> x \<Longrightarrow> x < 2 ^ 31 \<Longrightarrow> bytes_int (int_bytes x) = x"
  by (simp add: bytes_int_def int_bytes_def signed_of_int signed_take_bit_int_eq_self)

lemma rio_readnr_ok:
  assumes "steady n (cn_events c)" and "n \<le> length (cn_in c)" and "n \<le> length buf" and "n < 2 ^ 31"
  shows "\<exists>m \<le> n. rio_readnr buf (of_nat n) c =
    ioreturn (c\<lparr>cn_in := drop n (cn_in c), cn_events := drop m (cn_events c)\<rparr>, take n (cn_in c) @ drop n buf, int n)"
proof -
  have u: "unat (of_nat n :: size_t) = n" using assms(4) by (simp add: unat_of_nat)
  moreover have "sint (of_nat n :: size_t) = int n" using u assms(4) sint_small [of "of_nat n"] by simp
  ultimately show ?thesis
    using rio_readnr.steady_reads [of "of_nat n" c 0 buf "of_nat n"] assms by (simp add: rio_readnr_def)
qed

lemma rio_writenr_ok:
  assumes "steady n (cn_events c)" and "n \<le> length buf" and "n < 2 ^ 31"
  shows "\<exists>m \<le> n. rio_writenr buf (of_nat n) c =
    ioreturn (c\<lparr>cn_out := cn_out c @ take n buf, cn_events := drop m (cn_events c)\<rparr>, int n)"
proof -
  have u: "unat (of_nat n :: size_t) = n" using assms(3) by (simp add: unat_of_nat)
  moreover have "sint (of_nat n :: size_t) = int n" using u assms(3) sint_small [of "of_nat n"] by simp
  ultimately show ?thesis
    using rio_writenr.steady_writes [of "of_nat n" c 0 buf "of_nat n"] assms by (simp add: rio_writenr_def)
qed

lemma rSendMessage_ok:
  assumes "n \<le> length message" and "length buf = 2048" and "n \<le> 2044" and "steady (n + 4) (cn_events c)"
  shows "\<exists>m \<le> n + 4. rSendMessage message (int n) buf c =
    ioreturn (c\<lparr>cn_out := cn_out c @ int_bytes (int n) @ take n message, cn_events := drop m (cn_events c)\<rparr>,
      int_bytes (int n) @ take n message @ drop (n + 4) buf, RET_SUCC)"
proof -
  let ?buf = "int_bytes (int n) @ take n message @ drop (n + 4) buf"
  have u: "unat (of_nat n :: size_t) = n" using assms(3) by (simp add: unat_of_nat)
  have "rbind (mem_write buf 0 (int_bytes (int n))) (\<lambda>buf.
      rbind (mem_read message 0 (of_int (int n))) (\<lambda>bs. mem_write buf 4 bs)) = Inr ?buf"
    using assms(1-3) u mem_write_ok [of 4 "take n message" "int_bytes (int n) @ drop 4 buf"]
    by (simp add: mem_write_ok mem_read_ok)
  moreover have "(of_int (int n) + 4 :: size_t) = of_nat (n + 4)" by simp
  moreover obtain m where "m \<le> n + 4" "rio_writenr ?buf (of_nat (n + 4)) c =
      ioreturn (c\<lparr>cn_out := cn_out c @ take (n + 4) ?buf, cn_events := drop m (cn_events c)\<rparr>, int (n + 4))"
    using rio_writenr_ok [of "n + 4" c ?buf] assms by auto
  moreover have "take (n + 4) ?buf = int_bytes (int n) @ take n message" using assms(1) by simp
  moreover have "to_int (int n + 4) = int n + 4" using assms(3) by (intro to_int_small) simp_all
  ultimately show ?thesis by (auto simp: rSendMessage_def)
qed

lemma rReceiveMessage_ok:
  assumes "cn_in d = int_bytes (int (length bs)) @ bs @ rest" and "length msglen = 4" and "length bs \<le> length buf"
    and "length bs < 2 ^ 30" and "steady (length bs + 4) (cn_events d)"
  shows "\<exists>m \<le> length bs + 4. rReceiveMessage buf msglen d =
    ioreturn (d\<lparr>cn_in := rest, cn_events := drop m (cn_events d)\<rparr>, bs @ drop (length bs) buf, int_bytes (int (length bs)), RET_SUCC)"
proof -
  let ?n = "length bs"
  have st: "steady 4 (cn_events d)" using assms(5) by (rule steady_mono) simp
  obtain m1 where m1: "m1 \<le> 4" "rio_readnr msglen 4 d =
      ioreturn (d\<lparr>cn_in := bs @ rest, cn_events := drop m1 (cn_events d)\<rparr>, int_bytes (int ?n), 4)"
    using rio_readnr_ok [OF st, of msglen] assms(1,2) by auto
  let ?d = "d\<lparr>cn_in := bs @ rest, cn_events := drop m1 (cn_events d)\<rparr>"
  have "steady ?n (cn_events ?d)" using steady_drop [of 4 ?n "cn_events d" m1] assms(5) m1(1) by (simp add: add.commute)
  from rio_readnr_ok [OF this, of buf] assms(3,4) obtain m2 where m2: "m2 \<le> ?n" "rio_readnr buf (of_nat ?n) ?d =
      ioreturn (d\<lparr>cn_in := rest, cn_events := drop (m1 + m2) (cn_events d)\<rparr>, bs @ drop ?n buf, int ?n)"
    by (auto simp: add.commute)
  have "bytes_int (int_bytes (int ?n)) = int ?n" using assms(4) by (intro bytes_int_bytes) simp_all
  then have "rReceiveMessage buf msglen d = ioreturn (d\<lparr>cn_in := rest, cn_events := drop (m1 + m2) (cn_events d)\<rparr>,
      bs @ drop ?n buf, int_bytes (int ?n), RET_SUCC)"
    using m1(2) m2(2) by (simp add: rReceiveMessage_def)
  then show ?thesis using m1(1) m2(1) by (intro exI [of _ "m1 + m2"]) simp
qed

text \<open>Strings in memory.\<close>

lemma c_strlen_append: "0 \<notin> set s \<Longrightarrow> c_strlen (s @ 0 # junk) = Inr (length s)"
  by (induction s) auto

lemma setMessage_ok:
  assumes "message = s @ 0 # junk" and "0 \<notin> set s" and "length s + 5 \<le> length smem" and "length s < 2 ^ 30"
  shows "setMessage message smem = Inr (int_bytes (int (length s) + 1) @ s @ 0 # drop (5 + length s) smem)"
proof -
  let ?len = "int (length s) + 1"
  have len: "to_int ?len = ?len" using assms(4) by (intro to_int_small) simp_all
  have u: "unat (of_nat (Suc (length s)) :: size_t) = Suc (length s)"
    using assms(4) by (simp add: unat_of_nat del: of_nat_Suc)
  have "mem_write smem 0 (int_bytes ?len) = Inr (int_bytes ?len @ drop 4 smem)"
    using assms(3) by (simp add: mem_write_ok)
  moreover have "mem_read message 0 (of_int ?len) = Inr (s @ [0])"
    using mem_read_ok [of 0 "of_nat (Suc (length s))" message] assms(1) u by (simp add: add.commute)
  moreover have "mem_write (int_bytes ?len @ drop 4 smem) 4 (s @ [0]) = Inr (int_bytes ?len @ s @ 0 # drop (5 + length s) smem)"
    using mem_write_ok [of 4 "s @ [0]" "int_bytes ?len @ drop 4 smem"] assms(3) by simp
  ultimately show ?thesis using assms(1,2) len by (simp add: setMessage_def c_strlen_append)
qed

lemma getMessage_ok:
  assumes "smem = int_bytes (int (length bs)) @ bs @ rest" and "length bs \<le> length dest" and "length bs < 2 ^ 31"
  shows "getMessage dest smem = Inr (bs @ drop (length bs) dest, 0)"
proof -
  have u: "unat (of_nat (length bs) :: size_t) = length bs" using assms(3) by (simp add: unat_of_nat)
  have "bytes_int (int_bytes (int (length bs))) = int (length bs)" using assms(3) by (intro bytes_int_bytes) simp_all
  moreover have "mem_read smem 0 4 = Inr (int_bytes (int (length bs)))" using assms(1) by (simp add: mem_read_ok)
  moreover have "mem_read smem 4 (of_nat (length bs)) = Inr bs"
    using mem_read_ok [of 4 "of_nat (length bs)" smem] assms(1) u by simp
  moreover have "mem_write dest 0 bs = Inr (bs @ drop (length bs) dest)" using assms(2) by (simp add: mem_write_ok)
  ultimately show ?thesis by (simp add: getMessage_def)
qed

section \<open>Properties\<close>

text \<open>
  C32: a message sent by \<open>rSendMessage\<close> is what \<open>rReceiveMessage\<close> on the other end stores, however the
  connection cuts it into pieces, as long as no call fails; the bytes behind it stay in the stream.
\<close>

theorem rMessage_roundtrip:
  assumes "n \<le> length message" and "n \<le> 2044" and "length sbuf = 2048" and "n \<le> length rbuf" and "length msglen = 4"
    and "steady (n + 4) (cn_events c)" and "steady (n + 4) (cn_events d)"
  shows "\<exists>c' sbuf' sent d'. rSendMessage message (int n) sbuf c = ioreturn (c', sbuf', RET_SUCC) \<and> cn_out c' = cn_out c @ sent \<and>
    rReceiveMessage rbuf msglen (d\<lparr>cn_in := sent @ rest\<rparr>) =
      ioreturn (d', take n message @ drop n rbuf, int_bytes (int n), RET_SUCC) \<and> cn_in d' = rest"
proof -
  obtain m where send: "rSendMessage message (int n) sbuf c =
      ioreturn (c\<lparr>cn_out := cn_out c @ int_bytes (int n) @ take n message, cn_events := drop m (cn_events c)\<rparr>,
        int_bytes (int n) @ take n message @ drop (n + 4) sbuf, RET_SUCC)"
    using rSendMessage_ok [OF assms(1,3,2,6)] by blast
  let ?d = "d\<lparr>cn_in := (int_bytes (int n) @ take n message) @ rest\<rparr>"
  have l: "length (take n message) = n" using assms(1) by simp
  obtain m' where "rReceiveMessage rbuf msglen ?d = ioreturn (?d\<lparr>cn_in := rest, cn_events := drop m' (cn_events ?d)\<rparr>,
      take n message @ drop n rbuf, int_bytes (int n), RET_SUCC)"
    using rReceiveMessage_ok [of ?d "take n message" rest msglen rbuf] assms(2,4,5,7) l by auto
  with send show ?thesis by fastforce
qed

theorem rMessage_roundtrip_witness:
  "\<exists>c' sbuf' sent d'. rSendMessage [72, 105, 0] 3 (replicate 2048 0) \<lparr>cn_in = [], cn_out = [], cn_events = replicate 9 (Chunk 2), cn_errno = 0\<rparr> =
      ioreturn (c', sbuf', RET_SUCC) \<and> cn_out c' = sent \<and>
    rReceiveMessage [9, 9, 9, 9] [0, 0, 0, 0] \<lparr>cn_in = sent @ [7], cn_out = [], cn_events = replicate 9 (Chunk 3), cn_errno = 0\<rparr> =
      ioreturn (d', [72, 105, 0, 9], int_bytes 3, RET_SUCC) \<and> cn_in d' = [7]"
proof -
  let ?c = "\<lambda>k. \<lparr>cn_in = [], cn_out = [], cn_events = replicate 9 (Chunk k), cn_errno = 0\<rparr>"
  have st: "steady 7 (cn_events (?c 2))" "steady 7 (cn_events (?c 3))" by (simp_all add: steady_def list_all_iff is_chunk_def)
  from rMessage_roundtrip [of 3 "[72, 105, 0]" "replicate 2048 0" "[9, 9, 9, 9]" "[0, 0, 0, 0]" "?c 2" "?c 3" "[7]"] st
  show ?thesis by simp
qed

text \<open>
  \<open>rReceiveMessage\<close> trusts the announced length: a peer that announces and sends more bytes than
  the buffer of the caller has makes it write past the end.
\<close>

theorem rReceiveMessage_overflows:
  assumes "length buf < n" and "n < 2 ^ 31" and "n \<le> length bs" and "cn_in d = int_bytes (int n) @ bs"
    and "cn_events d = Chunk k # Chunk l # es" and "4 \<le> k" and "n \<le> l" and "length msglen = 4"
  shows "rReceiveMessage buf msglen d = Some (Inl OutOfBounds)"
proof -
  have "sys_read 0 msglen 4 d = ioreturn (d\<lparr>cn_events := Chunk l # es, cn_in := bs\<rparr>, int_bytes (int n), 4)"
    using assms(4-6,8) by (simp add: sys_read_def mem_write_ok max_def)
  then have first: "rio_readnr msglen 4 d = ioreturn (d\<lparr>cn_events := Chunk l # es, cn_in := bs\<rparr>, int_bytes (int n), 4)"
    unfolding rio_readnr_def by (subst rio_readnr_loop.simps) (simp add: rio_readnr.stop)
  have u: "unat (of_nat n :: size_t) = n" "(of_nat n :: size_t) \<noteq> 0" using assms(1,2) by (auto simp: unat_of_nat word_of_nat_eq_0_iff)
  have "min n (max 1 l) = n" using assms(1,7) by simp
  then have "sys_read 0 buf (of_nat n) (d\<lparr>cn_events := Chunk l # es, cn_in := bs\<rparr>) = Some (Inl OutOfBounds)"
    using assms(1,3) u(1) by (simp add: sys_read_def mem_write_def)
  then have "rio_readnr buf (of_nat n) (d\<lparr>cn_events := Chunk l # es, cn_in := bs\<rparr>) = Some (Inl OutOfBounds)"
    unfolding rio_readnr_def using u(2) by (subst rio_readnr_loop.simps) simp
  moreover have "bytes_int (int_bytes (int n)) = int n" using assms(2) by (intro bytes_int_bytes) simp_all
  ultimately show ?thesis using first by (simp add: rReceiveMessage_def)
qed

theorem rReceiveMessage_overflows_witness:
  "rReceiveMessage (replicate 1024 0) [0, 0, 0, 0]
     \<lparr>cn_in = int_bytes 1500 @ replicate 1500 65, cn_out = [], cn_events = [Chunk 4, Chunk 1500], cn_errno = 0\<rparr> = Some (Inl OutOfBounds)"
  using rReceiveMessage_overflows [of "replicate 1024 0" 1500 "replicate 1500 65"] by simp

end
