(* ===== verification/Mperf_Transfer.thy ===== *)
theory Mperf_Transfer
  imports Mperf_Messages
begin

text \<open>
  \<open>3rd/mperf/src/sndrcv.c\<close>, \<open>include/sndrcv.h\<close> and the locks of \<open>include/lock.h\<close>: the transfers
  that mperf measures. A test ends when one of the locks \<open>sigint\<close> and \<open>sigalrm\<close> is released by a
  signal handler. Which signals arrive between two looks at the locks is a list of lists; after it no
  signal arrives. The times and the rate computed from them are not modelled, the byte counts and the
  messages that explain the end of a test are.
\<close>

section \<open>Locks and signals\<close>

type_synonym lock_t = int

definition release :: "lock_t \<Rightarrow> lock_t" where
  "release l = 0"

definition tryLock :: "lock_t \<Rightarrow> lock_t \<times> bool" where
  "tryLock l = (if l = 0 then (1, True) else (l, False))"

definition isLocked :: "lock_t \<Rightarrow> bool" where
  "isLocked l \<longleftrightarrow> l \<noteq> 0"

definition setLock :: "lock_t \<Rightarrow> lock_t" where
  "setLock l = 1"

datatype signal = SIGINT | SIGALRM

record test =
  ts_conn :: conn
  ts_sigint :: lock_t
  ts_sigalrm :: lock_t
  ts_signals :: "signal list list"

primrec handle :: "signal \<Rightarrow> test \<Rightarrow> test" where
  "handle SIGINT t = t\<lparr>ts_sigint := release (ts_sigint t)\<rparr>"
| "handle SIGALRM t = t\<lparr>ts_sigalrm := release (ts_sigalrm t)\<rparr>"

text \<open>The signals that arrived before the program looks at the locks again.\<close>

definition deliver :: "test \<Rightarrow> test" where
  "deliver t = (case ts_signals t of [] \<Rightarrow> t | ss # rest \<Rightarrow> fold handle ss (t\<lparr>ts_signals := rest\<rparr>))"

definition continueTest :: "test \<Rightarrow> bool" where
  "continueTest t \<longleftrightarrow> isLocked (ts_sigint t) \<and> isLocked (ts_sigalrm t)"

section \<open>Sending\<close>

text \<open>Why a test ended early, as it is logged.\<close>

datatype report = SendError int | TestTerminated | TestTimeout | UnexpectedInterrupt | ConnectionBroken int | ReadError int

lemma rio_writenr_loop_events:
  "rio_writenr_loop n nleft ptr buf c = ioreturn (c', r) \<Longrightarrow> length (cn_events c') \<le> length (cn_events c)"
proof (induction n nleft ptr buf c rule: rio_writenr_loop.induct)
  case (1 n nleft ptr buf c)
  show ?case
  proof (cases "nleft = 0")
    case True
    then show ?thesis using 1(2) by (simp add: rio_writenr.stop)
  next
    case False
    obtain c1 w where w: "sys_write buf ptr nleft c = ioreturn (c1, w)"
      using 1(2) False by (subst (asm) rio_writenr_loop.simps) (auto simp: iobind_eq_Inr)
    then have "length (cn_events c1) \<le> length (cn_events c)" using sys_write_events [OF w] by simp
    then show ?thesis using 1(1) [OF False w refl] 1(2) False w
      by (subst (asm) (2) rio_writenr_loop.simps) (auto split: if_splits)
  qed
qed

lemma rio_writenr_events:
  assumes "rio_writenr buf n c = ioreturn (c', r)" and "n \<noteq> 0"
  shows "length (cn_events c') < length (cn_events c)"
proof -
  obtain c1 w where w: "sys_write buf 0 n c = ioreturn (c1, w)"
    using assms unfolding rio_writenr_def by (subst (asm) rio_writenr_loop.simps) (auto simp: iobind_eq_Inr)
  have "length (cn_events c') \<le> length (cn_events c1)"
    using assms w rio_writenr_loop_events [of n "n - of_int w" "of_int w" buf c1 c' r] unfolding rio_writenr_def
    by (subst (asm) rio_writenr_loop.simps) (auto split: if_splits)
  then show ?thesis using sys_write_events [OF w] by simp
qed

lemma deliver_conn [simp]: "ts_conn (deliver t) = ts_conn t"
proof -
  have "ts_conn (fold handle ss u) = ts_conn u" for ss u
  proof (induction ss arbitrary: u)
    case (Cons x ss)
    then show ?case by (cases x) simp_all
  qed simp
  then show ?thesis by (simp add: deliver_def split: list.splits)
qed

text \<open>\<open>doLongTest\<close>: full packets until a signal or a short write. \<open>acc\<close> is \<open>sum\<close>, a \<open>long\<close>.\<close>

function long_loop :: "byte list \<Rightarrow> int \<Rightarrow> int \<Rightarrow> test \<Rightarrow> (test \<times> int \<times> int) io" where
  "long_loop packetBuf acc wrote t =
     (if \<not> continueTest (deliver t) then ioreturn (deliver t, acc, wrote)
      else iobind (rio_writenr packetBuf (of_int PACKET_LEN) (ts_conn (deliver t))) (\<lambda>(c, r).
        if to_int r < PACKET_LEN then ioreturn ((deliver t)\<lparr>ts_conn := c\<rparr>, acc, to_int r)
        else long_loop packetBuf (acc + to_int r) (to_int r) ((deliver t)\<lparr>ts_conn := c\<rparr>)))"
  by pat_completeness auto

termination long_loop
  by (relation "measure (\<lambda>(packetBuf, acc, wrote, t). length (cn_events (ts_conn t)))")
    (auto dest: rio_writenr_events simp: PACKET_LEN_def)

declare long_loop.simps [simp del]

definition doLongTest :: "byte list \<Rightarrow> test \<Rightarrow> (test \<times> report option \<times> int) io" where
  "doLongTest packetBuf t =
     iobind (long_loop packetBuf 0 0 t) (\<lambda>(t, acc, wrote).
     let t = deliver t;
         rep = (if wrote < PACKET_LEN then
                  if wrote < 0 then Some (SendError (cn_errno (ts_conn t)))
                  else if \<not> isLocked (ts_sigint t) then Some TestTerminated
                  else if isLocked (ts_sigalrm t) then Some UnexpectedInterrupt
                  else None
                else None)
     in ioreturn (t, rep, acc))"

text \<open>
  \<open>doFixTest\<close>. The loop body declares variables \<open>wrote\<close> and \<open>thislen\<close> of its own, so that the ones
  the function looks at after the loop are still 0.
\<close>

function fix_loop :: "byte list \<Rightarrow> int \<Rightarrow> test \<Rightarrow> (test \<times> int) io" where
  "fix_loop packetBuf len t =
     (if \<not> 0 < len then ioreturn (t, len)
      else if \<not> continueTest (deliver t) then ioreturn (deliver t, len)
      else let thislen = (if len > PACKET_LEN then PACKET_LEN else len) in
        iobind (rio_writenr packetBuf (of_int thislen) (ts_conn (deliver t))) (\<lambda>(c, r).
        if to_int r < thislen then ioreturn ((deliver t)\<lparr>ts_conn := c\<rparr>, len)
        else fix_loop packetBuf (len - to_int r) ((deliver t)\<lparr>ts_conn := c\<rparr>)))"
  by pat_completeness auto

lemma small_size:
  assumes "0 < x" and "x \<le> PACKET_LEN"
  shows "(of_int x :: size_t) \<noteq> 0" "unat (of_int x :: size_t) = nat x"
proof -
  have u: "uint (of_int x :: size_t) = x"
    using assms by (simp add: PACKET_LEN_def unsigned_of_int take_bit_int_eq_self)
  then show "(of_int x :: size_t) \<noteq> 0" using assms(1) by auto
  show "unat (of_int x :: size_t) = nat x" using u by (simp add: unat_eq_nat_uint)
qed

termination fix_loop
  by (relation "measure (\<lambda>(packetBuf, len, t). length (cn_events (ts_conn t)))")
    (auto dest!: rio_writenr_events simp: small_size(1) PACKET_LEN_def)

declare fix_loop.simps [simp del]

definition doFixTest :: "byte list \<Rightarrow> int \<Rightarrow> test \<Rightarrow> (test \<times> report option \<times> int) io" where
  "doFixTest packetBuf len t =
     (let targ = len; wrote = 0; thislen = (0 :: int) in
     iobind (fix_loop packetBuf len t) (\<lambda>(t, len).
     let t = deliver t;
         rep = (if wrote < thislen then
                  if wrote < 0 then Some (SendError (cn_errno (ts_conn t)))
                  else if \<not> isLocked (ts_sigint t) then Some TestTerminated
                  else if \<not> isLocked (ts_sigalrm t) then Some TestTimeout
                  else Some UnexpectedInterrupt
                else None);
         len = (if wrote < thislen then len - wrote else len)
     in ioreturn (t, rep, targ - len)))"

text \<open>
  \<open>doProbe\<close>, the same function compiled for the probing programs: packets of one byte, \<open>size\<close> of them
  to a probe. The result includes, for every packet sent, its probe and number and the sleep after it.
  The callers pass a \<open>size\<close> from 0 to 255.
\<close>

function probe_loop :: "int \<Rightarrow> int \<Rightarrow> int \<Rightarrow> byte list \<Rightarrow> int \<Rightarrow> int \<Rightarrow> int \<Rightarrow> (int \<times> int \<times> int) list \<Rightarrow> test \<Rightarrow>
    (test \<times> int \<times> (int \<times> int \<times> int) list) io" where
  "probe_loop sendInterval probeInterval sz packetBuf ind lc len sends t =
     (if \<not> 0 < len then ioreturn (t, len, sends)
      else if \<not> continueTest (deliver t) then ioreturn (deliver t, len, sends)
      else iobind (rio_writenr packetBuf 1 (ts_conn (deliver t))) (\<lambda>(c, r).
        if to_int r < 1 then ioreturn ((deliver t)\<lparr>ts_conn := c\<rparr>, len, sends)
        else let len = len - to_int r;
                 sleeplen = (if len mod sz \<noteq> 0 then sendInterval else probeInterval);
                 sends = sends @ [(lc, ind, sleeplen)];
                 (ind, lc) = (if ind + 1 = sz then (0, lc + 1) else (ind + 1, lc))
             in probe_loop sendInterval probeInterval sz packetBuf ind lc len sends ((deliver t)\<lparr>ts_conn := c\<rparr>)))"
  by pat_completeness auto

termination probe_loop
  by (relation "measure (\<lambda>(si, pi, sz, packetBuf, ind, lc, len, sends, t). length (cn_events (ts_conn t)))")
    (auto dest!: rio_writenr_events)

declare probe_loop.simps [simp del]

definition doProbe :: "int \<Rightarrow> int \<Rightarrow> int \<Rightarrow> int \<Rightarrow> byte list \<Rightarrow> test \<Rightarrow> (test \<times> int \<times> (int \<times> int \<times> int) list) io" where
  "doProbe sendInterval probeInterval sz loop packetBuf t =
     (let len = to_int (loop * sz);
          sendInterval = to_int (sendInterval * 1000);
          probeInterval = to_int (probeInterval * 1000);
          targ = len
      in iobind (probe_loop sendInterval probeInterval sz packetBuf 0 0 len [] t) (\<lambda>(t, len, sends).
         ioreturn (t, targ - len, sends)))"

section \<open>Receiving\<close>

text \<open>\<open>doReceive\<close>: \<open>EPIPE\<close> and \<open>ECONNRESET\<close> as on Linux.\<close>

definition EPIPE :: int where "EPIPE = 32"
definition ECONNRESET :: int where "ECONNRESET = 104"

lemma rio_readnr_loop_events:
  "rio_readnr_loop n nleft ptr buf c = ioreturn (c', buf', r) \<Longrightarrow> length (cn_events c') \<le> length (cn_events c)"
proof (induction n nleft ptr buf c rule: rio_readnr_loop.induct)
  case (1 n nleft ptr buf c)
  show ?case
  proof (cases "nleft = 0")
    case True
    then show ?thesis using 1(2) by (simp add: rio_readnr.stop)
  next
    case False
    obtain c1 buf1 w where w: "sys_read ptr buf nleft c = ioreturn (c1, buf1, w)"
      using 1(2) False by (subst (asm) rio_readnr_loop.simps) (auto simp: iobind_eq_Inr)
    then have "length (cn_events c1) \<le> length (cn_events c)" using sys_read_events [OF w] by simp
    then show ?thesis using 1(1) [OF False w refl refl] 1(2) False w
      by (subst (asm) (2) rio_readnr_loop.simps) (auto split: if_splits)
  qed
qed

lemma rio_readnr_events:
  assumes "rio_readnr buf n c = ioreturn (c', buf', r)" and "n \<noteq> 0"
  shows "length (cn_events c') < length (cn_events c)"
proof -
  obtain c1 buf1 w where w: "sys_read 0 buf n c = ioreturn (c1, buf1, w)"
    using assms unfolding rio_readnr_def by (subst (asm) rio_readnr_loop.simps) (auto simp: iobind_eq_Inr)
  have "length (cn_events c') \<le> length (cn_events c1)"
    using assms w rio_readnr_loop_events [of n "n - of_int w" "of_int w" buf1 c1 c' buf' r] unfolding rio_readnr_def
    by (subst (asm) rio_readnr_loop.simps) (auto split: if_splits)
  then show ?thesis using sys_read_events [OF w] by simp
qed

function receive_loop :: "byte list \<Rightarrow> int \<Rightarrow> test \<Rightarrow> (test \<times> byte list \<times> report option \<times> int) io" where
  "receive_loop recvBuf byteReceived t =
     iobind (rio_readnr recvBuf (of_int PACKET_LEN) ((ts_conn t)\<lparr>cn_errno := 0\<rparr>)) (\<lambda>(c, recvBuf, r).
     let ret = to_int r; u = deliver (t\<lparr>ts_conn := c\<rparr>) in
     if ret < PACKET_LEN then
       if ret < 0 then
         ioreturn (u, recvBuf, Some (if cn_errno c = EPIPE \<or> cn_errno c = ECONNRESET then ConnectionBroken (cn_errno c)
           else ReadError (cn_errno c)), byteReceived)
       else
         ioreturn (u, recvBuf,
           if cn_errno c = EINTR then
             Some (if \<not> isLocked (ts_sigint u) then TestTerminated
                   else if \<not> isLocked (ts_sigalrm u) then TestTimeout
                   else UnexpectedInterrupt)
           else None, byteReceived + ret)
     else if continueTest u then receive_loop recvBuf (byteReceived + ret) u
     else ioreturn (u, recvBuf, None, byteReceived + ret))"
  by pat_completeness auto

termination receive_loop
  by (relation "measure (\<lambda>(recvBuf, byteReceived, t). length (cn_events (ts_conn t)))")
    (auto dest!: rio_readnr_events simp: PACKET_LEN_def)

declare receive_loop.simps [simp del]

definition doReceive :: "byte list \<Rightarrow> test \<Rightarrow> (test \<times> byte list \<times> report option \<times> int) io" where
  "doReceive recvBuf t = receive_loop recvBuf 0 t"

section \<open>Lemmas\<close>

lemma PACKET_LEN_nat: "nat PACKET_LEN = 131072" "0 < PACKET_LEN"
  by (simp_all add: PACKET_LEN_def)

text \<open>One packet.\<close>

lemma packet_written:
  assumes "0 < x" and "x \<le> PACKET_LEN" and "nat PACKET_LEN \<le> length buf"
  shows "write_outcome 0 (nat x) buf c (rio_writenr buf (of_int x) c)"
  using rio_writenr_any [of 0 "of_int x" "of_int x" buf c] small_size(2) [OF assms(1,2)] assms
  by (simp add: rio_writenr_def PACKET_LEN_def)

lemma packet_read:
  assumes "nat PACKET_LEN \<le> length buf"
  shows "read_outcome True 0 (nat PACKET_LEN) buf c (rio_readnr buf (of_int PACKET_LEN) c)"
proof -
  have u: "unat (of_int PACKET_LEN :: size_t) = nat PACKET_LEN" by (simp add: small_size(2) PACKET_LEN_def)
  moreover have "sint (of_int PACKET_LEN :: size_t) = int (nat PACKET_LEN)"
    using u by (subst sint_small) (simp_all add: PACKET_LEN_def)
  ultimately show ?thesis
    using rio_readnr.any_reads [of 0 "of_int PACKET_LEN" buf "of_int PACKET_LEN" c] assms
    by (simp add: rio_readnr_def PACKET_LEN_def)
qed

lemma to_int_count:
  assumes "r = int k \<or> r = - 1" and "k < 2 ^ 31"
  shows "to_int r = r"
  using assms by (auto simp: to_int_small) (simp add: to_int_def)

text \<open>What is sent and what is left over, for every run of the loop of \<open>doFixTest\<close>.\<close>

definition fix_outcome :: "int \<Rightarrow> test \<Rightarrow> (test \<times> int) io \<Rightarrow> bool" where
  "fix_outcome len t res \<longleftrightarrow>
     (case res of
        None \<Rightarrow> int (chunks (cn_events (ts_conn t))) \<le> len
      | Some (Inl e) \<Rightarrow> False
      | Some (Inr (t', len')) \<Rightarrow>
          (\<exists>sent. cn_out (ts_conn t') = cn_out (ts_conn t) @ sent \<and> 0 \<le> len' \<and>
            len - len' \<le> int (length sent) \<and> int (length sent) \<le> len \<and> int (length sent) < len - len' + PACKET_LEN))"

lemma fix_outcome_step:
  assumes "fix_outcome (len - int k) (u\<lparr>ts_conn := c\<rparr>) res" and "write_result 0 k k buf (ts_conn u) c r" and "k \<le> length buf"
    and "ts_conn u = ts_conn t"
  shows "fix_outcome len t res"
proof -
  have len: "length (take k buf) = k" using assms(3) by simp
  have w: "cn_out c = cn_out (ts_conn t) @ take k buf" "chunks (cn_events (ts_conn t)) \<le> chunks (cn_events c) + k"
    using assms(2,4) by (auto simp: write_result_def)
  consider "res = None" | t' len' where "res = ioreturn (t', len')"
    using assms(1) by (auto simp: fix_outcome_def split: option.splits sum.splits)
  then show ?thesis
  proof cases
    case 1
    then show ?thesis using assms(1) w(2) by (simp add: fix_outcome_def)
  next
    case 2
    then obtain sent where "cn_out (ts_conn t') = cn_out c @ sent" "0 \<le> len'" "len - int k - len' \<le> int (length sent)"
        "int (length sent) \<le> len - int k" "int (length sent) < len - int k - len' + PACKET_LEN"
      using assms(1) by (auto simp: fix_outcome_def)
    then show ?thesis using 2 w(1) len by (auto simp: fix_outcome_def intro!: exI [of _ "take k buf @ sent"])
  qed
qed

lemma fix_loop_outcome:
  assumes "0 \<le> len" and "nat PACKET_LEN \<le> length packetBuf"
  shows "fix_outcome len t (fix_loop packetBuf len t)"
  using assms
proof (induction packetBuf len t rule: fix_loop.induct)
  case (1 packetBuf len t)
  let ?u = "deliver t" and ?x = "if len > PACKET_LEN then PACKET_LEN else len"
  show ?case
  proof (cases "0 < len \<and> continueTest ?u")
    case False
    then show ?thesis using 1(2) by (subst fix_loop.simps) (auto simp: fix_outcome_def PACKET_LEN_def)
  next
    case True
    then have x: "0 < ?x" "?x \<le> PACKET_LEN" by (simp_all add: PACKET_LEN_def)
    from packet_written [OF this 1(3), of "ts_conn t"] show ?thesis
    proof (cases rule: write_outcomeE)
      case b: 1
      then show ?thesis using True x by (subst fix_loop.simps) (auto simp: fix_outcome_def Let_def split: if_splits)
    next
      case (2 c r k)
      have k: "k \<le> nat ?x" "r = int k \<or> r = - 1 \<and> k < nat ?x" using 2(2) by (auto simp: write_result_def)
      have r: "to_int r = r" using k x(2) by (intro to_int_count [of _ k]) (auto simp: PACKET_LEN_def split: if_splits)
      have run: "fix_loop packetBuf len t = (if r < ?x then ioreturn (?u\<lparr>ts_conn := c\<rparr>, len)
          else fix_loop packetBuf (len - r) (?u\<lparr>ts_conn := c\<rparr>))"
        using True 2(1) r by (subst fix_loop.simps) (simp add: Let_def)
      show ?thesis
      proof (cases "r < ?x")
        case short: True
        have "k < nat ?x" using short k by linarith
        then have "length (take k packetBuf) = k" using x(2) 1(3) by (simp add: PACKET_LEN_def split: if_splits)
        then show ?thesis using run short 2(2) 1(2) \<open>k < nat ?x\<close>
          by (auto simp: fix_outcome_def write_result_def split: if_splits)
      next
        case False
        then have kx: "r = int k" "int k = ?x" using k x(1) by auto
        have "fix_outcome (len - int k) (?u\<lparr>ts_conn := c\<rparr>) (fix_loop packetBuf (len - int k) (?u\<lparr>ts_conn := c\<rparr>))"
          using 1(1) [of ?x "(c, r)" c r] 2(1) True False kx 1(3) r by (simp split: if_splits)
        moreover have "write_result 0 k k packetBuf (ts_conn ?u) c r" using 2(2) kx by (metis deliver_conn nat_int)
        ultimately show ?thesis using run False kx fix_outcome_step [of len k c ?u] x(2) 1(3) by (simp add: PACKET_LEN_def)
      qed
    qed
  qed
qed

text \<open>The same for the loop of \<open>doLongTest\<close>, which ends with a signal or a short write.\<close>

definition long_result :: "int \<Rightarrow> test \<Rightarrow> test \<Rightarrow> int \<Rightarrow> int \<Rightarrow> bool" where
  "long_result acc t t' acc' wrote \<longleftrightarrow>
     (\<exists>sent. cn_out (ts_conn t') = cn_out (ts_conn t) @ sent \<and> acc' - acc \<le> int (length sent) \<and>
       int (length sent) < acc' - acc + PACKET_LEN \<and> PACKET_LEN dvd acc' - acc) \<and> (wrote < PACKET_LEN \<or> \<not> continueTest t')"

lemma long_loop_outcome:
  assumes "nat PACKET_LEN \<le> length packetBuf" and "long_loop packetBuf acc wrote t = res"
  shows "res = None \<or> (\<exists>t' acc' wrote'. res = ioreturn (t', acc', wrote') \<and> long_result acc t t' acc' wrote')"
  using assms
proof (induction packetBuf acc wrote t arbitrary: res rule: long_loop.induct)
  case (1 packetBuf acc wrote t)
  let ?u = "deliver t"
  show ?case
  proof (cases "continueTest ?u")
    case False
    then show ?thesis using 1(3) by (subst (asm) long_loop.simps) (auto simp: long_result_def PACKET_LEN_def)
  next
    case True
    from packet_written [OF PACKET_LEN_nat(2) order_refl 1(2), of "ts_conn t"] show ?thesis
    proof (cases rule: write_outcomeE)
      case b: 1
      then show ?thesis using True 1(3) by (subst (asm) long_loop.simps) auto
    next
      case (2 c r k)
      have k: "k \<le> nat PACKET_LEN" "r = int k \<or> r = - 1 \<and> k < nat PACKET_LEN" "cn_out c = cn_out (ts_conn t) @ take k packetBuf"
        using 2(2) by (auto simp: write_result_def)
      have r: "to_int r = r" using k by (intro to_int_count [of _ k]) (auto simp: PACKET_LEN_def)
      have l: "length (take k packetBuf) = k" using k(1) 1(2) by simp
      have run: "res = (if r < PACKET_LEN then ioreturn (?u\<lparr>ts_conn := c\<rparr>, acc, r)
          else long_loop packetBuf (acc + r) r (?u\<lparr>ts_conn := c\<rparr>))"
        using True 2(1) r 1(3) by (subst (asm) long_loop.simps) (auto split: if_splits)
      show ?thesis
      proof (cases "r < PACKET_LEN")
        case short: True
        then have "int k < PACKET_LEN" using k(2) by auto
        then show ?thesis using run short k(3) l by (auto simp: long_result_def)
      next
        case False
        then have full: "r = int k" "int k = PACKET_LEN" using k by (auto simp: PACKET_LEN_def)
        then have "res = None \<or> (\<exists>t' acc' wrote'. res = ioreturn (t', acc', wrote') \<and>
            long_result (acc + r) (?u\<lparr>ts_conn := c\<rparr>) t' acc' wrote')"
          using 1(1) [of "(c, r)" c r res] 2(1) True False r run 1(2) by simp
        moreover have "long_result acc t t' acc' wrote'" if lr: "long_result (acc + r) (?u\<lparr>ts_conn := c\<rparr>) t' acc' wrote'" for t' acc' wrote'
        proof -
          obtain sent where sent: "cn_out (ts_conn t') = cn_out c @ sent" "acc' - (acc + r) \<le> int (length sent)"
              "int (length sent) < acc' - (acc + r) + PACKET_LEN" "PACKET_LEN dvd acc' - (acc + r)" "wrote' < PACKET_LEN \<or> \<not> continueTest t'"
            using lr by (auto simp: long_result_def)
          have "PACKET_LEN dvd acc' - acc" using sent(4) full dvd_add [of PACKET_LEN "acc' - (acc + r)" r] by simp
          then show ?thesis using sent k(3) l full unfolding long_result_def
            by (intro conjI exI [of _ "take k packetBuf @ sent"]) auto
        qed
        ultimately show ?thesis by blast
      qed
    qed
  qed
qed

text \<open>No call fails and no signal arrives.\<close>

definition quiet :: "test \<Rightarrow> bool" where
  "quiet t \<longleftrightarrow> ts_signals t = [] \<and> continueTest t \<and> (\<forall>e. Fail e \<notin> set (cn_events (ts_conn t)))"

lemma quiet_deliver: "quiet t \<Longrightarrow> deliver t = t"
  by (simp add: quiet_def deliver_def)

definition is_read_error :: "report option \<Rightarrow> bool" where
  "is_read_error rep \<longleftrightarrow> (case rep of Some (ConnectionBroken e) \<Rightarrow> True | Some (ReadError e) \<Rightarrow> True | _ \<Rightarrow> False)"

text \<open>What is read and what is counted, for every run of the loop of \<open>doReceive\<close>.\<close>

definition receive_result :: "int \<Rightarrow> test \<Rightarrow> test \<Rightarrow> report option \<Rightarrow> int \<Rightarrow> bool" where
  "receive_result n t t' rep n' \<longleftrightarrow>
     (\<exists>k \<le> length (cn_in (ts_conn t)). cn_in (ts_conn t') = drop k (cn_in (ts_conn t)) \<and>
       (n' = n + int k \<or> is_read_error rep \<and> n' \<le> n + int k \<and> n + int k \<le> n' + PACKET_LEN) \<and>
       (quiet t \<longrightarrow> rep = None \<and> n' = n + int (length (cn_in (ts_conn t)))))"

definition receive_outcome :: "int \<Rightarrow> test \<Rightarrow> (test \<times> byte list \<times> report option \<times> int) io \<Rightarrow> bool" where
  "receive_outcome n t res \<longleftrightarrow>
     (case res of
        None \<Rightarrow> chunks (cn_events (ts_conn t)) \<le> length (cn_in (ts_conn t))
      | Some (Inl e) \<Rightarrow> False
      | Some (Inr (t', buf, rep, n')) \<Rightarrow> receive_result n t t' rep n')"

lemma receive_outcome_step:
  assumes "receive_outcome (n + int k) u res" and "ts_conn u = c" and "cn_in c = drop k (cn_in (ts_conn t))"
    and "k \<le> length (cn_in (ts_conn t))" and "chunks (cn_events (ts_conn t)) \<le> chunks (cn_events c) + k"
    and "quiet t \<Longrightarrow> quiet u"
  shows "receive_outcome n t res"
proof -
  consider "res = None" | t' buf rep n' where "res = ioreturn (t', buf, rep, n')"
    using assms(1) by (auto simp: receive_outcome_def split: option.splits sum.splits)
  then show ?thesis
  proof cases
    case 1
    then show ?thesis using assms(1-5) by (simp add: receive_outcome_def)
  next
    case 2
    then obtain l where l: "l \<le> length (cn_in c)" "cn_in (ts_conn t') = drop l (cn_in c)"
        "n' = n + int k + int l \<or> is_read_error rep \<and> n' \<le> n + int k + int l \<and> n + int k + int l \<le> n' + PACKET_LEN"
        "quiet u \<longrightarrow> rep = None \<and> n' = n + int k + int (length (cn_in c))"
      using assms(1,2) by (auto simp: receive_outcome_def receive_result_def)
    then have "receive_result n t t' rep n'"
      using assms(3,4,6) unfolding receive_result_def by (intro exI [of _ "k + l"]) (auto simp: add.commute)
    then show ?thesis using 2 by (simp add: receive_outcome_def)
  qed
qed

lemma receive_loop_outcome:
  assumes "nat PACKET_LEN \<le> length recvBuf"
  shows "receive_outcome n t (receive_loop recvBuf n t)"
  using assms
proof (induction recvBuf n t rule: receive_loop.induct)
  case (1 recvBuf n t)
  let ?c = "(ts_conn t)\<lparr>cn_errno := 0\<rparr>"
  from packet_read [OF 1(2), of ?c] show ?case
  proof (cases rule: read_outcomeE)
    case 1
    then show ?thesis by (subst receive_loop.simps) (simp add: receive_outcome_def)
  next
    case (2 c r k)
    let ?buf = "take 0 recvBuf @ take k (cn_in ?c) @ drop (0 + k) recvBuf" and ?u = "deliver (t\<lparr>ts_conn := c\<rparr>)"
    have k: "k \<le> nat PACKET_LEN" "k \<le> length (cn_in (ts_conn t))" "cn_in c = drop k (cn_in (ts_conn t))"
        "set (cn_events c) \<subseteq> set (cn_events (ts_conn t))" "r = int k \<or> r = - 1"
        "quiet t \<Longrightarrow> r = int k \<and> (k = nat PACKET_LEN \<or> k = length (cn_in (ts_conn t))) \<and> cn_errno c = 0"
      using 2(2) by (auto simp: read_result_def quiet_def)
    have r: "to_int r = r" using k(1,5) by (intro to_int_count [of _ k]) (auto simp: PACKET_LEN_def)
    have quiet: "quiet t \<Longrightarrow> quiet ?u" using k(4) by (auto simp: quiet_def deliver_def continueTest_def)
    show ?thesis
    proof (cases "r < PACKET_LEN")
      case True
      then show ?thesis using 2(1) r k
        by (subst receive_loop.simps)
          (auto simp: Let_def receive_outcome_def receive_result_def is_read_error_def EINTR_def PACKET_LEN_def intro!: exI [of _ k])
    next
      case False
      then have full: "r = int k" "k = nat PACKET_LEN" using k(1,5) by (auto simp: PACKET_LEN_def)
      have "length ?buf = length recvBuf" using full 1(2) k(2) by simp
      then have IH: "receive_outcome (n + int k) ?u (receive_loop ?buf (n + int k) ?u)" if "continueTest ?u"
        using 1(1) [OF 2(1) refl refl refl refl] False that r full 1(2) by simp
      have ch: "chunks (cn_events (ts_conn t)) \<le> chunks (cn_events c) + k" using 2(2) full(2) by (simp add: read_result_def)
      have run: "receive_loop recvBuf n t =
          (if continueTest ?u then receive_loop ?buf (n + int k) ?u else ioreturn (?u, ?buf, None, n + int k))"
        using 2(1) r False full(1) by (subst receive_loop.simps) (simp add: Let_def)
      show ?thesis
      proof (cases "continueTest ?u")
        case True
        then show ?thesis using run receive_outcome_step [OF IH [OF True] _ k(3,2) ch quiet] by simp
      next
        case stop: False
        then show ?thesis using run k quiet by (auto simp: receive_outcome_def receive_result_def quiet_def)
      qed
    qed
  qed
qed

text \<open>Sending on a connection that takes everything.\<close>

lemma quiet_conn: "quiet t \<Longrightarrow> cn_events c = drop m (cn_events (ts_conn t)) \<Longrightarrow> quiet (t\<lparr>ts_conn := c\<rparr>)"
  by (auto simp: quiet_def continueTest_def dest: in_set_dropD)

lemma fix_loop_quiet:
  assumes "0 \<le> len" and "nat PACKET_LEN \<le> length packetBuf" and "quiet t" and "steady (nat len) (cn_events (ts_conn t))"
  shows "\<exists>t' sent. fix_loop packetBuf len t = ioreturn (t', 0) \<and> cn_out (ts_conn t') = cn_out (ts_conn t) @ sent \<and>
    length sent = nat len \<and> quiet t'"
  using assms
proof (induction "nat len" arbitrary: len t rule: less_induct)
  case less
  let ?x = "if len > PACKET_LEN then PACKET_LEN else len"
  show ?case
  proof (cases "len = 0")
    case True
    then show ?thesis using less.prems(3) by (subst fix_loop.simps) simp
  next
    case False
    then have x: "0 < ?x" "?x \<le> PACKET_LEN" "?x \<le> len" using less.prems(1) by (simp_all add: PACKET_LEN_def)
    have "steady (nat ?x) (cn_events (ts_conn t))" using less.prems(4) by (rule steady_mono) (use x(3) in simp)
    moreover have "nat ?x \<le> length packetBuf" using x(2) less.prems(2) by linarith
    moreover have "nat ?x < 2 ^ 31" using x(2) by (simp add: PACKET_LEN_def split: if_splits)
    ultimately obtain m where m: "m \<le> nat ?x" "rio_writenr packetBuf (of_int ?x) (ts_conn t) =
        ioreturn ((ts_conn t)\<lparr>cn_out := cn_out (ts_conn t) @ take (nat ?x) packetBuf, cn_events := drop m (cn_events (ts_conn t))\<rparr>, ?x)"
      using rio_writenr_ok [of "nat ?x" "ts_conn t" packetBuf] x(1) by auto
    let ?t = "t\<lparr>ts_conn := (ts_conn t)\<lparr>cn_out := cn_out (ts_conn t) @ take (nat ?x) packetBuf, cn_events := drop m (cn_events (ts_conn t))\<rparr>\<rparr>"
    have "to_int ?x = ?x" using x by (intro to_int_small) (simp_all add: PACKET_LEN_def)
    then have run: "fix_loop packetBuf len t = fix_loop packetBuf (len - ?x) ?t"
      using False less.prems(1,3) m(2) quiet_deliver [OF less.prems(3)] by (subst fix_loop.simps) (simp add: quiet_def Let_def)
    have "quiet ?t" using less.prems(3) by (rule quiet_conn) simp
    moreover have "steady (nat (len - ?x)) (cn_events (ts_conn ?t))"
      using steady_drop [of "nat ?x" "nat (len - ?x)" _ m] m(1) less.prems(4) x by (simp add: nat_diff_distrib split: if_splits)
    ultimately obtain t' sent where IH: "fix_loop packetBuf (len - ?x) ?t = ioreturn (t', 0)" "quiet t'"
        "cn_out (ts_conn t') = cn_out (ts_conn ?t) @ sent" "length sent = nat (len - ?x)"
      using less.hyps [of "len - ?x" ?t] less.prems(2) x by auto
    have "length (take (nat ?x) packetBuf @ sent) = nat len" using IH(4) less.prems(2) x by (simp split: if_splits)
    then show ?thesis using run IH by (intro exI [of _ t'] exI [of _ "take (nat ?x) packetBuf @ sent"]) simp
  qed
qed

lemma probe_loop_step:
  assumes "0 < len" and "quiet t" and "rio_writenr packetBuf 1 (ts_conn t) = ioreturn (c, 1)"
  shows "probe_loop si pint sz packetBuf ind lc len sends t =
    probe_loop si pint sz packetBuf (if ind + 1 = sz then 0 else ind + 1) (if ind + 1 = sz then lc + 1 else lc) (len - 1)
      (sends @ [(lc, ind, if (len - 1) mod sz = 0 then pint else si)]) (t\<lparr>ts_conn := c\<rparr>)"
proof -
  have "to_int 1 = 1" by (simp add: to_int_def)
  then show ?thesis using assms quiet_deliver [OF assms(2)] by (subst probe_loop.simps) (simp add: quiet_def Let_def)
qed

lemma probe_loop_quiet:
  assumes "1 \<le> length packetBuf" and "0 < sz" and "p \<le> n" and "n mod sz = 0" and "n < 2 ^ 31"
    and "quiet t" and "steady (n - p) (cn_events (ts_conn t))"
  shows "\<exists>t' sent. probe_loop si pint (int sz) packetBuf (int (p mod sz)) (int (p div sz)) (int (n - p)) sends t =
      ioreturn (t', 0, sends @ map (\<lambda>q. (int (q div sz), int (q mod sz), if Suc q mod sz = 0 then pint else si)) [p..<n]) \<and>
    cn_out (ts_conn t') = cn_out (ts_conn t) @ sent \<and> length sent = n - p"
  using assms
proof (induction "n - p" arbitrary: p sends t)
  case 0
  then show ?case by (subst probe_loop.simps) simp
next
  case (Suc d)
  have p: "p < n" using Suc.hyps(2) by simp
  have "steady 1 (cn_events (ts_conn t))" using Suc.prems(7) by (rule steady_mono) (use p in simp)
  from rio_writenr_ok [OF this, of packetBuf] Suc.prems(1) obtain m where m: "m \<le> 1" "rio_writenr packetBuf 1 (ts_conn t) =
      ioreturn ((ts_conn t)\<lparr>cn_out := cn_out (ts_conn t) @ take 1 packetBuf, cn_events := drop m (cn_events (ts_conn t))\<rparr>, 1)"
    by auto
  let ?t = "t\<lparr>ts_conn := (ts_conn t)\<lparr>cn_out := cn_out (ts_conn t) @ take 1 packetBuf, cn_events := drop m (cn_events (ts_conn t))\<rparr>\<rparr>"
  have left: "int (n - p) - 1 = int (n - Suc p)" using p by simp
  have sleep: "int (n - Suc p) mod int sz = 0 \<longleftrightarrow> Suc p mod sz = 0"
  proof -
    have "sz dvd n" using Suc.prems(4) by auto
    then have "sz dvd n - Suc p \<longleftrightarrow> sz dvd Suc p" using p by (metis Suc_leI dvd_diff_nat dvd_diffD1)
    then show ?thesis by (simp add: dvd_eq_mod_eq_0 flip: zmod_int)
  qed
  have "int (p mod sz) + 1 = int sz \<longleftrightarrow> Suc (p mod sz) = sz" by linarith
  then have pos: "(if int (p mod sz) + 1 = int sz then 0 else int (p mod sz) + 1) = int (Suc p mod sz)"
      "(if int (p mod sz) + 1 = int sz then int (p div sz) + 1 else int (p div sz)) = int (Suc p div sz)"
    using Suc.prems(2) by (simp_all add: mod_Suc div_Suc)
  have "0 < int (n - p)" using p by simp
  from probe_loop_step [OF this Suc.prems(6) m(2), of si pint "int sz" "int (p mod sz)" "int (p div sz)" sends]
  have run: "probe_loop si pint (int sz) packetBuf (int (p mod sz)) (int (p div sz)) (int (n - p)) sends t =
      probe_loop si pint (int sz) packetBuf (int (Suc p mod sz)) (int (Suc p div sz)) (int (n - Suc p))
        (sends @ [(int (p div sz), int (p mod sz), if Suc p mod sz = 0 then pint else si)]) ?t"
    unfolding pos left sleep .
  let ?e = "\<lambda>q. (int (q div sz), int (q mod sz), if Suc q mod sz = 0 then pint else si)"
  have "quiet ?t" using Suc.prems(6) by (rule quiet_conn) simp
  moreover have "steady (n - Suc p) (cn_events (ts_conn ?t))"
    using steady_drop [of 1 "n - Suc p" _ m] m(1) Suc.prems(7) p by (simp add: Suc_diff_Suc)
  moreover have "d = n - Suc p" "Suc p \<le> n" using Suc.hyps(2) by simp_all
  ultimately obtain t' sent where "probe_loop si pint (int sz) packetBuf (int (Suc p mod sz)) (int (Suc p div sz)) (int (n - Suc p))
        (sends @ [?e p]) ?t = ioreturn (t', 0, (sends @ [?e p]) @ map ?e [Suc p..<n])"
      "cn_out (ts_conn t') = cn_out (ts_conn ?t) @ sent" "length sent = n - Suc p"
    using Suc.hyps(1) [of "Suc p" ?t "sends @ [?e p]"] Suc.prems(1,2,4,5) by blast
  then show ?case unfolding run using p Suc.prems(1) Suc.hyps(2)
    by (intro exI [of _ t'] exI [of _ "take 1 packetBuf @ sent"]) (simp add: upt_conv_Cons)
qed

section \<open>Properties\<close>

text \<open>
  \<open>doFixTest\<close>, whatever the connection and the signals do: it never reads outside its buffer, it
  blocks only while the peer takes nothing, and the bytes it reports were sent. But it may have sent more
  than it reports, by less than one packet, and it never says why it ended: the variables that it looks
  at are not the ones that the loop has set.
\<close>

theorem doFixTest_accounting:
  assumes "0 \<le> len" and "nat PACKET_LEN \<le> length packetBuf"
  shows "case doFixTest packetBuf len t of
      None \<Rightarrow> int (chunks (cn_events (ts_conn t))) \<le> len
    | Some (Inl e) \<Rightarrow> False
    | Some (Inr (t', rep, n)) \<Rightarrow> rep = None \<and>
        (\<exists>sent. cn_out (ts_conn t') = cn_out (ts_conn t) @ sent \<and> n \<le> int (length sent) \<and> int (length sent) \<le> len \<and>
          int (length sent) < n + PACKET_LEN)"
proof -
  from fix_loop_outcome [OF assms, of t]
  show ?thesis by (auto simp: doFixTest_def fix_outcome_def split: option.splits sum.splits)
qed

theorem doFixTest_accounting_witness:
  "\<exists>t'. doFixTest (replicate 131072 16) 10 \<lparr>ts_conn = \<lparr>cn_in = [], cn_out = [], cn_events = [Chunk 5, Fail EINTR], cn_errno = 0\<rparr>,
      ts_sigint = 1, ts_sigalrm = 1, ts_signals = [[], [SIGINT]]\<rparr> = ioreturn (t', None, 0) \<and> cn_out (ts_conn t') = replicate 5 16"
proof -
  let ?t = "\<lparr>ts_conn = \<lparr>cn_in = [], cn_out = [], cn_events = [Chunk 5, Fail EINTR], cn_errno = 0\<rparr>,
      ts_sigint = 1, ts_sigalrm = 1, ts_signals = [[], [SIGINT]]\<rparr>"
  have "rio_writenr (replicate 131072 16) 10 (ts_conn ?t) =
      ioreturn (\<lparr>cn_in = [], cn_out = replicate 5 16, cn_events = [], cn_errno = EINTR\<rparr>, 5)"
    by (simp add: rio_writenr_def rio_writenr_loop.simps sys_write_def mem_read_def EINTR_def)
  then have "\<exists>t'. doFixTest (replicate 131072 16) 10 ?t = ioreturn (t', None, 0) \<and> cn_out (ts_conn t') = replicate 5 16"
    by (simp add: doFixTest_def fix_loop.simps deliver_def continueTest_def isLocked_def PACKET_LEN_def to_int_def)
  with doFixTest_accounting [of 10 "replicate 131072 16" ?t] show ?thesis by (simp add: PACKET_LEN_def)
qed

text \<open>
  C31: \<open>doReceive\<close>, whatever the connection and the signals do: it never writes outside its buffer, it
  blocks only while the peer is silent, and it counts exactly the bytes it takes from the stream. After
  a read error, which it logs, the count misses what was read of the last packet.
\<close>

theorem doReceive_counts:
  assumes "nat PACKET_LEN \<le> length recvBuf"
  shows "case doReceive recvBuf t of
      None \<Rightarrow> chunks (cn_events (ts_conn t)) \<le> length (cn_in (ts_conn t))
    | Some (Inl e) \<Rightarrow> False
    | Some (Inr (t', buf, rep, n)) \<Rightarrow>
        (\<exists>k \<le> length (cn_in (ts_conn t)). cn_in (ts_conn t') = drop k (cn_in (ts_conn t)) \<and>
          (n = int k \<or> is_read_error rep \<and> n \<le> int k \<and> int k \<le> n + PACKET_LEN))"
proof -
  from receive_loop_outcome [OF assms, of 0 t]
  show ?thesis by (auto simp: doReceive_def receive_outcome_def receive_result_def split: option.splits sum.splits)
qed

theorem doReceive_counts_witness:
  "\<exists>t' buf rep. doReceive (replicate 131072 0) \<lparr>ts_conn = \<lparr>cn_in = replicate 9 7, cn_out = [], cn_events = [Chunk 4, Fail ECONNRESET], cn_errno = 0\<rparr>,
      ts_sigint = 1, ts_sigalrm = 1, ts_signals = []\<rparr> = ioreturn (t', buf, rep, 0) \<and> rep = Some (ConnectionBroken ECONNRESET) \<and>
      cn_in (ts_conn t') = replicate 5 7"
proof -
  let ?t = "\<lparr>ts_conn = \<lparr>cn_in = replicate 9 7, cn_out = [], cn_events = [Chunk 4, Fail ECONNRESET], cn_errno = 0\<rparr>,
      ts_sigint = 1, ts_sigalrm = 1, ts_signals = []\<rparr>"
  have "rio_readnr (replicate 131072 0) 131072 (ts_conn ?t) =
      ioreturn (\<lparr>cn_in = replicate 5 7, cn_out = [], cn_events = [], cn_errno = ECONNRESET\<rparr>, replicate 4 7 @ replicate 131068 0, - 1)"
    by (simp add: rio_readnr_def rio_readnr_loop.simps sys_read_def mem_write_def EINTR_def ECONNRESET_def Let_def)
  then have "\<exists>t' buf rep. doReceive (replicate 131072 0) ?t = ioreturn (t', buf, rep, 0) \<and> rep = Some (ConnectionBroken ECONNRESET) \<and>
      cn_in (ts_conn t') = replicate 5 7"
    by (simp add: doReceive_def receive_loop.simps deliver_def PACKET_LEN_def to_int_def Let_def)
  with doReceive_counts [of "replicate 131072 0" ?t] show ?thesis by (simp add: PACKET_LEN_def)
qed



text \<open>
  on a connection that takes everything \<open>doProbe\<close> sends \<open>loop\<close> probes of \<open>size\<close> packets of one byte.
  After every packet it sleeps the sending interval, and after the last packet of a probe the probing
  interval, both given in milliseconds.
\<close>

theorem doProbe_schedule:
  assumes "0 < sz" and "sz * loop < 2 ^ 31" and "1 \<le> length packetBuf" and "quiet t" and "steady (sz * loop) (cn_events (ts_conn t))"
    and "0 \<le> si" and "si * 1000 < 2 ^ 31" and "0 \<le> pint" and "pint * 1000 < 2 ^ 31"
  shows "\<exists>t' sent. doProbe si pint (int sz) (int loop) packetBuf t = ioreturn (t', int (sz * loop),
      map (\<lambda>q. (int (q div sz), int (q mod sz), if Suc q mod sz = 0 then pint * 1000 else si * 1000)) [0..<sz * loop]) \<and>
    cn_out (ts_conn t') = cn_out (ts_conn t) @ sent \<and> length sent = sz * loop"
proof -
  have len: "to_int (int loop * int sz) = int (sz * loop)"
  proof -
    have "int loop * int sz = int (sz * loop)" by simp
    moreover have "int (sz * loop) < 2 ^ 31" using assms(2) by (metis of_nat_less_iff of_nat_numeral of_nat_power)
    ultimately show ?thesis by (metis of_nat_0_le_iff to_int_small)
  qed
  have "to_int (si * 1000) = si * 1000" "to_int (pint * 1000) = pint * 1000" using assms(6-9) by (simp_all add: to_int_small)
  with len show ?thesis
    using probe_loop_quiet [of packetBuf sz 0 "sz * loop" t "si * 1000" "pint * 1000" "[]"] assms(1-5)
    by (auto simp: doProbe_def simp del: of_nat_mult)
qed

theorem doProbe_schedule_witness:
  "\<exists>t' sent. doProbe 4 1000 2 2 [16] \<lparr>ts_conn = \<lparr>cn_in = [], cn_out = [], cn_events = replicate 4 (Chunk 1), cn_errno = 0\<rparr>,
      ts_sigint = 1, ts_sigalrm = 1, ts_signals = []\<rparr> =
    ioreturn (t', 4, [(0, 0, 4000), (0, 1, 1000000), (1, 0, 4000), (1, 1, 1000000)]) \<and> length sent = 4 \<and> cn_out (ts_conn t') = sent"
proof -
  let ?t = "\<lparr>ts_conn = \<lparr>cn_in = [], cn_out = [], cn_events = replicate 4 (Chunk 1), cn_errno = 0\<rparr>, ts_sigint = 1, ts_sigalrm = 1, ts_signals = []\<rparr>"
  have q: "quiet ?t" "steady 4 (cn_events (ts_conn ?t))"
    by (simp_all add: quiet_def continueTest_def isLocked_def steady_def list_all_iff is_chunk_def)
  have "[0..<4] = [0, 1, 2, Suc 2]" by (simp add: upt_rec)
  with doProbe_schedule [of 2 2 "[16]" ?t 4 1000] q show ?thesis by (simp add: numeral_3_eq_3 [symmetric] del: upt_Suc)
qed

text \<open>
  \<open>doLongTest\<close> never reads outside its buffer and ends only after a signal or a short write. It
  reports the bytes of the complete packets; fewer than one packet more have been sent. It says that it
  was terminated only if the lock \<open>sigint\<close> is released.
\<close>

theorem doLongTest_accounting:
  assumes "nat PACKET_LEN \<le> length packetBuf" and "doLongTest packetBuf t = Some res"
  shows "\<exists>t' rep n sent. res = Inr (t', rep, n) \<and> cn_out (ts_conn t') = cn_out (ts_conn t) @ sent \<and> PACKET_LEN dvd n \<and>
    n \<le> int (length sent) \<and> int (length sent) < n + PACKET_LEN \<and> (rep = Some TestTerminated \<longrightarrow> ts_sigint t' = 0)"
proof -
  obtain t' n wrote sent where run: "long_loop packetBuf 0 0 t = ioreturn (t', n, wrote)" "cn_out (ts_conn t') = cn_out (ts_conn t) @ sent"
      "n \<le> int (length sent)" "int (length sent) < n + PACKET_LEN" "PACKET_LEN dvd n"
    using long_loop_outcome [OF assms(1) refl, of 0 0 t] assms(2) by (auto simp: doLongTest_def long_result_def)
  then obtain rep where "res = Inr (deliver t', rep, n)" "rep = Some TestTerminated \<longrightarrow> ts_sigint (deliver t') = 0"
    using assms(2) by (auto simp: doLongTest_def Let_def isLocked_def split: if_splits)
  then show ?thesis using run by auto
qed

theorem doLongTest_accounting_witness:
  "\<exists>t' rep n sent. doLongTest (replicate 131072 16) \<lparr>ts_conn = \<lparr>cn_in = [], cn_out = [], cn_events = [Chunk 5, Fail EINTR], cn_errno = 0\<rparr>,
      ts_sigint = 1, ts_sigalrm = 1, ts_signals = [[], [SIGINT]]\<rparr> = Some (Inr (t', rep, n)) \<and>
    cn_out (ts_conn t') = sent \<and> PACKET_LEN dvd n \<and> n \<le> int (length sent) \<and> int (length sent) < n + PACKET_LEN"
proof -
  let ?t = "\<lparr>ts_conn = \<lparr>cn_in = [], cn_out = [], cn_events = [Chunk 5, Fail EINTR], cn_errno = 0\<rparr>,
      ts_sigint = 1, ts_sigalrm = 1, ts_signals = [[], [SIGINT]]\<rparr>"
  have "rio_writenr (replicate 131072 16) 131072 (ts_conn ?t) =
      ioreturn (\<lparr>cn_in = [], cn_out = replicate 5 16, cn_events = [], cn_errno = EINTR\<rparr>, 5)"
    by (simp add: rio_writenr_def rio_writenr_loop.simps sys_write_def mem_read_def EINTR_def)
  then have "\<exists>res. doLongTest (replicate 131072 16) ?t = Some res"
    by (simp add: doLongTest_def long_loop.simps deliver_def continueTest_def isLocked_def PACKET_LEN_def to_int_def Let_def)
  then show ?thesis using doLongTest_accounting [of "replicate 131072 16" ?t] by (fastforce simp: PACKET_LEN_def)
qed

end
