(* ===== verification/Mperf_Options.thy ===== *)
theory Mperf_Options
  imports C_Strings Mperf_Messages
begin

text \<open>
  The command lines of the programs of mperf: the functions \<open>parseArguments\<close> of \<open>client.c\<close>,
  \<open>server.c\<close>, \<open>worker.c\<close>, \<open>udpsender.c\<close> and \<open>udpreceiver.c\<close>, and \<open>buildArgs\<close>, by which the controller
  makes the command line of the worker. A program that ends while it reads its command line is a value
  of type \<open>exiting\<close>. Whether a log file can be opened is the parameter \<open>can_open\<close>.
\<close>

section \<open>Common parts\<close>

datatype exiting = UsageExit | VersionExit | FatalExit string

definition optarg :: "string option \<Rightarrow> string" where
  "optarg a = (case a of None \<Rightarrow> [] | Some s \<Rightarrow> s)"

text \<open>\<open>setVerbose(atoi(optarg))\<close> or \<open>setVerbose(1)\<close>.\<close>

definition verbosity :: "string option \<Rightarrow> int" where
  "verbosity a = (case a of None \<Rightarrow> 1 | Some s \<Rightarrow> atoi s)"

definition redirectLogTo :: "(string \<Rightarrow> bool) \<Rightarrow> string option \<Rightarrow> 'a \<Rightarrow> exiting + 'a" where
  "redirectLogTo can_open path x =
     (case path of None \<Rightarrow> Inr x | Some p \<Rightarrow> if can_open p then Inr x else Inl (FatalExit ''Can't open log file''))"

definition TYPE_LONG :: int where "TYPE_LONG = 0"
definition TYPE_FIX :: int where "TYPE_FIX = 1"
definition FLAG_REVERSE :: int where "FLAG_REVERSE = 2"

section \<open>The client\<close>

record client_opts =
  co_localIP :: "string option"
  co_serverIP :: "string option"
  co_localPort :: uint16
  co_port :: uint16
  co_cport :: uint16
  co_timelen :: int
  co_localTime :: int
  co_size :: int
  co_path :: "string option"
  co_reverse :: int
  co_sendInterval :: int
  co_probeInterval :: int
  co_loop :: int
  co_verbose :: int

definition client_init :: client_opts where
  "client_init = \<lparr>co_localIP = None, co_serverIP = None, co_localPort = 0, co_port = 0, co_cport = 0, co_timelen = - 1,
     co_localTime = - 1, co_size = - 1, co_path = None, co_reverse = 0, co_sendInterval = 4, co_probeInterval = 1000,
     co_loop = 0, co_verbose = 0\<rparr>"

text \<open>The option strings with and without \<open>PROBE\<close>.\<close>

definition client_optstring :: "bool \<Rightarrow> optstring" where
  "client_optstring probe =
     (if probe then
       [(CHR ''B'', ReqArg), (CHR ''b'', ReqArg), (CHR ''c'', ReqArg), (CHR ''h'', NoArg), (CHR ''i'', ReqArg), (CHR ''I'', ReqArg),
        (CHR ''l'', ReqArg), (CHR ''L'', ReqArg), (CHR ''n'', ReqArg), (CHR ''p'', ReqArg), (CHR ''P'', ReqArg), (CHR ''s'', NoArg),
        (CHR ''v'', NoArg), (CHR ''V'', OptArg)]
      else
       [(CHR ''B'', ReqArg), (CHR ''b'', ReqArg), (CHR ''c'', ReqArg), (CHR ''h'', NoArg), (CHR ''l'', ReqArg), (CHR ''n'', ReqArg),
        (CHR ''p'', ReqArg), (CHR ''P'', ReqArg), (CHR ''s'', NoArg), (CHR ''t'', ReqArg), (CHR ''T'', ReqArg), (CHR ''v'', NoArg),
        (CHR ''V'', OptArg)])"

definition client_option :: "bool \<Rightarrow> char \<Rightarrow> string option \<Rightarrow> client_opts \<Rightarrow> exiting + client_opts" where
  "client_option probe c a st =
     (if c = CHR ''B'' then Inr (st\<lparr>co_localIP := a\<rparr>)
      else if c = CHR ''b'' then Inr (st\<lparr>co_localPort := of_int (atoi (optarg a))\<rparr>)
      else if c = CHR ''c'' then Inr (st\<lparr>co_serverIP := a\<rparr>)
      else if c = CHR ''h'' then Inl UsageExit
      else if probe \<and> c = CHR ''i'' then Inr (st\<lparr>co_sendInterval := atoi (optarg a)\<rparr>)
      else if probe \<and> c = CHR ''I'' then Inr (st\<lparr>co_probeInterval := atoi (optarg a)\<rparr>)
      else if c = CHR ''l'' then Inr (st\<lparr>co_path := a\<rparr>)
      else if probe \<and> c = CHR ''L'' then Inr (st\<lparr>co_loop := atoi (optarg a)\<rparr>)
      else if c = CHR ''n'' then Inr (st\<lparr>co_size := atoi (optarg a)\<rparr>)
      else if c = CHR ''p'' then Inr (st\<lparr>co_port := of_int (atoi (optarg a))\<rparr>)
      else if c = CHR ''P'' then Inr (st\<lparr>co_cport := of_int (atoi (optarg a))\<rparr>)
      else if c = CHR ''s'' then Inr (st\<lparr>co_reverse := FLAG_REVERSE\<rparr>)
      else if \<not> probe \<and> c = CHR ''t'' then Inr (st\<lparr>co_timelen := atoi (optarg a)\<rparr>)
      else if \<not> probe \<and> c = CHR ''T'' then Inr (st\<lparr>co_localTime := atoi (optarg a)\<rparr>)
      else if c = CHR ''v'' then Inl VersionExit
      else if c = CHR ''V'' then Inr (st\<lparr>co_verbose := verbosity a\<rparr>)
      else Inl UsageExit)"

primrec run_options :: "(char \<Rightarrow> string option \<Rightarrow> 'o \<Rightarrow> exiting + 'o) \<Rightarrow> (char \<times> string option) list \<Rightarrow> 'o \<Rightarrow> exiting + 'o" where
  "run_options f [] st = Inr st"
| "run_options f (ca # opts) st =
     (case f (fst ca) (snd ca) st of Inl e \<Rightarrow> Inl e | Inr st \<Rightarrow> run_options f opts st)"

definition client_parseArguments :: "bool \<Rightarrow> (string \<Rightarrow> bool) \<Rightarrow> string list \<Rightarrow> exiting + client_opts" where
  "client_parseArguments probe can_open argv =
     (case run_options (client_option probe) (getopt (client_optstring probe) (tl argv)) client_init of
        Inl e \<Rightarrow> Inl e
      | Inr st \<Rightarrow>
          let st = (if co_cport st = 0 then st\<lparr>co_cport := co_port st + 1\<rparr> else st);
              st = (if co_localTime st < 0 then
                     if co_size st > 0 then st\<lparr>co_localTime := 200\<rparr> else st\<lparr>co_localTime := to_int (co_timelen st + 10)\<rparr>
                   else st)
          in if co_serverIP st = None then Inl (FatalExit ''No server IP specified.'')
             else if co_port st = 0 then Inl (FatalExit ''No legal port number specified.'')
             else if \<not> probe \<and> co_timelen st < 0 \<and> co_size st < 0 then Inl (FatalExit ''No legal -t or -n argument specified.'')
             else let st = (if probe then st\<lparr>co_size := co_size st AND 0xFF\<rparr> else st) in
               case redirectLogTo can_open (co_path st) st of
                 Inl e \<Rightarrow> Inl e
               | Inr st \<Rightarrow>
                   Inr (if probe then
                          (if co_loop st \<le> 0 then st\<lparr>co_loop := 1\<rparr> else st)
                            \<lparr>co_sendInterval := co_sendInterval st AND 0x7F, co_probeInterval := co_probeInterval st AND 0xFFFF\<rparr>
                        else st))"

section \<open>The controller and the worker\<close>

record server_opts =
  so_port :: int
  so_path :: "string option"
  so_sourceIP :: "string option"
  so_svPort :: int
  so_svPath :: "string option"
  so_completeKill :: bool
  so_verbose :: int

definition server_init :: server_opts where
  "server_init = \<lparr>so_port = 0, so_path = None, so_sourceIP = None, so_svPort = 0, so_svPath = None, so_completeKill = False, so_verbose = 0\<rparr>"

definition server_optstring :: optstring where
  "server_optstring = [(CHR ''p'', ReqArg), (CHR ''v'', NoArg), (CHR ''V'', OptArg), (CHR ''l'', ReqArg), (CHR ''h'', NoArg),
     (CHR ''L'', ReqArg), (CHR ''s'', ReqArg), (CHR ''P'', ReqArg), (CHR ''k'', NoArg)]"

definition server_option :: "char \<Rightarrow> string option \<Rightarrow> server_opts \<Rightarrow> exiting + server_opts" where
  "server_option c a st =
     (if c = CHR ''h'' then Inl UsageExit
      else if c = CHR ''k'' then Inr (st\<lparr>so_completeKill := True\<rparr>)
      else if c = CHR ''l'' then Inr (st\<lparr>so_path := a\<rparr>)
      else if c = CHR ''L'' then Inr (st\<lparr>so_svPath := a\<rparr>)
      else if c = CHR ''p'' then Inr (st\<lparr>so_port := atoi (optarg a)\<rparr>)
      else if c = CHR ''P'' then Inr (st\<lparr>so_svPort := atoi (optarg a)\<rparr>)
      else if c = CHR ''s'' then Inr (st\<lparr>so_sourceIP := a\<rparr>)
      else if c = CHR ''v'' then Inl VersionExit
      else if c = CHR ''V'' then Inr (st\<lparr>so_verbose := verbosity a\<rparr>)
      else Inl UsageExit)"

definition server_parseArguments :: "(string \<Rightarrow> bool) \<Rightarrow> string list \<Rightarrow> exiting + server_opts" where
  "server_parseArguments can_open argv =
     (case run_options server_option (getopt server_optstring (tl argv)) server_init of
        Inl e \<Rightarrow> Inl e
      | Inr st \<Rightarrow>
          if so_port st = 0 then Inl (FatalExit ''No legal port number specified.'')
          else let st = (if so_svPort st = 0 then st\<lparr>so_svPort := to_int (so_port st - 1)\<rparr> else st)
            in redirectLogTo can_open (so_path st) st)"

text \<open>The command line of the worker; \<open>verbose\<close> is the level of the controller.\<close>

definition buildArgs :: "server_opts \<Rightarrow> string list" where
  "buildArgs st =
     [''server''] @
     (if so_verbose st \<noteq> 0 then [''-V'' @ show_int (so_verbose st)] else []) @
     (case so_svPath st of None \<Rightarrow> [] | Some p \<Rightarrow> [''-l'', p]) @
     [''-p'', show_int (so_svPort st)]"

record worker_opts =
  wo_port :: int
  wo_path :: "string option"
  wo_sourceIP :: "string option"
  wo_verbose :: int

text \<open>The worker is forked from the controller and starts with its \<open>verbose\<close>.\<close>

definition worker_init :: "int \<Rightarrow> worker_opts" where
  "worker_init verbose = \<lparr>wo_port = 0, wo_path = None, wo_sourceIP = None, wo_verbose = verbose\<rparr>"

definition worker_optstring :: optstring where
  "worker_optstring = [(CHR ''p'', ReqArg), (CHR ''v'', NoArg), (CHR ''V'', OptArg), (CHR ''l'', ReqArg), (CHR ''h'', NoArg), (CHR ''s'', ReqArg)]"

definition worker_option :: "char \<Rightarrow> string option \<Rightarrow> worker_opts \<Rightarrow> exiting + worker_opts" where
  "worker_option c a st =
     (if c = CHR ''h'' then Inl UsageExit
      else if c = CHR ''l'' then Inr (st\<lparr>wo_path := a\<rparr>)
      else if c = CHR ''p'' then Inr (st\<lparr>wo_port := atoi (optarg a)\<rparr>)
      else if c = CHR ''s'' then Inr (st\<lparr>wo_sourceIP := a\<rparr>)
      else if c = CHR ''V'' then Inr (st\<lparr>wo_verbose := verbosity a\<rparr>)
      else Inl UsageExit)"

definition worker_parseArguments :: "(string \<Rightarrow> bool) \<Rightarrow> int \<Rightarrow> string list \<Rightarrow> exiting + worker_opts" where
  "worker_parseArguments can_open verbose argv =
     (case run_options worker_option (getopt worker_optstring (tl argv)) (worker_init verbose) of
        Inl e \<Rightarrow> Inl e
      | Inr st \<Rightarrow>
          if wo_port st = 0 then Inl (FatalExit ''No legal port number specified.'')
          else redirectLogTo can_open (wo_path st) st)"

section \<open>The programs for UDP\<close>

record sender_opts =
  us_port :: uint16
  us_path :: "string option"
  us_localIP :: "string option"
  us_serverIP :: "string option"
  us_interval :: "int \<times> int"
  us_toSend :: int
  us_size :: int
  us_waitLen :: int
  us_verbose :: int

definition sender_init :: sender_opts where
  "sender_init = \<lparr>us_port = 0, us_path = None, us_localIP = None, us_serverIP = None, us_interval = (0, - 1), us_toSend = - 1,
     us_size = 1, us_waitLen = - 1, us_verbose = 0\<rparr>"

definition sender_optstring :: optstring where
  "sender_optstring = [(CHR ''s'', ReqArg), (CHR ''B'', ReqArg), (CHR ''c'', ReqArg), (CHR ''p'', ReqArg), (CHR ''i'', ReqArg),
     (CHR ''l'', ReqArg), (CHR ''n'', ReqArg), (CHR ''v'', NoArg), (CHR ''V'', OptArg), (CHR ''h'', NoArg), (CHR ''t'', ReqArg)]"

definition sender_option :: "char \<Rightarrow> string option \<Rightarrow> sender_opts \<Rightarrow> exiting + sender_opts" where
  "sender_option c a st =
     (if c = CHR ''B'' then Inr (st\<lparr>us_localIP := a\<rparr>)
      else if c = CHR ''c'' then Inr (st\<lparr>us_serverIP := a\<rparr>)
      else if c = CHR ''h'' then Inl UsageExit
      else if c = CHR ''i'' then Inr (st\<lparr>us_interval := (fst (us_interval st), atoi (optarg a))\<rparr>)
      else if c = CHR ''l'' then Inr (st\<lparr>us_path := a\<rparr>)
      else if c = CHR ''n'' then Inr (st\<lparr>us_toSend := atoi (optarg a)\<rparr>)
      else if c = CHR ''p'' then Inr (st\<lparr>us_port := of_int (atoi (optarg a))\<rparr>)
      else if c = CHR ''s'' then Inr (st\<lparr>us_size := atoi (optarg a)\<rparr>)
      else if c = CHR ''t'' then Inr (st\<lparr>us_waitLen := atoi (optarg a)\<rparr>)
      else if c = CHR ''v'' then Inl VersionExit
      else if c = CHR ''V'' then Inr (st\<lparr>us_verbose := verbosity a\<rparr>)
      else Inl UsageExit)"

definition sender_parseArguments :: "(string \<Rightarrow> bool) \<Rightarrow> string list \<Rightarrow> exiting + sender_opts" where
  "sender_parseArguments can_open argv =
     (case run_options sender_option (getopt sender_optstring (tl argv)) sender_init of
        Inl e \<Rightarrow> Inl e
      | Inr st \<Rightarrow>
          let usec = (if snd (us_interval st) < 0 then 10000 else snd (us_interval st));
              sec = usec sdiv 1000000;
              st = st\<lparr>us_interval := (sec, usec - sec * 1000000)\<rparr>;
              st = (if us_size st < 2 \<or> us_size st > 2048 then st\<lparr>us_size := 1\<rparr> else st)
          in if us_serverIP st = None then Inl (FatalExit ''No server IP specified.'')
             else if us_port st = 0 then Inl (FatalExit ''No legal port number specified.'')
             else redirectLogTo can_open (us_path st) st)"

record receiver_opts =
  ur_localIP :: "string option"
  ur_port :: int
  ur_path :: "string option"
  ur_verbose :: int

definition receiver_init :: receiver_opts where
  "receiver_init = \<lparr>ur_localIP = None, ur_port = 0, ur_path = None, ur_verbose = 0\<rparr>"

definition receiver_optstring :: optstring where
  "receiver_optstring = [(CHR ''B'', ReqArg), (CHR ''p'', ReqArg), (CHR ''v'', NoArg), (CHR ''V'', OptArg), (CHR ''l'', ReqArg), (CHR ''h'', NoArg)]"

definition receiver_option :: "char \<Rightarrow> string option \<Rightarrow> receiver_opts \<Rightarrow> exiting + receiver_opts" where
  "receiver_option c a st =
     (if c = CHR ''B'' then Inr (st\<lparr>ur_localIP := a\<rparr>)
      else if c = CHR ''h'' then Inl UsageExit
      else if c = CHR ''p'' then Inr (st\<lparr>ur_port := atoi (optarg a)\<rparr>)
      else if c = CHR ''l'' then Inr (st\<lparr>ur_path := a\<rparr>)
      else if c = CHR ''v'' then Inl VersionExit
      else if c = CHR ''V'' then Inr (st\<lparr>ur_verbose := verbosity a\<rparr>)
      else Inl UsageExit)"

definition receiver_parseArguments :: "(string \<Rightarrow> bool) \<Rightarrow> string list \<Rightarrow> exiting + receiver_opts" where
  "receiver_parseArguments can_open argv =
     (case run_options receiver_option (getopt receiver_optstring (tl argv)) receiver_init of
        Inl e \<Rightarrow> Inl e
      | Inr st \<Rightarrow>
          if ur_port st = 0 then Inl (FatalExit ''No legal port number specified.'')
          else redirectLogTo can_open (ur_path st) st)"

section \<open>Lemmas\<close>

lemma run_options_invariant:
  assumes "run_options f opts st = Inr st'" and "P st"
    and "\<And>c a st st'. P st \<Longrightarrow> f c a st = Inr st' \<Longrightarrow> P st'"
  shows "P st'"
  using assms(1,2)
proof (induction opts arbitrary: st)
  case (Cons ca opts)
  then show ?case using assms(3) by (auto split: sum.splits)
qed simp

definition is_int :: "int \<Rightarrow> bool" where
  "is_int x \<longleftrightarrow> - (2 ^ 31) \<le> x \<and> x < 2 ^ 31"

lemma is_int_atoi [simp]: "is_int (atoi s)"
  using atoi_range by (simp add: is_int_def)

lemma is_int_to_int [simp]: "is_int (to_int x)"
  using sint_range_size [of "of_int x :: 32 word"] by (auto simp: is_int_def to_int_def word_size)

lemma is_int_small [simp]: "is_int 0" "is_int 1" "is_int (- 1)"
  by (simp_all add: is_int_def)

lemma redirectLogTo_Inr: "redirectLogTo can_open path x = Inr y \<longleftrightarrow> y = x \<and> (case path of None \<Rightarrow> True | Some p \<Rightarrow> can_open p)"
  by (auto simp: redirectLogTo_def split: option.splits)

lemma server_parseArguments_range:
  assumes "server_parseArguments can_open argv = Inr st"
  shows "is_int (so_verbose st)" "is_int (so_svPort st)"
proof -
  let ?P = "\<lambda>st. is_int (so_verbose st) \<and> is_int (so_svPort st)"
  have "?P st'" if "run_options server_option (getopt server_optstring (tl argv)) server_init = Inr st'" for st'
    using that
  proof (rule run_options_invariant)
    show "?P server_init" by (simp add: server_init_def)
    show "?P st'" if "?P st" "server_option c a st = Inr st'" for c a st st'
      using that by (auto simp: server_option_def verbosity_def split: if_splits option.splits)
  qed
  then show "is_int (so_verbose st)" "is_int (so_svPort st)" using assms
    by (auto simp: server_parseArguments_def Let_def redirectLogTo_Inr split: sum.splits if_splits)
qed

text \<open>What \<open>getopt\<close> of the worker makes of each argument.\<close>

lemma worker_getopt:
  "getopt worker_optstring ((''-V'' @ show_int v) # rest) = (CHR ''V'', Some (show_int v)) # getopt worker_optstring rest"
  "getopt worker_optstring (''-l'' # p # rest) = (CHR ''l'', Some p) # getopt worker_optstring rest"
  "getopt worker_optstring (''-p'' # p # rest) = (CHR ''p'', Some p) # getopt worker_optstring rest"
  using show_int_not_Nil [of v] by (simp_all add: getopt.simps(2) worker_optstring_def)

section \<open>Properties\<close>

text \<open>
  the worker reads back from the command line that \<open>buildArgs\<close> makes the port, the log file and the
  verbosity of the controller, for every command line of the controller. The source address is not
  passed on: whatever \<open>-s\<close> was given, the worker listens on every address.
\<close>

theorem buildArgs_roundtrip:
  assumes "server_parseArguments can_open argv = Inr st" and "so_svPort st \<noteq> 0"
    and "case so_svPath st of None \<Rightarrow> True | Some p \<Rightarrow> can_open p"
  shows "worker_parseArguments can_open (so_verbose st) (buildArgs st) =
    Inr \<lparr>wo_port = so_svPort st, wo_path = so_svPath st, wo_sourceIP = None, wo_verbose = so_verbose st\<rparr>"
proof -
  have at: "atoi (show_int (so_verbose st)) = so_verbose st" "atoi (show_int (so_svPort st)) = so_svPort st"
    using server_parseArguments_range [OF assms(1)] by (simp_all add: is_int_def atoi_show_int)
  have "run_options worker_option (getopt worker_optstring (tl (buildArgs st))) (worker_init (so_verbose st)) =
      Inr \<lparr>wo_port = so_svPort st, wo_path = so_svPath st, wo_sourceIP = None, wo_verbose = so_verbose st\<rparr>"
    using at worker_getopt(1) [of "so_verbose st"]
    by (simp add: buildArgs_def worker_getopt(2,3) worker_option_def worker_init_def optarg_def verbosity_def split: option.splits)
  then show ?thesis using assms(2,3) by (auto simp: worker_parseArguments_def redirectLogTo_def split: option.splits)
qed

theorem buildArgs_roundtrip_witness:
  "\<exists>st. server_parseArguments (\<lambda>p. True) [''mperf-server'', ''-V2'', ''-p'', ''5001'', ''-s'', ''10.0.0.1''] = Inr st \<and> so_sourceIP st = Some ''10.0.0.1'' \<and>
    worker_parseArguments (\<lambda>p. True) 2 (buildArgs st) = Inr \<lparr>wo_port = 5000, wo_path = None, wo_sourceIP = None, wo_verbose = 2\<rparr>"
proof -
  let ?st = "server_init\<lparr>so_port := 5001, so_sourceIP := Some ''10.0.0.1'', so_svPort := 5000, so_verbose := 2\<rparr>"
  have "atoi ''2'' = 2" "atoi ''5001'' = 5001"
    by (simp_all add: atoi_def scan_int_def is_digit_def is_space_def digits_value_def long_to_int_def to_int_def)
  then have st: "server_parseArguments (\<lambda>p. True) [''mperf-server'', ''-V2'', ''-p'', ''5001'', ''-s'', ''10.0.0.1''] = Inr ?st"
    by (simp add: server_parseArguments_def getopt.simps(2) server_optstring_def server_option_def server_init_def optarg_def
        verbosity_def redirectLogTo_def to_int_def)
  from buildArgs_roundtrip [OF this] st show ?thesis by (simp add: server_init_def)
qed

text \<open>
  the interval of the UDP sender is normalised: \<open>tv_usec\<close> is less than a second and the two fields
  together are the interval in microseconds that was given, or 10000; the number of words in a packet is
  from 1 to 2048.
\<close>

theorem sender_parseArguments_normalised:
  assumes "sender_parseArguments can_open argv = Inr st"
  shows "\<exists>raw. run_options sender_option (getopt sender_optstring (tl argv)) sender_init = Inr raw \<and>
    (case us_interval st of (sec, usec) \<Rightarrow> 0 \<le> sec \<and> 0 \<le> usec \<and> usec < 1000000 \<and>
       1000000 * sec + usec = (if snd (us_interval raw) < 0 then 10000 else snd (us_interval raw))) \<and>
    1 \<le> us_size st \<and> us_size st \<le> 2048 \<and> us_port st \<noteq> 0 \<and> us_serverIP st \<noteq> None"
proof -
  obtain raw where raw: "run_options sender_option (getopt sender_optstring (tl argv)) sender_init = Inr raw"
    using assms by (auto simp: sender_parseArguments_def split: sum.splits)
  let ?u = "if snd (us_interval raw) < 0 then 10000 else snd (us_interval raw)"
  have d: "?u sdiv 1000000 = ?u div 1000000" by (auto simp: signed_divide_int_def sgn_if)
  have m: "1000000 * (?u div 1000000) + (?u - ?u div 1000000 * 1000000) = ?u" "0 \<le> ?u div 1000000"
      "0 \<le> ?u - ?u div 1000000 * 1000000" "?u - ?u div 1000000 * 1000000 < 1000000"
    by (simp_all add: minus_div_mult_eq_mod pos_imp_zdiv_nonneg_iff)
  have "us_interval st = (?u div 1000000, ?u - ?u div 1000000 * 1000000)" "1 \<le> us_size st" "us_size st \<le> 2048" "us_port st \<noteq> 0"
      "us_serverIP st \<noteq> None"
    using assms raw d by (auto simp: sender_parseArguments_def Let_def redirectLogTo_Inr split: if_splits)
  then show ?thesis using raw m by auto
qed

theorem sender_parseArguments_normalised_witness:
  "\<exists>st. sender_parseArguments (\<lambda>p. True) [''mperf-udpsender'', ''-c'', ''10.0.0.2'', ''-p'', ''9'', ''-i'', ''2500000'', ''-s'', ''4096''] = Inr st \<and>
    us_interval st = (2, 500000) \<and> us_size st = 1 \<and> 1 \<le> us_size st"
proof -
  have "atoi ''9'' = 9" "atoi ''2500000'' = 2500000" "atoi ''4096'' = 4096"
    by (simp_all add: atoi_def scan_int_def is_digit_def is_space_def digits_value_def long_to_int_def to_int_def)
  then have "\<exists>st. sender_parseArguments (\<lambda>p. True) [''mperf-udpsender'', ''-c'', ''10.0.0.2'', ''-p'', ''9'', ''-i'', ''2500000'', ''-s'', ''4096''] = Inr st \<and>
      us_interval st = (2, 500000) \<and> us_size st = 1"
    by (simp add: sender_parseArguments_def getopt.simps(2) sender_optstring_def sender_option_def sender_init_def optarg_def
        redirectLogTo_def signed_divide_int_def)
  then show ?thesis using sender_parseArguments_normalised by blast
qed

end
