(* ===== verification/Mperf_Control.thy ===== *)
theory Mperf_Control
  imports Mperf_Transfer Mperf_Options
begin

text \<open>
  The control plane of mperf: the controller (\<open>3rd/mperf/src/server.c\<close>), which starts and stops the
  worker, the worker (\<open>worker.c\<close>), which runs the tests, and the way in which the client
  (\<open>client.c\<close>) configures them. The controller and the worker share a block of memory and send each other
  signals. Which signals the controller gets before it looks at its locks again is a list of batches; a
  spinning loop takes one batch for every look and never ends when there is none left. The results of
  \<open>kill\<close> and \<open>fork\<close>, and what the new process does to the shared block, come from outside.
\<close>

section \<open>Signals of the controller\<close>

datatype csignal = USR1 | USR2 | ALRM | CHLD "int list"

datatype ksignal = KillINT | KillTERM

record controller =
  ct_chldPID :: int
  ct_completeKill :: bool
  ct_sigusr1 :: lock_t
  ct_sigusr2 :: lock_t
  ct_sigchld :: lock_t
  ct_sigalrm :: lock_t
  ct_smem :: "byte list"
  ct_conn :: conn
  ct_sendbuf :: "byte list"
  ct_msglen :: "byte list"
  ct_signals :: "csignal list list"
  ct_killres :: "int list"
  ct_kills :: "(int \<times> ksignal) list"

text \<open>\<open>CHLD\<close> carries the processes that the calls of \<open>waitpid\<close> in the handler return.\<close>

definition sigchldHandler :: "int list \<Rightarrow> controller \<Rightarrow> controller" where
  "sigchldHandler pids s =
     (let s = fold (\<lambda>x s. if x = ct_chldPID s then s\<lparr>ct_chldPID := - 1\<rparr> else s) pids s
      in s\<lparr>ct_sigchld := release (ct_sigchld s)\<rparr>)"

primrec ctl_handle :: "csignal \<Rightarrow> controller \<Rightarrow> controller" where
  "ctl_handle USR1 s = s\<lparr>ct_sigusr1 := release (ct_sigusr1 s)\<rparr>"
| "ctl_handle USR2 s = s\<lparr>ct_sigusr2 := release (ct_sigusr2 s)\<rparr>"
| "ctl_handle ALRM s = s\<lparr>ct_sigalrm := release (ct_sigalrm s)\<rparr>"
| "ctl_handle (CHLD pids) s = sigchldHandler pids s"

definition ctl_look :: "controller \<Rightarrow> controller" where
  "ctl_look s = (case ct_signals s of [] \<Rightarrow> s | b # bs \<Rightarrow> fold ctl_handle b (s\<lparr>ct_signals := bs\<rparr>))"

lemma ctl_handle_signals [simp]: "ct_signals (ctl_handle x s) = ct_signals s"
proof -
  have "ct_signals (fold (\<lambda>x s. if x = ct_chldPID s then s\<lparr>ct_chldPID := - 1\<rparr> else s) pids s) = ct_signals s" for pids
    by (induction pids arbitrary: s) auto
  then show ?thesis by (cases x) (simp_all add: sigchldHandler_def Let_def)
qed

lemma fold_ctl_handle_signals [simp]: "ct_signals (fold ctl_handle b s) = ct_signals s"
  by (induction b arbitrary: s) simp_all

text \<open>\<open>spinAND\<close> and \<open>spinAND3\<close>: wait until one of the locks is released.\<close>

function spin :: "(controller \<Rightarrow> bool) \<Rightarrow> controller \<Rightarrow> controller io" where
  "spin locked s =
     (if \<not> locked s then ioreturn s
      else if ct_signals s = [] then None
      else spin locked (ctl_look s))"
  by pat_completeness auto

termination spin
  by (relation "measure (\<lambda>(locked, s). length (ct_signals s))") (auto simp: ctl_look_def split: list.splits)

declare spin.simps [simp del]

definition spinAND :: "controller \<Rightarrow> controller io" where
  "spinAND s = spin (\<lambda>s. isLocked (ct_sigchld s) \<and> isLocked (ct_sigalrm s)) s"

definition spinAND3 :: "controller \<Rightarrow> controller io" where
  "spinAND3 s = spin (\<lambda>s. isLocked (ct_sigusr1 s) \<and> isLocked (ct_sigusr2 s) \<and> isLocked (ct_sigalrm s)) s"

section \<open>The controller\<close>

definition EPERM :: int where "EPERM = 1"

text \<open>\<open>rKill\<close>; the next element of \<open>ct_killres\<close> is the error number of the call of \<open>kill\<close>, 0 for none.\<close>

definition rKill :: "int \<Rightarrow> ksignal \<Rightarrow> controller \<Rightarrow> controller \<times> int" where
  "rKill pid sig s =
     (let (err, rest) = (case ct_killres s of [] \<Rightarrow> (0, []) | e # es \<Rightarrow> (e, es));
          s = s\<lparr>ct_killres := rest, ct_kills := ct_kills s @ [(pid, sig)]\<rparr>
      in (s, if err \<noteq> 0 then (if err = EPERM then RET_EPROC else RET_EKILL) else RET_SUCC))"

text \<open>Signals may arrive between the locks being set and the call of \<open>kill\<close>.\<close>

definition rTerminate :: "controller \<Rightarrow> (controller \<times> int) io" where
  "rTerminate s =
     (let s = ctl_look (s\<lparr>ct_sigchld := setLock (ct_sigchld s), ct_sigalrm := setLock (ct_sigalrm s)\<rparr>);
          (s, ret) = rKill (ct_chldPID s) KillINT s
      in if ret \<noteq> RET_SUCC then ioreturn (s, ret)
         else iobind (spinAND s) (\<lambda>s.
           if isLocked (ct_sigchld s) \<and> ct_completeKill s then
             (let (s, ret) = rKill (ct_chldPID s) KillTERM s
              in if ret \<noteq> RET_SUCC then ioreturn (s, ret) else ioreturn (s, RET_SUCC))
           else ioreturn (s, RET_SUCC)))"

definition ctl_reply :: "int \<Rightarrow> controller \<Rightarrow> controller io" where
  "ctl_reply ret s =
     iobind (rSendBytes [of_int ret] 1 (ct_conn s)) (\<lambda>(c, r). ioreturn (s\<lparr>ct_conn := c\<rparr>))"

definition doTerminate :: "controller \<Rightarrow> controller io" where
  "doTerminate s =
     iobind (if ct_chldPID s \<le> 0 then ioreturn (s, RET_SUCC) else rTerminate s) (\<lambda>(s, ret). ctl_reply ret s)"

text \<open>
  The end of \<open>doConfigure\<close>: the reply, and the message of the worker if it has refused.
\<close>

definition doConfigure_out :: "int \<Rightarrow> byte list \<Rightarrow> controller \<Rightarrow> controller io" where
  "doConfigure_out ret message s =
     iobind (ctl_reply ret s) (\<lambda>s.
     if ret = RET_EMSG then
       iobind (iolift (c_strlen message)) (\<lambda>n.
       iobind (rSendMessage message (to_int (int n + 1)) (ct_sendbuf s) (ct_conn s)) (\<lambda>(c, buf, r).
       ioreturn (s\<lparr>ct_conn := c, ct_sendbuf := buf\<rparr>)))
     else ioreturn s)"

text \<open>
  \<open>doConfigure\<close> in the controller. \<open>pid\<close> is the result of \<open>fork\<close>, \<open>child\<close> what the new process does to
  the shared block, \<open>message\<close> the uninitialised local array.
\<close>

definition doConfigure :: "int \<Rightarrow> (byte list \<Rightarrow> byte list) \<Rightarrow> byte list \<Rightarrow> controller \<Rightarrow> controller io" where
  "doConfigure pid child message s =
     iobind (if 0 < ct_chldPID s then rTerminate s else ioreturn (s, RET_SUCC)) (\<lambda>(s, ret).
     if ret \<noteq> RET_SUCC then doConfigure_out ret message s
     else
       iobind (rReceiveMessage message (ct_msglen s) (ct_conn s)) (\<lambda>(c, message, msglen, ret).
       let s = ctl_look (s\<lparr>ct_conn := c, ct_msglen := msglen\<rparr>) in
       if ret \<noteq> RET_SUCC then doConfigure_out ret message s
       else
         iobind (iolift (setMessage message (ct_smem s))) (\<lambda>smem.
         let s = s\<lparr>ct_smem := (if pid = - 1 then smem else child smem), ct_sigusr1 := setLock (ct_sigusr1 s),
                   ct_sigusr2 := setLock (ct_sigusr2 s), ct_sigalrm := setLock (ct_sigalrm s), ct_chldPID := pid\<rparr>
         in iobind (spinAND3 s) (\<lambda>s.
            if \<not> isLocked (ct_sigusr2 s) then
              iobind (iolift (getMessage message (ct_smem s))) (\<lambda>(message, r). doConfigure_out RET_EMSG message s)
            else if \<not> isLocked (ct_sigalrm s) then doConfigure_out RET_EPROC message s
            else doConfigure_out RET_SUCC message s))))"

text \<open>One connection: the instruction and what it asks for.\<close>

definition server_parse :: "int \<Rightarrow> (byte list \<Rightarrow> byte list) \<Rightarrow> byte list \<Rightarrow> controller \<Rightarrow> controller io" where
  "server_parse pid child message s =
     iobind (rRecvBytes [0] 1 (ct_conn s)) (\<lambda>(c, cbuf, ret).
     let s = ctl_look (s\<lparr>ct_conn := c\<rparr>) in
     if ret = RET_SUCC then
       if sint (hd cbuf) = SIG_TERM then doTerminate s
       else if sint (hd cbuf) = SIG_CONF then doConfigure pid child message s
       else ioreturn s
     else ioreturn s)"

section \<open>The worker\<close>

record worker =
  wk_type :: int
  wk_arg :: int
  wk_arg2 :: int
  wk_running :: bool

definition worker_start :: worker where
  "worker_start = \<lparr>wk_type = TYPE_FIX, wk_arg = 1024, wk_arg2 = 200, wk_running = False\<rparr>"

text \<open>A value stored in a \<open>char\<close>.\<close>

definition to_char :: "int \<Rightarrow> int" where
  "to_char x = sint (of_int x :: 8 word)"

text \<open>
  \<open>configure\<close>: the settings, the shared block and the signal sent to the controller, after \<open>USR2\<close> the
  worker exits. A variable that \<open>sscanf\<close> does not assign is used uninitialised.
\<close>

definition configure :: "byte list \<Rightarrow> worker \<Rightarrow> byte list \<Rightarrow> (worker \<times> byte list \<times> csignal) res" where
  "configure message w smem =
     rbind (getMessage message smem) (\<lambda>(message, r).
     rbind (c_strlen message) (\<lambda>n.
     case scan_ints 3 (string_of (take n message)) of
       [] \<Rightarrow> Inl UndefinedBehaviour
     | ttype # args \<Rightarrow>
         if ttype AND NOT FLAG_REVERSE = TYPE_LONG then
           (case args of
              [] \<Rightarrow> Inl UndefinedBehaviour
            | targ # _ \<Rightarrow>
                let w = w\<lparr>wk_arg := targ, wk_type := to_char ttype\<rparr> in
                Inr (w, smem, if targ \<le> 0 then USR2 else USR1))
         else if ttype AND NOT FLAG_REVERSE = TYPE_FIX then
           (case args of
              targ # targ2 # _ \<Rightarrow>
                let w = w\<lparr>wk_arg := (if targ \<le> 0 then 200 else targ), wk_arg2 := targ2, wk_type := to_char ttype\<rparr> in
                Inr (w, smem, if targ2 \<le> 0 then USR2 else USR1)
            | _ \<Rightarrow> Inl UndefinedBehaviour)
         else
           rbind (mem_write message 0 (bytes_of (''Unrecognized type '' @ show_int ttype) @ [0])) (\<lambda>message.
           rbind (setMessage message smem) (\<lambda>smem. Inr (w, smem, USR2)))))"

datatype transfer = Sent "report option" int | Received "report option" int | NoTransfer

text \<open>The test that the settings ask for.\<close>

definition worker_parse :: "byte list \<Rightarrow> worker \<Rightarrow> test \<Rightarrow> (worker \<times> test \<times> transfer) io" where
  "worker_parse packetBuf w t =
     (let w' = w\<lparr>wk_running := False\<rparr> in
      if wk_type w = TYPE_LONG then iobind (doLongTest packetBuf t) (\<lambda>(t, rep, n). ioreturn (w', t, Sent rep n))
      else if wk_type w = TYPE_FIX then iobind (doFixTest packetBuf (wk_arg2 w) t) (\<lambda>(t, rep, n). ioreturn (w', t, Sent rep n))
      else if wk_type w = TYPE_LONG OR FLAG_REVERSE \<or> wk_type w = TYPE_FIX OR FLAG_REVERSE then
        iobind (doReceive packetBuf t) (\<lambda>(t, buf, rep, n). ioreturn (w', t, Received rep n))
      else ioreturn (w', t, NoTransfer))"

text \<open>The loop that accepts the connection; the list has the results of \<open>accept\<close>, which then blocks.\<close>

primrec worker_accept :: "int list \<Rightarrow> test \<Rightarrow> (test \<times> int) option" where
  "worker_accept [] t = (if continueTest (deliver t) then None else Some (deliver t, - 1))"
| "worker_accept (fd # fds) t =
     (if \<not> continueTest (deliver t) then Some (deliver t, - 1)
      else if fd < 0 then worker_accept fds (deliver t)
      else Some (deliver t, fd))"

text \<open>
  \<open>serverMain\<close>. \<open>listen_ok\<close> tells whether the port can be opened; \<open>conn_of\<close> is the accepted connection.
\<close>

datatype worker_exit = WorkerExit exiting | WorkerRefused | WorkerNoPort | WorkerStopped | WorkerDone transfer

definition serverMain :: "(string \<Rightarrow> bool) \<Rightarrow> int \<Rightarrow> string list \<Rightarrow> bool \<Rightarrow> int list \<Rightarrow> (int \<Rightarrow> conn) \<Rightarrow> byte list \<Rightarrow> test \<Rightarrow>
    (byte list \<times> csignal option \<times> worker_exit) io" where
  "serverMain can_open verbose argv listen_ok accepts conn_of smem t =
     (if length argv = 1 then ioreturn (smem, None, WorkerExit UsageExit)
      else case worker_parseArguments can_open verbose argv of
        Inl e \<Rightarrow> ioreturn (smem, None, WorkerExit e)
      | Inr st \<Rightarrow>
          iobind (iolift (configure (replicate 256 0) worker_start smem)) (\<lambda>(w, smem, sig).
          if sig = USR2 then ioreturn (smem, Some sig, WorkerRefused)
          else if \<not> listen_ok then ioreturn (smem, Some sig, WorkerNoPort)
          else
            let t = t\<lparr>ts_sigint := setLock (ts_sigint t), ts_sigalrm := setLock (ts_sigalrm t)\<rparr> in
            case worker_accept accepts t of
              None \<Rightarrow> None
            | Some (t, fd) \<Rightarrow>
                if \<not> continueTest (deliver t) then ioreturn (smem, Some sig, WorkerStopped)
                else iobind (worker_parse (replicate (nat PACKET_LEN) 0x10) (w\<lparr>wk_running := True\<rparr>) ((deliver t)\<lparr>ts_conn := conn_of fd\<rparr>))
                  (\<lambda>(w, t, tr). ioreturn (smem, Some sig, WorkerDone tr))))"

section \<open>The client\<close>

definition client_message :: "bool \<Rightarrow> client_opts \<Rightarrow> int \<times> int \<times> int" where
  "client_message probe st =
     (let type = (if 0 < co_size st then TYPE_FIX else TYPE_LONG);
          arg = (if probe then co_loop st
                 else if co_size st \<le> 0 \<and> co_reverse st = 0 then co_timelen st else co_localTime st);
          arg2 = (if probe then to_int ((push_bit 24 (co_sendInterval st) OR push_bit 16 (co_size st)) OR co_probeInterval st)
                  else co_size st)
      in (type OR co_reverse st, arg, arg2))"

definition control_text :: "int \<times> int \<times> int \<Rightarrow> string" where
  "control_text m = (case m of (type, arg, arg2) \<Rightarrow> show_int type @ '' '' @ show_int arg @ '' '' @ show_int arg2)"

text \<open>
  \<open>reconfigureServer\<close> on the connection to the controller: the static buffer of \<open>rSendMessage\<close> and the
  exit, if there is one. The variable \<open>ret\<close> holds the byte received and is then assigned the result of
  \<open>rRecvBytes\<close>.
\<close>

definition reconfigureServer :: "bool \<Rightarrow> client_opts \<Rightarrow> byte list \<Rightarrow> byte list \<Rightarrow> conn \<Rightarrow> (conn \<times> byte list \<times> exiting option) io" where
  "reconfigureServer probe st message sendbuf c =
     iobind (iolift (mem_write message 0 [of_int SIG_CONF])) (\<lambda>message.
     iobind (rio_writenr message 1 c) (\<lambda>(c, r).
     if r < 1 then ioreturn (c, sendbuf, Some (FatalExit ''Can't send instruction to controller''))
     else
       iobind (iolift (mem_write message 0 (bytes_of (control_text (client_message probe st)) @ [0]))) (\<lambda>message.
       iobind (iolift (c_strlen message)) (\<lambda>n.
       iobind (rSendMessage message (to_int (1 + int n)) sendbuf c) (\<lambda>(c, sendbuf, r).
       iobind (rRecvBytes [0] 1 c) (\<lambda>(c, retbuf, r).
       let retbuf = [of_int r :: byte] in
       ioreturn (c, sendbuf, if sint (hd retbuf) \<noteq> RET_SUCC then Some (FatalExit ''Reconfigure failed'') else None)))))))"

text \<open>The transfer on the second connection.\<close>

definition client_transfer :: "client_opts \<Rightarrow> byte list \<Rightarrow> test \<Rightarrow> (test \<times> transfer) io" where
  "client_transfer st packetBuf t =
     (let t = t\<lparr>ts_sigint := setLock (ts_sigint t), ts_sigalrm := setLock (ts_sigalrm t)\<rparr> in
      if co_reverse st \<noteq> 0 then
        if 0 < co_size st then iobind (doFixTest packetBuf (co_size st) t) (\<lambda>(t, rep, n). ioreturn (t, Sent rep n))
        else iobind (doLongTest packetBuf t) (\<lambda>(t, rep, n). ioreturn (t, Sent rep n))
      else iobind (doReceive packetBuf t) (\<lambda>(t, buf, rep, n). ioreturn (t, Received rep n)))"

section \<open>Lemmas: the control message\<close>

lemma length_show_nat: "n < 10 ^ Suc k \<Longrightarrow> length (show_nat n) \<le> Suc k"
proof (induction k arbitrary: n)
  case (Suc k)
  show ?case
  proof (cases "n < 10")
    case False
    then have "length (show_nat n) = Suc (length (show_nat (n div 10)))" by simp
    moreover have "n div 10 < 10 ^ Suc k" using Suc.prems by (simp add: less_mult_imp_div_less)
    ultimately show ?thesis using Suc.IH [of "n div 10"] by simp
  qed simp
qed simp

lemma length_show_int:
  assumes "is_int v"
  shows "length (show_int v) \<le> 11"
proof -
  have "nat \<bar>v\<bar> < 10 ^ Suc 9" using assms by (auto simp: is_int_def nat_less_iff)
  from length_show_nat [OF this] show ?thesis by (cases "v < 0") (simp_all add: show_int_def del: show_nat.simps)
qed

lemma string_of_bytes_of [simp]: "string_of (bytes_of s) = s"
proof -
  have "char_of (unat (of_char c :: byte)) = c" for c
  proof -
    have "(of_char c :: nat) < 256" by simp
    then have "unat (of_nat (of_char c) :: byte) = of_char c" by (simp add: unat_of_nat)
    then have "unat (of_char c :: byte) = of_char c" unfolding of_nat_of_char .
    then show ?thesis by simp
  qed
  then show ?thesis by (simp add: string_of_def bytes_of_def comp_def)
qed

definition message_ok :: "int \<times> int \<times> int \<Rightarrow> bool" where
  "message_ok m \<longleftrightarrow> (case m of (type, arg, arg2) \<Rightarrow> is_int type \<and> is_int arg \<and> is_int arg2)"

lemma control_text_bytes:
  assumes "message_ok m"
  shows "length (bytes_of (control_text m)) \<le> 35" "0 \<notin> set (bytes_of (control_text m))"
proof -
  obtain a b c where m: "m = (a, b, c)" by (cases m)
  have "length (show_int a) \<le> 11" "length (show_int b) \<le> 11" "length (show_int c) \<le> 11"
    using assms by (simp_all add: m message_ok_def length_show_int)
  then show "length (bytes_of (control_text m)) \<le> 35" by (simp add: m control_text_def bytes_of_def)
  have "0 \<notin> set (bytes_of ('' '' :: string))" by (simp add: bytes_of_def)
  then show "0 \<notin> set (bytes_of (control_text m))"
    using show_int_no_zero [of a] show_int_no_zero [of b] show_int_no_zero [of c] by (auto simp: m control_text_def bytes_of_def)
qed

lemma scan_control_text:
  assumes "message_ok (a, b, c)"
  shows "scan_ints 3 (control_text (a, b, c)) = [a, b, c]"
proof -
  have sp: "is_space (CHR '' '')" "\<not> is_digit (CHR '' '')" by (simp_all add: is_space_def is_digit_def)
  have "scan_int (show_int a @ CHR '' '' # r) = Some (a, CHR '' '' # r)" "scan_int (show_int b @ CHR '' '' # r) = Some (b, CHR '' '' # r)"
      "scan_int (show_int c) = Some (c, [])" for r
    using sp(2) scan_show_int [of "[]" c] by (simp_all add: scan_show_int)
  moreover have "long_to_int a = a" "long_to_int b = b" "long_to_int c = c"
    using assms by (simp_all add: message_ok_def is_int_def long_to_int_id)
  ultimately show ?thesis using sp(1) by (simp add: control_text_def numeral_3_eq_3 scan_int_space)
qed

text \<open>The worker reads what the shared block holds.\<close>

lemma configure_text:
  assumes "message_ok (a, b, c)" and "smem = int_bytes (int (Suc (length bs))) @ bs @ 0 # rest" and "bs = bytes_of (control_text (a, b, c))"
    and "length message = 256"
  shows "a AND NOT FLAG_REVERSE = TYPE_LONG \<Longrightarrow>
      configure message w smem = Inr (w\<lparr>wk_arg := b, wk_type := to_char a\<rparr>, smem, if b \<le> 0 then USR2 else USR1)"
    "a AND NOT FLAG_REVERSE = TYPE_FIX \<Longrightarrow> configure message w smem =
      Inr (w\<lparr>wk_arg := (if b \<le> 0 then 200 else b), wk_arg2 := c, wk_type := to_char a\<rparr>, smem, if c \<le> 0 then USR2 else USR1)"
proof -
  have l: "length bs \<le> 35" "0 \<notin> set bs" using control_text_bytes [OF assms(1)] assms(3) by simp_all
  have "getMessage message smem = Inr ((bs @ [0]) @ drop (length (bs @ [0])) message, 0)"
    by (rule getMessage_ok [where rest = rest]) (use l(1) assms(2,4) in simp_all)
  moreover have "c_strlen (bs @ 0 # drop (Suc (length bs)) message) = Inr (length bs)" using l(2) by (rule c_strlen_append)
  ultimately show "a AND NOT FLAG_REVERSE = TYPE_LONG \<Longrightarrow>
      configure message w smem = Inr (w\<lparr>wk_arg := b, wk_type := to_char a\<rparr>, smem, if b \<le> 0 then USR2 else USR1)"
    "a AND NOT FLAG_REVERSE = TYPE_FIX \<Longrightarrow> configure message w smem =
      Inr (w\<lparr>wk_arg := (if b \<le> 0 then 200 else b), wk_arg2 := c, wk_type := to_char a\<rparr>, smem, if c \<le> 0 then USR2 else USR1)"
    using scan_control_text [OF assms(1)] assms(3) by (simp_all add: configure_def TYPE_LONG_def TYPE_FIX_def)
qed

section \<open>Lemmas: the exchange\<close>

text \<open>The client sends the instruction and the message, and is content with any answer.\<close>

lemma reconfigureServer_sends:
  assumes "message_ok (client_message probe st)" and "bs = bytes_of (control_text (client_message probe st))"
    and "length message = 1024" and "length sendbuf = 2048" and "cn_in c = b # rest" and "steady (length bs + 7) (cn_events c)"
  shows "\<exists>c' buf. reconfigureServer probe st message sendbuf c = ioreturn (c', buf, None) \<and>
    cn_out c' = cn_out c @ 1 # int_bytes (int (Suc (length bs))) @ bs @ [0]"
proof -
  let ?n = "Suc (length bs)"
  have l: "length bs \<le> 35" "0 \<notin> set bs" using control_text_bytes [OF assms(1)] assms(2) by simp_all
  let ?m1 = "1 # drop 1 message" and ?m2 = "bs @ 0 # drop (Suc (length bs)) (1 # drop 1 message)"
  have w1: "mem_write message 0 [of_int SIG_CONF] = Inr ?m1" using assms(3) by (simp add: mem_write_ok SIG_CONF_def)
  have w2: "mem_write ?m1 0 (bs @ [0]) = Inr ?m2" using assms(3) l(1) by (simp add: mem_write_ok)
  have st1: "steady 1 (cn_events c)" using assms(6) by (rule steady_mono) simp
  obtain k1 where k1: "k1 \<le> 1" "rio_writenr ?m1 1 c = ioreturn (c\<lparr>cn_out := cn_out c @ [1], cn_events := drop k1 (cn_events c)\<rparr>, 1)"
    using rio_writenr_ok [OF st1, of ?m1] by auto
  let ?c1 = "c\<lparr>cn_out := cn_out c @ [1], cn_events := drop k1 (cn_events c)\<rparr>"
  have st2: "steady (?n + 4 + 1) (cn_events ?c1)" using steady_drop [of 1 "?n + 5" "cn_events c" k1] k1(1) assms(6) by (simp add: add.commute)
  have "steady (?n + 4) (cn_events ?c1)" using st2 by (rule steady_mono) simp
  then obtain k2 buf where k2: "k2 \<le> ?n + 4" "rSendMessage ?m2 (int ?n) sendbuf ?c1 =
      ioreturn (?c1\<lparr>cn_out := cn_out ?c1 @ int_bytes (int ?n) @ bs @ [0], cn_events := drop k2 (cn_events ?c1)\<rparr>, buf, RET_SUCC)"
    using rSendMessage_ok [of ?n ?m2 sendbuf ?c1] assms(3,4) l(1) by auto
  let ?c2 = "?c1\<lparr>cn_out := cn_out ?c1 @ int_bytes (int ?n) @ bs @ [0], cn_events := drop k2 (cn_events ?c1)\<rparr>"
  have "steady 1 (cn_events ?c2)" using steady_drop [OF st2 k2(1)] by simp
  then obtain k3 where "rio_readnr [0] 1 ?c2 = ioreturn (?c2\<lparr>cn_in := rest, cn_events := drop k3 (cn_events ?c2)\<rparr>, [b], 1)"
    using rio_readnr_ok [of 1 ?c2 "[0]"] assms(5) by auto
  then have "rRecvBytes [0] 1 ?c2 = ioreturn (?c2\<lparr>cn_in := rest, cn_events := drop k3 (cn_events ?c2)\<rparr>, [b], RET_SUCC)"
    by (simp add: rRecvBytes_def)
  moreover have "c_strlen ?m2 = Inr (length bs)" using l(2) by (rule c_strlen_append)
  moreover have "to_int (1 + int (length bs)) = int ?n" using l(1) by (subst to_int_small) simp_all
  ultimately show ?thesis using w1 w2 k1(2) k2(2) assms(2) by (simp add: reconfigureServer_def ret_defs)
qed

lemma ctl_reply_ok:
  assumes "steady 1 (cn_events (ct_conn s))"
  shows "\<exists>k. ctl_reply ret s =
    ioreturn (s\<lparr>ct_conn := (ct_conn s)\<lparr>cn_out := cn_out (ct_conn s) @ [of_int ret], cn_events := drop k (cn_events (ct_conn s))\<rparr>\<rparr>)"
  using rio_writenr_ok [OF assms, of "[of_int ret]"] by (auto simp: ctl_reply_def rSendBytes_def)

text \<open>The controller stores the message, starts the worker and waits for its signal.\<close>

lemma server_parse_configures:
  assumes "cn_in (ct_conn s) = 1 # int_bytes (int (Suc (length bs))) @ bs @ 0 # rest" and "0 \<notin> set bs" and "length bs < 1024"
    and "length message = 1024" and "length (ct_msglen s) = 4" and "length (ct_smem s) = SHARED_BLOCK_LEN" and "ct_chldPID s \<le> 0"
    and "ct_signals s = [[], [], [USR1]]" and "steady (length bs + 7) (cn_events (ct_conn s))" and "pid \<noteq> - 1"
    and "child = (\<lambda>m. m)"
  shows "\<exists>s'. server_parse pid child message s = ioreturn s' \<and> ct_chldPID s' = pid \<and>
    ct_smem s' = int_bytes (int (Suc (length bs))) @ bs @ 0 # drop (5 + length bs) (ct_smem s) \<and>
    cn_out (ct_conn s') = cn_out (ct_conn s) @ [0] \<and> cn_in (ct_conn s') = rest"
proof -
  let ?c = "ct_conn s" and ?n = "Suc (length bs)"
  let ?in = "int_bytes (int ?n) @ bs @ 0 # rest"
  have st1: "steady 1 (cn_events ?c)" using assms(9) by (rule steady_mono) simp
  obtain k1 where k1: "k1 \<le> 1" "rio_readnr [0] 1 ?c = ioreturn (?c\<lparr>cn_in := ?in, cn_events := drop k1 (cn_events ?c)\<rparr>, [1], 1)"
    using rio_readnr_ok [OF st1, of "[0]"] assms(1) by auto
  let ?c1 = "?c\<lparr>cn_in := ?in, cn_events := drop k1 (cn_events ?c)\<rparr>"
  have recv: "rRecvBytes [0] 1 ?c = ioreturn (?c1, [1], RET_SUCC)" using k1(2) by (simp add: rRecvBytes_def)
  have st2: "steady (?n + 4 + 1) (cn_events ?c1)" using steady_drop [of 1 "?n + 5" "cn_events ?c" k1] k1(1) assms(9) by (simp add: add.commute)
  have "steady (length (bs @ [0]) + 4) (cn_events ?c1)" using st2 by (rule steady_mono) simp
  then obtain k2 where k2: "k2 \<le> ?n + 4" "rReceiveMessage message (ct_msglen s) ?c1 =
      ioreturn (?c1\<lparr>cn_in := rest, cn_events := drop k2 (cn_events ?c1)\<rparr>, bs @ 0 # drop ?n message, int_bytes (int ?n), RET_SUCC)"
    using rReceiveMessage_ok [of ?c1 "bs @ [0]" rest "ct_msglen s" message] assms(3-5) by auto
  let ?c2 = "?c1\<lparr>cn_in := rest, cn_events := drop k2 (cn_events ?c1)\<rparr>"
  have st3: "steady 1 (cn_events ?c2)" using steady_drop [OF st2 k2(1)] by simp
  let ?smem = "int_bytes (int ?n) @ bs @ 0 # drop (5 + length bs) (ct_smem s)"
  have set: "setMessage (bs @ 0 # drop ?n message) (ct_smem s) = Inr ?smem"
    using setMessage_ok [OF refl assms(2), of "ct_smem s" "drop ?n message"] assms(3,6) by (simp add: SHARED_BLOCK_LEN_def add.commute)
  let ?s = "s\<lparr>ct_conn := ?c2, ct_msglen := int_bytes (int ?n), ct_smem := ?smem, ct_sigusr2 := 1, ct_sigalrm := 1, ct_chldPID := pid,
      ct_signals := [], ct_sigusr1 := 0\<rparr>"
  have out: "doConfigure_out RET_SUCC (bs @ 0 # drop ?n message) ?s = ctl_reply RET_SUCC ?s"
    by (simp add: doConfigure_out_def ret_defs iobind_def split: option.splits sum.splits)
  obtain k3 where k3: "ctl_reply RET_SUCC ?s = ioreturn (?s\<lparr>ct_conn := ?c2\<lparr>cn_out := cn_out ?c2 @ [0], cn_events := drop k3 (cn_events ?c2)\<rparr>\<rparr>)"
    using ctl_reply_ok [of ?s RET_SUCC] st3 by (auto simp: RET_SUCC_def)
  have "server_parse pid child message s = doConfigure_out RET_SUCC (bs @ 0 # drop ?n message) ?s"
    using recv k2(2) set assms(7,8,10,11)
    by (simp add: server_parse_def doConfigure_def ctl_look_def SIG_CONF_def SIG_TERM_def spinAND3_def spin.simps isLocked_def
        setLock_def release_def Let_def)
  then show ?thesis using out k3 by simp
qed

text \<open>Handlers release locks and change nothing else that a spinning loop looks at.\<close>

lemma sigchldHandler_fields [simp]:
  "ct_sigalrm (sigchldHandler pids s) = ct_sigalrm s" "ct_conn (sigchldHandler pids s) = ct_conn s"
proof -
  have "ct_sigalrm (fold (\<lambda>x s. if x = ct_chldPID s then s\<lparr>ct_chldPID := - 1\<rparr> else s) pids s) = ct_sigalrm s"
      "ct_conn (fold (\<lambda>x s. if x = ct_chldPID s then s\<lparr>ct_chldPID := - 1\<rparr> else s) pids s) = ct_conn s"
    by (induction pids arbitrary: s) auto
  then show "ct_sigalrm (sigchldHandler pids s) = ct_sigalrm s" "ct_conn (sigchldHandler pids s) = ct_conn s"
    by (simp_all add: sigchldHandler_def Let_def)
qed

lemma fold_ctl_handle_fields:
  "ct_sigalrm (fold ctl_handle b s) = (if ALRM \<in> set b then 0 else ct_sigalrm s)" "ct_conn (fold ctl_handle b s) = ct_conn s"
proof (induction b arbitrary: s)
  case (Cons x b)
  {
    case 1
    then show ?case using Cons.IH(1) [of "ctl_handle x s"] by (cases x) (auto simp: release_def)
  next
    case 2
    then show ?case using Cons.IH(2) [of "ctl_handle x s"] by (cases x) auto
  }
qed simp_all

lemma ctl_look_conn [simp]: "ct_conn (ctl_look s) = ct_conn s"
  by (simp add: ctl_look_def fold_ctl_handle_fields split: list.splits)

lemma spin_returns:
  assumes "\<And>s. ct_sigalrm s = 0 \<Longrightarrow> \<not> locked s" and "ct_sigalrm s = 0 \<or> (\<exists>b \<in> set (ct_signals s). ALRM \<in> set b)"
  shows "\<exists>s'. spin locked s = ioreturn s' \<and> ct_conn s' = ct_conn s"
  using assms(2)
proof (induction "length (ct_signals s)" arbitrary: s rule: less_induct)
  case less
  show ?case
  proof (cases "locked s")
    case True
    then have nz: "ct_sigalrm s \<noteq> 0" using assms(1) by blast
    then obtain b bs where b: "ct_signals s = b # bs" "ALRM \<in> set b \<or> (\<exists>b \<in> set bs. ALRM \<in> set b)"
      using less.prems by (cases "ct_signals s") auto
    have sig: "ct_signals (ctl_look s) = bs" using b(1) by (simp add: ctl_look_def)
    have "ct_sigalrm (ctl_look s) = 0 \<or> (\<exists>b \<in> set (ct_signals (ctl_look s)). ALRM \<in> set b)"
      using b by (auto simp: ctl_look_def fold_ctl_handle_fields)
    then show ?thesis using less.hyps [of "ctl_look s"] sig b(1) True by (simp add: spin.simps [of locked s])
  qed (simp add: spin.simps)
qed

lemma rKill_fields:
  assumes "rKill pid sig s = (s', ret)"
  shows "ct_conn s' = ct_conn s" "ct_signals s' = ct_signals s" "ct_sigalrm s' = ct_sigalrm s" "ret \<in> {RET_SUCC, RET_EKILL, RET_EPROC}"
  using assms by (auto simp: rKill_def Let_def split: list.splits if_splits)

lemma rTerminate_returns:
  assumes "\<exists>b \<in> set (ct_signals s). ALRM \<in> set b"
  shows "\<exists>s' ret. rTerminate s = ioreturn (s', ret) \<and> ct_conn s' = ct_conn s \<and> ret \<in> {RET_SUCC, RET_EKILL, RET_EPROC}"
proof -
  let ?s = "ctl_look (s\<lparr>ct_sigchld := setLock (ct_sigchld s), ct_sigalrm := setLock (ct_sigalrm s)\<rparr>)"
  have a: "ct_sigalrm ?s = 0 \<or> (\<exists>b \<in> set (ct_signals ?s). ALRM \<in> set b)"
    using assms by (cases "ct_signals s") (auto simp: ctl_look_def fold_ctl_handle_fields)
  obtain u ret where k: "rKill (ct_chldPID ?s) KillINT ?s = (u, ret)" by fastforce
  note kf = rKill_fields [OF k]
  have "\<exists>u'. spinAND u = ioreturn u' \<and> ct_conn u' = ct_conn u" unfolding spinAND_def
    by (rule spin_returns) (use a kf(2,3) in \<open>auto simp: isLocked_def\<close>)
  then obtain u' where u': "spinAND u = ioreturn u'" "ct_conn u' = ct_conn s" using kf(1) by auto
  obtain v ret' where t: "rKill (ct_chldPID u') KillTERM u' = (v, ret')" by fastforce
  show ?thesis using k u' t kf(1,4) rKill_fields(1,4) [OF t] by (auto simp: rTerminate_def Let_def)
qed

text \<open>The settings of the client while its command line is read.\<close>

definition client_ok :: "client_opts \<Rightarrow> bool" where
  "client_ok st \<longleftrightarrow> is_int (co_timelen st) \<and> is_int (co_localTime st) \<and> is_int (co_size st) \<and> is_int (co_loop st) \<and>
     co_reverse st \<in> {0, FLAG_REVERSE}"

lemma is_int_consts: "is_int 2" "is_int 3" "is_int 200"
  by (simp_all add: is_int_def)

lemma byte_mask: "0 \<le> (x :: int) AND 255" "(x :: int) AND 255 \<le> 255" "is_int (x AND 255)"
proof -
  have "x AND 255 = x mod 256" using take_bit_eq_mask [of 8 x] by (simp add: mask_eq_exp_minus_1 take_bit_eq_mod)
  moreover have "0 \<le> x mod 256 \<and> x mod 256 < 256" by simp
  ultimately show b: "0 \<le> x AND 255" "x AND 255 \<le> 255" by linarith+
  show "is_int (x AND 255)" using order_trans [OF _ b(1), of "- (2 ^ 31)"] order_le_less_trans [OF b(2), of "2 ^ 31"] by (simp add: is_int_def)
qed

section \<open>Properties\<close>



text \<open>
  C27: the configuration reaches the worker. What \<open>reconfigureServer\<close> of the client sends, cut into pieces
  in any way, makes the controller store a message in the shared block from which the worker takes
  the type, the direction, the time and the size that the client was asked for; the worker answers with
  \<open>SIGUSR1\<close> and the controller with \<open>RET_SUCC\<close>.
\<close>

theorem configuration_reaches_worker:
  assumes "client_message False st = (type, arg, arg2)" and "message_ok (type, arg, arg2)" and "co_reverse st \<in> {0, FLAG_REVERSE}" and "0 < arg"
    and "length message = 1024" and "length sendbuf = 2048" and "cn_in c = b # brest" and "steady 42 (cn_events c)"
    and "length local = 1024" and "length (ct_msglen s) = 4" and "length (ct_smem s) = SHARED_BLOCK_LEN" and "ct_chldPID s \<le> 0"
    and "ct_signals s = [[], [], [USR1]]" and "steady 42 (cn_events (ct_conn s))" and "0 < pid"
  shows "\<exists>c' buf sent s'. reconfigureServer False st message sendbuf c = ioreturn (c', buf, None) \<and> cn_out c' = cn_out c @ sent \<and>
    server_parse pid (\<lambda>m. m) local (s\<lparr>ct_conn := (ct_conn s)\<lparr>cn_in := sent\<rparr>\<rparr>) = ioreturn s' \<and>
    cn_out (ct_conn s') = cn_out (ct_conn s) @ [of_int RET_SUCC] \<and>
    configure (replicate 256 0) worker_start (ct_smem s') =
      Inr (\<lparr>wk_type = type, wk_arg = arg, wk_arg2 = (if 0 < co_size st then co_size st else 200), wk_running = False\<rparr>, ct_smem s', USR1)"
proof -
  define bs where "bs = bytes_of (control_text (type, arg, arg2))"
  have l: "length bs \<le> 35" "0 \<notin> set bs" using control_text_bytes [OF assms(2)] by (simp_all add: bs_def)
  let ?sent = "1 # int_bytes (int (Suc (length bs))) @ bs @ [0]"
  have st: "steady (length bs + 7) (cn_events c)" "steady (length bs + 7) (cn_events (ct_conn s))"
    using steady_mono [OF assms(8)] steady_mono [OF assms(14)] l(1) by simp_all
  obtain c' buf where c': "reconfigureServer False st message sendbuf c = ioreturn (c', buf, None)" "cn_out c' = cn_out c @ ?sent"
    using reconfigureServer_sends [of False st bs message sendbuf c b brest] assms(1,2,5-7) st(1) by (auto simp: bs_def)
  let ?s = "s\<lparr>ct_conn := (ct_conn s)\<lparr>cn_in := ?sent\<rparr>\<rparr>"
  obtain s' where s': "server_parse pid (\<lambda>m. m) local ?s = ioreturn s'"
      "ct_smem s' = int_bytes (int (Suc (length bs))) @ bs @ 0 # drop (5 + length bs) (ct_smem s)" "cn_out (ct_conn s') = cn_out (ct_conn s) @ [0]"
    using server_parse_configures [of ?s bs "[]" local pid "\<lambda>m. m"] l assms(9-15) st(2) by auto
  have type: "type = (if 0 < co_size st then TYPE_FIX else TYPE_LONG) OR co_reverse st" "0 < co_size st \<Longrightarrow> arg2 = co_size st"
    using assms(1) by (auto simp: client_message_def Let_def)
  have "configure (replicate 256 0) worker_start (ct_smem s') =
      Inr (\<lparr>wk_type = type, wk_arg = arg, wk_arg2 = (if 0 < co_size st then co_size st else 200), wk_running = False\<rparr>, ct_smem s', USR1)"
    using configure_text [OF assms(2) s'(2) bs_def, of "replicate 256 0" worker_start] type assms(3,4)
    by (cases "0 < co_size st") (auto simp: TYPE_LONG_def TYPE_FIX_def FLAG_REVERSE_def worker_start_def to_char_def)
  then show ?thesis using c' s'(1,3) by (auto simp: RET_SUCC_def)
qed

theorem configuration_reaches_worker_witness:
  "\<exists>c' buf sent s'. reconfigureServer False (client_init\<lparr>co_size := 1000, co_localTime := 200, co_reverse := 2\<rparr>) (replicate 1024 0) (replicate 2048 0)
      \<lparr>cn_in = [0], cn_out = [], cn_events = replicate 42 (Chunk 3), cn_errno = 0\<rparr> = ioreturn (c', buf, None) \<and> cn_out c' = sent \<and>
    server_parse 77 (\<lambda>m. m) (replicate 1024 9) \<lparr>ct_chldPID = 0, ct_completeKill = False, ct_sigusr1 = 0, ct_sigusr2 = 0, ct_sigchld = 0, ct_sigalrm = 0,
      ct_smem = replicate 4096 0, ct_conn = \<lparr>cn_in = sent, cn_out = [], cn_events = replicate 42 (Chunk 5), cn_errno = 0\<rparr>,
      ct_sendbuf = replicate 2048 0, ct_msglen = [0, 0, 0, 0], ct_signals = [[], [], [USR1]], ct_killres = [], ct_kills = []\<rparr> = ioreturn s' \<and>
    cn_out (ct_conn s') = [of_int RET_SUCC] \<and>
    configure (replicate 256 0) worker_start (ct_smem s') =
      Inr (\<lparr>wk_type = 3, wk_arg = 200, wk_arg2 = 1000, wk_running = False\<rparr>, ct_smem s', USR1)"
proof -
  let ?st = "client_init\<lparr>co_size := 1000, co_localTime := 200, co_reverse := 2\<rparr>"
  let ?c = "\<lambda>i k. \<lparr>cn_in = i, cn_out = [], cn_events = replicate 42 (Chunk k), cn_errno = 0\<rparr>"
  let ?s = "\<lparr>ct_chldPID = 0, ct_completeKill = False, ct_sigusr1 = 0, ct_sigusr2 = 0, ct_sigchld = 0, ct_sigalrm = 0,
      ct_smem = replicate 4096 0, ct_conn = ?c [] 5,
      ct_sendbuf = replicate 2048 0, ct_msglen = [0, 0, 0, 0], ct_signals = [[], [], [USR1]], ct_killres = [], ct_kills = []\<rparr>"
  have m: "client_message False ?st = (3, 200, 1000)" by (simp add: client_message_def client_init_def TYPE_FIX_def)
  have ok: "message_ok (3, 200, 1000)" by (simp add: message_ok_def is_int_def)
  have st: "steady 42 (replicate 42 (Chunk 3))" "steady 42 (replicate 42 (Chunk 5))" by (simp_all add: steady_def list_all_iff is_chunk_def)
  from configuration_reaches_worker [OF m ok, of "replicate 1024 0" "replicate 2048 0" "?c [0] 3" 0 "[]" "replicate 1024 9" ?s 77] st
  show ?thesis by (simp add: FLAG_REVERSE_def SHARED_BLOCK_LEN_def client_init_def)
qed

text \<open>
  C40: the client goes on whatever the controller answers: it stores the result of \<open>rRecvBytes\<close> in the
  variable that has just received the answer. So a configuration that was refused, or a worker that did
  not start, is taken for success.
\<close>

theorem reconfigureServer_ignores_refusal:
  assumes "message_ok (client_message probe st)" and "length message = 1024" and "length sendbuf = 2048"
    and "cn_in c = b # rest" and "b \<noteq> of_int RET_SUCC" and "steady 42 (cn_events c)"
  shows "\<exists>c' buf. reconfigureServer probe st message sendbuf c = ioreturn (c', buf, None)"
proof -
  have "steady (length (bytes_of (control_text (client_message probe st))) + 7) (cn_events c)"
    using assms(6) by (rule steady_mono) (use control_text_bytes(1) [OF assms(1)] in simp)
  from reconfigureServer_sends [OF assms(1) refl assms(2-4) this] show ?thesis by blast
qed

theorem reconfigureServer_ignores_refusal_witness:
  "\<exists>c' buf. reconfigureServer False (client_init\<lparr>co_size := 0, co_localTime := 9\<rparr>) (replicate 1024 0) (replicate 2048 0)
      \<lparr>cn_in = [1], cn_out = [], cn_events = replicate 42 (Chunk 1), cn_errno = 0\<rparr> = ioreturn (c', buf, None)"
proof -
  have "message_ok (client_message False (client_init\<lparr>co_size := 0, co_localTime := 9\<rparr>))"
    by (simp add: message_ok_def client_message_def client_init_def TYPE_LONG_def is_int_def)
  moreover have "steady 42 (replicate 42 (Chunk 1))" by (simp add: steady_def list_all_iff is_chunk_def)
  ultimately show ?thesis
    using reconfigureServer_ignores_refusal [of False "client_init\<lparr>co_size := 0, co_localTime := 9\<rparr>" "replicate 1024 0" "replicate 2048 0"
      "\<lparr>cn_in = [1], cn_out = [], cn_events = replicate 42 (Chunk 1), cn_errno = 0\<rparr>" 1 "[]"] by (simp add: RET_SUCC_def)
qed



text \<open>
  a worker that ends by itself just before it is killed: its \<open>SIGCHLD\<close> sets \<open>chldPID\<close> to -1, and
  \<open>rTerminate\<close> then calls \<open>kill(-1, SIGINT)\<close>, which is sent to every process that the controller may
  signal, and reports success.
\<close>

theorem rTerminate_kills_everyone:
  assumes "0 < ct_chldPID s" and "ct_signals s = [CHLD [ct_chldPID s]] # bs" and "ct_killres s = []"
  shows "\<exists>s'. rTerminate s = ioreturn (s', RET_SUCC) \<and> ct_kills s' = ct_kills s @ [(- 1, KillINT)]"
  using assms
  by (simp add: rTerminate_def ctl_look_def sigchldHandler_def rKill_def Let_def RET_SUCC_def spinAND_def spin.simps isLocked_def release_def)

theorem rTerminate_kills_everyone_witness:
  "\<exists>s'. rTerminate \<lparr>ct_chldPID = 77, ct_completeKill = False, ct_sigusr1 = 0, ct_sigusr2 = 0, ct_sigchld = 0, ct_sigalrm = 0,
      ct_smem = [], ct_conn = \<lparr>cn_in = [], cn_out = [], cn_events = [], cn_errno = 0\<rparr>,
      ct_sendbuf = [], ct_msglen = [], ct_signals = [[CHLD [77]]], ct_killres = [], ct_kills = []\<rparr> = ioreturn (s', RET_SUCC) \<and>
    ct_kills s' = [(- 1, KillINT)]"
  using rTerminate_kills_everyone [of "\<lparr>ct_chldPID = 77, ct_completeKill = False, ct_sigusr1 = 0, ct_sigusr2 = 0, ct_sigchld = 0, ct_sigalrm = 0,
      ct_smem = [], ct_conn = \<lparr>cn_in = [], cn_out = [], cn_events = [], cn_errno = 0\<rparr>,
      ct_sendbuf = [], ct_msglen = [], ct_signals = [[CHLD [77]]], ct_killres = [], ct_kills = []\<rparr>" "[]"] by simp

text \<open>
  the controller takes messages of up to 1024 bytes, the worker copies them into an array of 256: a
  longer message makes \<open>configure\<close> write past its end.
\<close>

theorem configure_overflows:
  assumes "0 \<notin> set bs" and "256 \<le> length bs" and "length bs < 1024" and "length smem = SHARED_BLOCK_LEN" and "length message = 256"
  shows "\<exists>smem'. setMessage (bs @ [0]) smem = Inr smem' \<and> configure message w smem' = Inl OutOfBounds"
proof -
  let ?n = "Suc (length bs)"
  let ?smem = "int_bytes (int ?n) @ bs @ 0 # drop (5 + length bs) smem"
  have set: "setMessage (bs @ [0]) smem = Inr ?smem"
    using setMessage_ok [OF refl assms(1), of smem "[]"] assms(3,4) by (simp add: SHARED_BLOCK_LEN_def add.commute)
  have u: "unat (of_nat ?n :: size_t) = ?n" using assms(3) by (simp add: unat_of_nat del: of_nat_Suc)
  have "bytes_int (int_bytes (int ?n)) = int ?n" using assms(3) by (intro bytes_int_bytes) simp_all
  moreover have "mem_read ?smem 0 4 = Inr (int_bytes (int ?n))" by (simp add: mem_read_ok)
  moreover have "mem_read ?smem 4 (of_nat ?n) = Inr (bs @ [0])" using mem_read_ok [of 4 "of_nat ?n" ?smem] u by simp
  moreover have "mem_write message 0 (bs @ [0]) = Inl OutOfBounds" using assms(2,5) by (simp add: mem_write_def)
  ultimately have "getMessage message ?smem = Inl OutOfBounds" by (simp add: getMessage_def)
  then show ?thesis using set by (simp add: configure_def)
qed

theorem configure_overflows_witness:
  "\<exists>smem'. setMessage (replicate 300 65 @ [0]) (replicate 4096 0) = Inr smem' \<and>
    configure (replicate 256 0) worker_start smem' = Inl OutOfBounds"
  by (rule configure_overflows) (simp_all add: SHARED_BLOCK_LEN_def)

end
