(* ===== verification/Mperf_Udp.thy ===== *)
theory Mperf_Udp
  imports Prelude
begin

text \<open>
  \<open>3rd/mperf/src/udpsender.c\<close> and \<open>udpreceiver.c\<close>: the sender numbers its packets and counts the answers
  in a second thread, the receiver sends every packet back. How the system calls of a run end is a list
  of events; when it is used up the thread is still running. A datagram is the list of its bytes, the
  network is a list of datagrams. The two threads of the sender share the socket only.
\<close>

section \<open>Setting up the sockets\<close>

definition MAX_ATTEMPT :: nat where "MAX_ATTEMPT = 20"

text \<open>
  \<open>initConnection\<close> of the sender: \<open>dial\<close> gives the result of \<open>netdial\<close> for every attempt, \<open>aton\<close> tells
  whether the address is valid. The result is the socket, if there is one, and all sockets opened.
\<close>

primrec initConnection_loop :: "nat \<Rightarrow> (nat \<Rightarrow> int) \<Rightarrow> bool \<Rightarrow> int list \<Rightarrow> int option \<times> int list" where
  "initConnection_loop 0 dial aton opened = (None, opened)"
| "initConnection_loop (Suc left) dial aton opened =
     (let connfd = dial (MAX_ATTEMPT - left) in
      if connfd < 0 then initConnection_loop left dial aton opened
      else if \<not> aton then initConnection_loop left dial aton (opened @ [connfd])
      else (Some connfd, opened @ [connfd]))"

definition initConnection :: "(nat \<Rightarrow> int) \<Rightarrow> bool \<Rightarrow> int option \<times> int list" where
  "initConnection dial aton = initConnection_loop MAX_ATTEMPT dial aton []"

section \<open>The sender\<close>

datatype thread_status = Running | Finished | GaveUp

record udp_sender =
  un_connfd :: int
  un_toSend :: int
  un_sent :: int
  un_received :: int
  un_wire :: "byte list list"
  un_sent_log :: "int list"
  un_received_log :: "int list"

text \<open>An event is the way in which \<open>select\<close> and \<open>sendto\<close> end; after a failure the socket is set up again.\<close>

datatype send_event = SelectFails | NotWritable | SendFails "nat \<Rightarrow> int" | SendWorks

definition packet_bytes :: "int \<Rightarrow> byte list \<Rightarrow> byte list" where
  "packet_bytes n buf = host_bytes64 (of_int n) @ drop 8 buf"

definition packet_number :: "byte list \<Rightarrow> int" where
  "packet_number p = sint (host_word64 (take 8 p))"

function do_send :: "bool \<Rightarrow> send_event list \<Rightarrow> nat \<Rightarrow> byte list \<Rightarrow> udp_sender \<Rightarrow> udp_sender \<times> thread_status" where
  "do_send aton [] attempt sendBuf s = (s, Running)"
| "do_send aton (SelectFails # es) attempt sendBuf s =
     (if attempt + 1 > MAX_ATTEMPT then (s, GaveUp) else do_send aton es (attempt + 1) sendBuf s)"
| "do_send aton (SendFails dial # es) attempt sendBuf s =
     (let s = s\<lparr>un_sent := un_sent s + 1\<rparr>; sendBuf = packet_bytes (un_sent s) sendBuf in
      if attempt + 1 > MAX_ATTEMPT then (s, GaveUp)
      else case fst (initConnection dial aton) of
        None \<Rightarrow> (s, GaveUp)
      | Some fd \<Rightarrow> do_send aton es (attempt + 1) sendBuf (s\<lparr>un_connfd := fd\<rparr>))"
| "do_send aton (SendWorks # es) attempt sendBuf s =
     (let s = s\<lparr>un_sent := un_sent s + 1\<rparr>; sendBuf = packet_bytes (un_sent s) sendBuf;
          s = s\<lparr>un_wire := un_wire s @ [sendBuf], un_sent_log := un_sent_log s @ [un_sent s]\<rparr> in
      if un_sent s = un_toSend s then (s, Finished) else do_send aton es 1 sendBuf s)"
| "do_send aton (NotWritable # es) attempt sendBuf s =
     (if attempt + 1 > MAX_ATTEMPT then (s, GaveUp)
      else let s = s\<lparr>un_sent_log := un_sent_log s @ [un_sent s]\<rparr> in
        if un_sent s = un_toSend s then (s, Finished) else do_send aton es 1 sendBuf s)"
  by pat_completeness auto

termination do_send
  by (relation "measure (\<lambda>(aton, es, attempt, sendBuf, s). length es)") simp_all

datatype recv_event = RecvFails "nat \<Rightarrow> int" | RecvPacket "byte list"

fun do_receive :: "bool \<Rightarrow> recv_event list \<Rightarrow> nat \<Rightarrow> udp_sender \<Rightarrow> udp_sender \<times> thread_status" where
  "do_receive aton es attempt s =
     (if un_received s = un_toSend s then (s, Finished)
      else case es of
        [] \<Rightarrow> (s, Running)
      | RecvFails dial # es \<Rightarrow>
          if attempt + 1 > MAX_ATTEMPT then (s, GaveUp)
          else (case fst (initConnection dial aton) of
            None \<Rightarrow> (s, GaveUp)
          | Some fd \<Rightarrow> do_receive aton es (attempt + 1) (s\<lparr>un_connfd := fd\<rparr>))
      | RecvPacket p # es \<Rightarrow>
          do_receive aton es 1 (s\<lparr>un_received := un_received s + 1, un_received_log := un_received_log s @ [packet_number p]\<rparr>))"

declare do_receive.simps [simp del]

section \<open>The receiver\<close>

datatype local_ip = AnyAddress | GoodAddress | BadAddress

text \<open>
  \<open>initConnection\<close> of the receiver: the results of \<open>socket\<close> and whether \<open>bind\<close> works, for every attempt.
\<close>

primrec receiver_init_loop :: "nat \<Rightarrow> (nat \<Rightarrow> int \<times> bool) \<Rightarrow> local_ip \<Rightarrow> int option" where
  "receiver_init_loop 0 sock ip = None"
| "receiver_init_loop (Suc left) sock ip =
     (let (connfd, bound) = sock (MAX_ATTEMPT - left) in
      if connfd = - 1 then receiver_init_loop left sock ip
      else if ip = BadAddress then None
      else if \<not> bound then receiver_init_loop left sock ip
      else Some connfd)"

definition receiver_initConnection :: "(nat \<Rightarrow> int \<times> bool) \<Rightarrow> local_ip \<Rightarrow> int option" where
  "receiver_initConnection sock ip = receiver_init_loop MAX_ATTEMPT sock ip"

record udp_receiver =
  ue_connfd :: int
  ue_recvBuf :: "byte list"
  ue_sent :: int
  ue_received :: int
  ue_wire :: "byte list list"

definition RECV_LEN :: nat where "RECV_LEN = 65536"

text \<open>One call of \<open>recvfrom\<close> and one of \<open>sendto\<close>; a datagram longer than the buffer is cut.\<close>

datatype echo_event = EchoRecvFails | EchoPacket "byte list" bool

primrec receiver_main ::
  "local_ip \<Rightarrow> ((nat \<Rightarrow> int \<times> bool) \<times> echo_event) list \<Rightarrow> bool \<Rightarrow> udp_receiver \<Rightarrow> (udp_receiver \<times> thread_status) res" where
  "receiver_main ip [] reinit s = Inr (s, Running)"
| "receiver_main ip (e # es) reinit s =
     (case (if reinit then receiver_initConnection (fst e) ip else Some (ue_connfd s)) of
        None \<Rightarrow> Inr (s, GaveUp)
      | Some fd \<Rightarrow>
          let s = s\<lparr>ue_connfd := fd\<rparr> in
          case snd e of
            EchoRecvFails \<Rightarrow> receiver_main ip es True s
          | EchoPacket p works \<Rightarrow>
              let p = take RECV_LEN p; sz = of_nat (length p) in
              rbind (mem_write (ue_recvBuf s) 0 p) (\<lambda>buf.
              let s = s\<lparr>ue_recvBuf := buf, ue_received := ue_received s + 1\<rparr> in
              rbind (mem_read buf 0 sz) (\<lambda>q.
              if \<not> works then receiver_main ip es True s
              else receiver_main ip es False (s\<lparr>ue_wire := ue_wire s @ [q], ue_sent := ue_sent s + 1\<rparr>))))"

section \<open>Lemmas\<close>

lemma packet_number_bytes:
  assumes "0 \<le> n" and "n < 2 ^ 63"
  shows "packet_number (packet_bytes n buf) = n"
proof -
  have "take 8 (packet_bytes n buf) = host_bytes64 (of_int n)" by (simp add: packet_bytes_def host_bytes64_def host_bytes32_def)
  then show ?thesis using assms by (simp add: packet_number_def signed_of_int signed_take_bit_int_eq_self)
qed

text \<open>The packets on the wire carry the numbers from 1 on, while no call of \<open>sendto\<close> fails.\<close>

definition numbered :: "udp_sender \<Rightarrow> bool" where
  "numbered s \<longleftrightarrow> 0 \<le> un_sent s \<and> map packet_number (un_wire s) = [1..un_sent s]"

definition send_failed :: "send_event \<Rightarrow> bool" where
  "send_failed e \<longleftrightarrow> (case e of SendFails d \<Rightarrow> True | _ \<Rightarrow> False)"

lemma numbered_next:
  assumes "numbered s" and "un_sent s < 2 ^ 62"
  shows "numbered (s\<lparr>un_sent := un_sent s + 1, un_wire := un_wire s @ [packet_bytes (un_sent s + 1) buf], un_sent_log := l\<rparr>)"
proof -
  have "packet_number (packet_bytes (un_sent s + 1) buf) = un_sent s + 1"
    using assms by (intro packet_number_bytes) (auto simp: numbered_def)
  moreover have "[1..un_sent s + 1] = [1..un_sent s] @ [un_sent s + 1]" using assms(1) by (simp add: numbered_def upto_rec2)
  ultimately show ?thesis using assms by (simp add: numbered_def)
qed

lemma do_send_numbered:
  assumes "list_all (\<lambda>e. \<not> send_failed e) es" and "numbered s" and "un_sent s + int (length es) < 2 ^ 62"
    and "do_send aton es attempt sendBuf s = (s', status)"
  shows "numbered s' \<and> un_toSend s' = un_toSend s \<and> (status = Finished \<longrightarrow> un_sent s' = un_toSend s)"
  using assms
proof (induction aton es attempt sendBuf s rule: do_send.induct)
  case (2 aton es attempt sendBuf s)
  then show ?case by (auto split: if_splits)
next
  case (3 aton dial es attempt sendBuf s)
  then show ?case by (simp add: send_failed_def)
next
  case (4 aton es attempt sendBuf s)
  let ?s = "s\<lparr>un_sent := un_sent s + 1, un_wire := un_wire s @ [packet_bytes (un_sent s + 1) sendBuf], un_sent_log := un_sent_log s @ [un_sent s + 1]\<rparr>"
  have "numbered ?s" using 4(3,4) by (intro numbered_next) auto
  then show ?case using 4 by (auto simp: Let_def split: if_splits)
next
  case (5 aton es attempt sendBuf s)
  have "numbered (s\<lparr>un_sent_log := un_sent_log s @ [un_sent s]\<rparr>)" using 5(3) by (simp add: numbered_def)
  then show ?case using 5 by (auto simp: Let_def split: if_splits)
qed simp

text \<open>Past the number of packets to send the loop has no end.\<close>

lemma do_send_past:
  assumes "un_toSend s < un_sent s"
  shows "snd (do_send aton es attempt sendBuf s) \<noteq> Finished"
  using assms
  by (induction aton es attempt sendBuf s rule: do_send.induct) (auto simp: Let_def split: option.splits)

lemma length_packet_bytes: "8 \<le> length buf \<Longrightarrow> length (packet_bytes n buf) = length buf"
  by (simp add: packet_bytes_def host_bytes64_def host_bytes32_def)

lemma do_send_all:
  assumes "un_toSend s = un_sent s + int (Suc n)" and "8 \<le> length sendBuf" and "list_all (\<lambda>p. length p = length sendBuf) (un_wire s)"
  shows "\<exists>s'. do_send aton (replicate (Suc n) SendWorks) attempt sendBuf s = (s', Finished) \<and> un_sent s' = un_toSend s \<and>
    un_received s' = un_received s \<and> un_toSend s' = un_toSend s \<and> un_received_log s' = un_received_log s \<and>
    list_all (\<lambda>p. length p = length sendBuf) (un_wire s')"
  using assms
proof (induction n arbitrary: attempt sendBuf s)
  case 0
  then show ?case by (simp add: Let_def length_packet_bytes)
next
  case (Suc n)
  let ?b = "packet_bytes (un_sent s + 1) sendBuf"
  let ?s = "s\<lparr>un_sent := un_sent s + 1, un_wire := un_wire s @ [?b], un_sent_log := un_sent_log s @ [un_sent s + 1]\<rparr>"
  have b: "length ?b = length sendBuf" using Suc.prems(2) by (rule length_packet_bytes)
  obtain s' where "do_send aton (replicate (Suc n) SendWorks) 1 ?b ?s = (s', Finished)"
      "un_sent s' = un_toSend ?s" "un_received s' = un_received ?s" "un_toSend s' = un_toSend ?s" "un_received_log s' = un_received_log ?s"
      "list_all (\<lambda>p. length p = length sendBuf) (un_wire s')"
    using Suc.IH [of ?s ?b 1] Suc.prems b by auto
  moreover have "do_send aton (replicate (Suc (Suc n)) SendWorks) attempt sendBuf s = do_send aton (replicate (Suc n) SendWorks) 1 ?b ?s"
    using Suc.prems by (simp add: Let_def)
  ultimately show ?case by auto
qed

lemma do_receive_all:
  assumes "un_toSend s = un_received s + int (length ps)"
  shows "\<exists>s'. do_receive aton (map RecvPacket ps) attempt s = (s', Finished) \<and> un_received s' = un_toSend s \<and>
    un_received_log s' = un_received_log s @ map packet_number ps"
  using assms
proof (induction ps arbitrary: attempt s)
  case (Cons p ps)
  let ?s = "s\<lparr>un_received := un_received s + 1, un_received_log := un_received_log s @ [packet_number p]\<rparr>"
  have "do_receive aton (map RecvPacket (p # ps)) attempt s = do_receive aton (map RecvPacket ps) 1 ?s"
    using Cons.prems by (subst do_receive.simps) simp
  then show ?case using Cons.IH [of ?s 1] Cons.prems by auto
qed (subst do_receive.simps, simp)

text \<open>The receiver.\<close>

lemma echo_copy:
  assumes "length buf = RECV_LEN"
  shows "mem_write buf 0 (take RECV_LEN p) = Inr (take RECV_LEN p @ drop (length (take RECV_LEN p)) buf)"
    "mem_read (take RECV_LEN p @ drop (length (take RECV_LEN p)) buf) 0 (of_nat (length (take RECV_LEN p))) = Inr (take RECV_LEN p)"
proof -
  show "mem_write buf 0 (take RECV_LEN p) = Inr (take RECV_LEN p @ drop (length (take RECV_LEN p)) buf)"
    using assms by (subst mem_write_ok) simp_all
  have "length (take RECV_LEN p) < 2 ^ 64" by (simp add: RECV_LEN_def min_def)
  then have "unat (of_nat (length (take RECV_LEN p)) :: size_t) = length (take RECV_LEN p)" by (simp only: unat_of_nat) simp
  then show "mem_read (take RECV_LEN p @ drop (length (take RECV_LEN p)) buf) 0 (of_nat (length (take RECV_LEN p))) = Inr (take RECV_LEN p)"
    by (subst mem_read_ok) (simp_all add: min_def)
qed

definition echoes :: "((nat \<Rightarrow> int \<times> bool) \<times> echo_event) list \<Rightarrow> byte list list" where
  "echoes es = concat (map (\<lambda>e. case snd e of EchoPacket p works \<Rightarrow> if works then [take RECV_LEN p] else [] | _ \<Rightarrow> []) es)"

definition arrivals :: "((nat \<Rightarrow> int \<times> bool) \<times> echo_event) list \<Rightarrow> nat" where
  "arrivals es = length (filter (\<lambda>e. case snd e of EchoPacket p works \<Rightarrow> True | _ \<Rightarrow> False) es)"

text \<open>The first \<open>n\<close> events are handled: what was echoed and counted.\<close>

definition receiver_outcome ::
  "((nat \<Rightarrow> int \<times> bool) \<times> echo_event) list \<Rightarrow> udp_receiver \<Rightarrow> (udp_receiver \<times> thread_status) res \<Rightarrow> bool" where
  "receiver_outcome es s res \<longleftrightarrow>
     (\<exists>n s' status. res = Inr (s', status) \<and> n \<le> length es \<and> (status = Running \<longrightarrow> n = length es) \<and>
       ue_wire s' = ue_wire s @ echoes (take n es) \<and> ue_sent s' = ue_sent s + int (length (echoes (take n es))) \<and>
       ue_received s' = ue_received s + int (arrivals (take n es)))"

lemma echoes_Cons: "echoes (e # es) = echoes [e] @ echoes es" and arrivals_Cons: "arrivals (e # es) = arrivals [e] + arrivals es"
  by (simp_all add: echoes_def arrivals_def)

lemma receiver_outcome_step:
  assumes "receiver_outcome es u res" and "ue_wire u = ue_wire s @ echoes [e]"
    and "ue_sent u = ue_sent s + int (length (echoes [e]))" and "ue_received u = ue_received s + int (arrivals [e])"
  shows "receiver_outcome (e # es) s res"
proof -
  obtain n s' status where "res = Inr (s', status)" "n \<le> length es" "status = Running \<longrightarrow> n = length es"
      "ue_wire s' = ue_wire u @ echoes (take n es)" "ue_sent s' = ue_sent u + int (length (echoes (take n es)))"
      "ue_received s' = ue_received u + int (arrivals (take n es))"
    using assms(1) by (auto simp: receiver_outcome_def)
  then show ?thesis using assms(2-4) unfolding receiver_outcome_def
    by (intro exI [of _ "Suc n"] exI [of _ s'] exI [of _ status]) (simp add: echoes_Cons [of e "take n es"] arrivals_Cons [of e "take n es"])
qed

lemma receiver_main_outcome:
  assumes "length (ue_recvBuf s) = RECV_LEN"
  shows "receiver_outcome es s (receiver_main ip es reinit s)"
  using assms
proof (induction es arbitrary: reinit s)
  case Nil
  then show ?case by (simp add: receiver_outcome_def echoes_def arrivals_def)
next
  case (Cons e es)
  show ?case
  proof (cases "if reinit then receiver_initConnection (fst e) ip else Some (ue_connfd s)")
    case None
    then show ?thesis by (auto simp: receiver_outcome_def echoes_def arrivals_def intro!: exI [of _ 0])
  next
    case (Some fd)
    show ?thesis
    proof (cases "snd e")
      case EchoRecvFails
      have "receiver_main ip (e # es) reinit s = receiver_main ip es True (s\<lparr>ue_connfd := fd\<rparr>)" using Some EchoRecvFails by simp
      moreover have "receiver_outcome es (s\<lparr>ue_connfd := fd\<rparr>) (receiver_main ip es True (s\<lparr>ue_connfd := fd\<rparr>))"
        by (rule Cons.IH) (use Cons.prems in simp)
      ultimately show ?thesis
        using receiver_outcome_step [of es "s\<lparr>ue_connfd := fd\<rparr>" _ s e] EchoRecvFails by (simp add: echoes_def arrivals_def)
    next
      case (EchoPacket p works)
      let ?buf = "take RECV_LEN p @ drop (length (take RECV_LEN p)) (ue_recvBuf s)"
      let ?u = "s\<lparr>ue_connfd := fd, ue_recvBuf := ?buf, ue_received := ue_received s + 1\<rparr>"
      let ?v = "if works then ?u\<lparr>ue_wire := ue_wire s @ [take RECV_LEN p], ue_sent := ue_sent s + 1\<rparr> else ?u"
      have "receiver_main ip (e # es) reinit s = receiver_main ip es (\<not> works) ?v"
        using Some EchoPacket echo_copy [OF Cons.prems, of p] by (simp add: Let_def)
      moreover have "receiver_outcome es ?v (receiver_main ip es (\<not> works) ?v)"
        by (rule Cons.IH) (use Cons.prems in simp)
      ultimately show ?thesis
        using receiver_outcome_step [of es ?v "receiver_main ip es (\<not> works) ?v" s e] EchoPacket by (simp add: echoes_def arrivals_def)
    qed
  qed
qed

lemma receiver_main_running:
  assumes "length (ue_recvBuf s) = RECV_LEN"
  shows "\<exists>s'. receiver_main ip (map (\<lambda>p. (sock, EchoPacket p True)) ps) False s = Inr (s', Running)"
  using assms
proof (induction ps arbitrary: s)
  case (Cons p ps)
  let ?buf = "take RECV_LEN p @ drop (length (take RECV_LEN p)) (ue_recvBuf s)"
  let ?u = "s\<lparr>ue_recvBuf := ?buf, ue_received := ue_received s + 1, ue_wire := ue_wire s @ [take RECV_LEN p], ue_sent := ue_sent s + 1\<rparr>"
  have "length (ue_recvBuf ?u) = RECV_LEN" using Cons.prems by simp
  with Cons.IH [of ?u] show ?case using echo_copy [OF Cons.prems, of p] by (simp add: Let_def)
qed simp

section \<open>Properties\<close>

text \<open>
  the sender numbers its packets without gaps: for every run in which no \<open>sendto\<close> fails the packets
  on the wire carry the numbers from 1 to \<open>sent\<close>, and a sender that ends has sent \<open>toSend\<close> packets.
\<close>

theorem do_send_numbers_packets:
  assumes "list_all (\<lambda>e. \<not> send_failed e) es" and "un_sent s = 0" and "un_wire s = []" and "int (length es) < 2 ^ 62"
    and "do_send aton es 1 sendBuf s = (s', status)"
  shows "map packet_number (un_wire s') = [1..un_sent s'] \<and> (status = Finished \<longrightarrow> un_sent s' = un_toSend s)"
  using do_send_numbered [OF assms(1) _ _ assms(5)] assms(2-4) by (simp add: numbered_def)

theorem do_send_numbers_packets_witness:
  "\<exists>s'. do_send True [SendWorks, NotWritable, SelectFails, SendWorks] 1 (replicate 8 0) \<lparr>un_connfd = 3, un_toSend = 2, un_sent = 0, un_received = 0,
      un_wire = [], un_sent_log = [], un_received_log = []\<rparr> = (s', Finished) \<and> map packet_number (un_wire s') = [1..un_sent s'] \<and> un_sent s' = 2"
proof -
  let ?s = "\<lparr>un_connfd = 3, un_toSend = 2, un_sent = 0, un_received = 0, un_wire = [], un_sent_log = [], un_received_log = []\<rparr>"
  obtain s' where s': "do_send True [SendWorks, NotWritable, SelectFails, SendWorks] 1 (replicate 8 0) ?s = (s', Finished)"
    by (simp add: MAX_ATTEMPT_def Let_def)
  from do_send_numbers_packets [OF _ _ _ _ s'] s' show ?thesis by (simp add: send_failed_def)
qed

text \<open>
  the sender counts a packet as sent before \<open>sendto\<close> may fail. If the last packet fails once and the
  next attempt works, \<open>sent\<close> has passed \<open>toSend\<close> and the sender never ends, whatever happens later.
\<close>

theorem do_send_overshoots:
  assumes "un_sent s + 1 = un_toSend s" and "attempt < MAX_ATTEMPT" and "fst (initConnection dial aton) = Some fd"
  shows "snd (do_send aton (SendFails dial # SendWorks # es) attempt sendBuf s) \<noteq> Finished"
  using assms do_send_past by (simp add: Let_def)

theorem do_send_overshoots_witness:
  "snd (do_send True (SendFails (\<lambda>n. 4) # SendWorks # replicate 100 SendWorks) 1 (replicate 8 0) \<lparr>un_connfd = 3, un_toSend = 1, un_sent = 0,
      un_received = 0, un_wire = [], un_sent_log = [], un_received_log = []\<rparr>) \<noteq> Finished"
proof -
  have "fst (initConnection (\<lambda>n. 4) True) = Some 4" by (simp add: initConnection_def MAX_ATTEMPT_def numeral_eq_Suc)
  from do_send_overshoots [OF _ _ this] show ?thesis by (simp add: MAX_ATTEMPT_def del: do_send.simps)
qed

text \<open>
  a socket that is never writable is not given up: the count of attempts is reset after every
  one, and each time the log says that the last packet was sent.
\<close>

theorem do_send_never_gives_up:
  assumes "un_sent s \<noteq> un_toSend s"
  shows "do_send aton (replicate n NotWritable) 1 sendBuf s =
    (s\<lparr>un_sent_log := un_sent_log s @ replicate n (un_sent s)\<rparr>, Running)"
  using assms
proof (induction n arbitrary: s)
  case (Suc n)
  have "replicate n x @ [x] = x # replicate n x" for x :: int by (simp add: replicate_append_same)
  then show ?case using Suc.IH [of "s\<lparr>un_sent_log := un_sent_log s @ [un_sent s]\<rparr>"] Suc.prems by (simp add: MAX_ATTEMPT_def Let_def)
qed simp

theorem do_send_never_gives_up_witness:
  "do_send True (replicate 1000 NotWritable) 1 (replicate 8 0) \<lparr>un_connfd = 3, un_toSend = 5, un_sent = 0, un_received = 0, un_wire = [],
      un_sent_log = [], un_received_log = []\<rparr> =
    (\<lparr>un_connfd = 3, un_toSend = 5, un_sent = 0, un_received = 0, un_wire = [], un_sent_log = replicate 1000 0, un_received_log = []\<rparr>, Running)"
  using do_send_never_gives_up [of "\<lparr>un_connfd = 3, un_toSend = 5, un_sent = 0, un_received = 0, un_wire = [],
      un_sent_log = [], un_received_log = []\<rparr>" True 1000 "replicate 8 0"] by simp

text \<open>
  the receiver sends back exactly what it gets. Whatever fails in between, it never leaves its
  buffer, the datagrams it sends are those received before a \<open>sendto\<close> that works, unchanged up to the
  length of the buffer and in the same order, and its two counters are right.
\<close>

theorem receiver_echoes:
  assumes "length (ue_recvBuf s) = RECV_LEN"
  shows "\<exists>n s' status. receiver_main ip es reinit s = Inr (s', status) \<and> n \<le> length es \<and> (status = Running \<longrightarrow> n = length es) \<and>
    ue_wire s' = ue_wire s @ echoes (take n es) \<and> ue_sent s' = ue_sent s + int (length (echoes (take n es))) \<and>
    ue_received s' = ue_received s + int (arrivals (take n es))"
  using receiver_main_outcome [OF assms, of es ip reinit] unfolding receiver_outcome_def .

theorem receiver_echoes_witness:
  "\<exists>s'. receiver_main AnyAddress [(\<lambda>n. (3, True), EchoPacket [1, 2] True), (\<lambda>n. (3, True), EchoPacket [7] False)] False
      \<lparr>ue_connfd = 3, ue_recvBuf = replicate 65536 0, ue_sent = 0, ue_received = 0, ue_wire = []\<rparr> = Inr (s', Running) \<and>
    ue_wire s' = [[1, 2]] \<and> ue_sent s' = 1 \<and> ue_received s' = 2"
proof -
  let ?es = "[(\<lambda>n :: nat. (3 :: int, True), EchoPacket [1, 2] True), (\<lambda>n. (3, True), EchoPacket [7] False)]"
  let ?s = "\<lparr>ue_connfd = 3, ue_recvBuf = replicate 65536 0, ue_sent = 0, ue_received = 0, ue_wire = []\<rparr>"
  have "\<exists>s'. receiver_main AnyAddress ?es False ?s = Inr (s', Running)"
    by (simp add: RECV_LEN_def mem_write_def mem_read_def)
  with receiver_echoes [of ?s AnyAddress ?es False] show ?thesis by (auto simp: RECV_LEN_def echoes_def arrivals_def)
qed



end
