(* ===== verification/Mperf_Sockets.thy ===== *)
theory Mperf_Sockets
  imports Prelude
begin

text \<open>
  \<open>netdial\<close> and \<open>open_listenfd\<close> of \<open>3rd/mperf/src/util.c\<close>: the calls they make and what they leave behind.
  The outcomes of the system calls are a record; the state has the open sockets, the address lists of
  \<open>getaddrinfo\<close> that have not been freed, and the calls made on the socket, with ports in host order.
\<close>

section \<open>Calls and resources\<close>

datatype addr_info = LocalInfo | ServerInfo

text \<open>\<open>bind\<close> has the address list it takes the address from, or \<open>None\<close> for \<open>INADDR_ANY\<close>.\<close>

datatype net_call = BindTo "addr_info option" uint16 | SetReuse | ConnectTo addr_info uint16 | StartListening

text \<open>
  The outcome of each call, true for success. \<open>ne_info_port\<close> is the port in the address that
  \<open>getaddrinfo\<close> returns for the local address, which no service is given for.
\<close>

record net_env =
  ne_local :: bool
  ne_info_port :: uint16
  ne_server :: bool
  ne_socket :: int
  ne_bind :: bool
  ne_reuse :: bool
  ne_connect :: bool
  ne_listen :: bool

record net_state =
  ns_open :: "int list"
  ns_info :: "addr_info list"
  ns_calls :: "net_call list"

definition get_info :: "addr_info \<Rightarrow> net_state \<Rightarrow> net_state" where
  "get_info i s = s\<lparr>ns_info := i # ns_info s\<rparr>"

definition freeaddrinfo :: "addr_info \<Rightarrow> net_state \<Rightarrow> net_state" where
  "freeaddrinfo i s = s\<lparr>ns_info := remove1 i (ns_info s)\<rparr>"

definition open_socket :: "int \<Rightarrow> net_state \<Rightarrow> net_state" where
  "open_socket fd s = s\<lparr>ns_open := fd # ns_open s\<rparr>"

definition close_socket :: "int \<Rightarrow> net_state \<Rightarrow> net_state" where
  "close_socket fd s = s\<lparr>ns_open := remove1 fd (ns_open s)\<rparr>"

definition net_called :: "net_call \<Rightarrow> net_state \<Rightarrow> net_state" where
  "net_called c s = s\<lparr>ns_calls := ns_calls s @ [c]\<rparr>"

section \<open>The client side\<close>

text \<open>\<open>netdial\<close>; \<open>local\<close> tells whether a local address is given. \<open>ne_connect\<close> includes \<open>EINPROGRESS\<close>.\<close>

definition netdial :: "net_env \<Rightarrow> bool \<Rightarrow> int \<Rightarrow> int \<Rightarrow> net_state \<Rightarrow> net_state \<times> int" where
  "netdial e local local_port port s =
     (if local \<and> \<not> ne_local e then (s, - 1)
      else let s = (if local then get_info LocalInfo s else s) in
      if \<not> ne_server e then (s, - 1)
      else let s = get_info ServerInfo s; fd = ne_socket e in
      if fd < 0 then (freeaddrinfo ServerInfo (if local then freeaddrinfo LocalInfo s else s), - 1)
      else let s = open_socket fd s;
               s = (if local then net_called (BindTo (Some LocalInfo)
                      (if local_port \<noteq> 0 then of_int local_port else ne_info_port e)) s
                    else if local_port \<noteq> 0 then net_called (BindTo None (of_int local_port)) s
                    else s) in
      if local \<and> \<not> ne_bind e then (freeaddrinfo ServerInfo (freeaddrinfo LocalInfo (close_socket fd s)), - 1)
      else if \<not> local \<and> local_port \<noteq> 0 \<and> \<not> ne_bind e then (close_socket fd s, - 1)
      else let s = net_called SetReuse (if local then freeaddrinfo LocalInfo s else s) in
      if \<not> ne_reuse e then (close_socket fd s, - 1)
      else let s = net_called (ConnectTo ServerInfo (of_int port)) s in
      if \<not> ne_connect e then (freeaddrinfo ServerInfo (close_socket fd s), - 1)
      else (freeaddrinfo ServerInfo s, fd))"

section \<open>The server side\<close>

definition open_listenfd :: "net_env \<Rightarrow> bool \<Rightarrow> int \<Rightarrow> net_state \<Rightarrow> net_state \<times> int" where
  "open_listenfd e local port s =
     (if local \<and> \<not> ne_local e then (s, - 1)
      else
        let s = (if local then get_info LocalInfo s else s);
            out = (\<lambda>s. if local then freeaddrinfo LocalInfo s else s);
            fd = ne_socket e
        in if fd < 0 then (out s, - 1)
           else let s = net_called SetReuse (open_socket fd s) in
           if \<not> ne_reuse e then (out s, - 1)
           else let s = net_called (BindTo (if local then Some LocalInfo else None) (of_int port)) s in
           if \<not> ne_bind e then (out s, - 1)
           else let s = net_called StartListening s in
           if \<not> ne_listen e then (out s, - 1)
           else (out s, fd))"

section \<open>Lemmas\<close>

lemmas net_defs = get_info_def freeaddrinfo_def open_socket_def close_socket_def net_called_def

section \<open>Properties\<close>

text \<open>
  \<open>netdial\<close> returns the socket it has opened, with the address lists freed and the last call the
  \<open>connect\<close> to the given port, or -1 with the socket closed. When it fails it still leaks an address
  list: the local one when the server's name is not resolved, and the server's one when \<open>setsockopt\<close>
  fails or the \<open>bind\<close> of a port without a local address does.
\<close>

theorem netdial_resources:
  "case netdial e local local_port port s of (s', fd) \<Rightarrow>
     if 0 \<le> fd then fd = ne_socket e \<and> ns_open s' = fd # ns_open s \<and> ns_info s' = ns_info s \<and>
       last (ns_calls s') = ConnectTo ServerInfo (of_int port)
     else fd = - 1 \<and> ns_open s' = ns_open s \<and> ns_info s' =
       (if (local \<longrightarrow> ne_local e) \<and> \<not> ne_server e then (if local then [LocalInfo] else [])
        else if (local \<longrightarrow> ne_local e \<and> ne_bind e) \<and> 0 \<le> ne_socket e \<and>
          (\<not> local \<and> local_port \<noteq> 0 \<and> \<not> ne_bind e \<or> \<not> ne_reuse e) then [ServerInfo]
        else []) @ ns_info s"
  by (auto simp: netdial_def net_defs Let_def)

theorem netdial_resources_witness:
  "case netdial \<lparr>ne_local = True, ne_info_port = 0, ne_server = False, ne_socket = 3, ne_bind = True, ne_reuse = True,
       ne_connect = True, ne_listen = True\<rparr> True 0 80 \<lparr>ns_open = [], ns_info = [], ns_calls = []\<rparr> of
     (s', fd) \<Rightarrow> fd = - 1 \<and> ns_open s' = [] \<and> ns_info s' = [LocalInfo]"
  using netdial_resources [where e = "\<lparr>ne_local = True, ne_info_port = 0, ne_server = False, ne_socket = 3, ne_bind = True,
    ne_reuse = True, ne_connect = True, ne_listen = True\<rparr>" and local = True and local_port = 0 and port = 80 and s = "\<lparr>ns_open = [], ns_info = [], ns_calls = []\<rparr>"]
  by (simp add: netdial_def net_defs)

text \<open>
  \<open>open_listenfd\<close> frees its address list on every path, and returns the listening socket, bound to the
  port with \<open>SO_REUSEADDR\<close> set before. When a call after \<open>socket\<close> fails it returns -1 and leaves the
  socket open: no caller has the descriptor to close it.
\<close>

theorem open_listenfd_leaks_socket:
  "case open_listenfd e local port s of (s', fd) \<Rightarrow>
     ns_info s' = ns_info s \<and>
     (if 0 \<le> fd then fd = ne_socket e \<and> ns_open s' = fd # ns_open s \<and>
        ns_calls s' = ns_calls s @ [SetReuse, BindTo (if local then Some LocalInfo else None) (of_int port), StartListening]
      else fd = - 1 \<and> ns_open s' =
        (if (local \<longrightarrow> ne_local e) \<and> 0 \<le> ne_socket e then ne_socket e # ns_open s else ns_open s))"
  by (auto simp: open_listenfd_def net_defs Let_def)

theorem open_listenfd_leaks_socket_witness:
  "case open_listenfd \<lparr>ne_local = True, ne_info_port = 0, ne_server = True, ne_socket = 3, ne_bind = False, ne_reuse = True,
       ne_connect = True, ne_listen = True\<rparr> False 80 \<lparr>ns_open = [], ns_info = [], ns_calls = []\<rparr> of
     (s', fd) \<Rightarrow> fd = - 1 \<and> ns_open s' = [3]"
  using open_listenfd_leaks_socket [where e = "\<lparr>ne_local = True, ne_info_port = 0, ne_server = True, ne_socket = 3,
    ne_bind = False, ne_reuse = True, ne_connect = True, ne_listen = True\<rparr>" and local = False and port = 80 and s = "\<lparr>ns_open = [], ns_info = [], ns_calls = []\<rparr>"]
  by (simp add: open_listenfd_def net_defs)

end
