(* ===== verification/Eval_Programs.thy ===== *)
theory Eval_Programs
  imports Mperf_Messages C_Strings
begin

text \<open>
  The evaluation programs over the loops of \<open>eval/unp.c\<close>: the echo server and client
  (\<open>eval/echo_server.c\<close>, \<open>eval/echo_client.c\<close>), the throughput test \<open>eval/rattle_client.c\<close>, the wrappers that
  end the program when a call fails, and the choice of a network namespace in \<open>eval/setns.c\<close>.
\<close>

section \<open>The echo server\<close>

definition MAXLINE :: nat where "MAXLINE = 4096"

lemma writen_loop_events:
  "writen_loop n nleft ptr buf c = ioreturn (c', r) \<Longrightarrow> length (cn_events c') \<le> length (cn_events c)"
proof (induction n nleft ptr buf c rule: writen_loop.induct)
  case (1 n nleft ptr buf c)
  show ?case
  proof (cases "nleft = 0")
    case True
    then show ?thesis using 1(2) by (simp add: writen.stop)
  next
    case False
    obtain c1 w where w: "sys_write buf ptr nleft c = ioreturn (c1, w)"
      using 1(2) False by (subst (asm) writen_loop.simps) (auto simp: iobind_eq_Inr)
    then have "length (cn_events c1) \<le> length (cn_events c)" using sys_write_events [OF w] by simp
    then show ?thesis using 1(1) [OF False w refl refl] 1(2) False w
      by (subst (asm) (2) writen_loop.simps) (auto simp: Let_def split: if_splits)
  qed
qed

text \<open>\<open>str_echo\<close>: the bytes counted and whether a read error ended it. The result of \<open>writen\<close> is ignored.\<close>

function str_echo :: "byte list \<Rightarrow> size_t \<Rightarrow> conn \<Rightarrow> (conn \<times> size_t \<times> bool) io" where
  "str_echo buf acc c =
     iobind (sys_read 0 buf (of_nat MAXLINE) c) (\<lambda>(c, buf, n).
     if 0 < n then iobind (writen buf (of_int n) c) (\<lambda>(c, r). str_echo buf (acc + of_int n) c)
     else if n < 0 \<and> cn_errno c = EINTR then str_echo buf acc c
     else ioreturn (c, acc, n < 0))"
  by pat_completeness auto

termination str_echo
  by (relation "measure (\<lambda>(buf, acc, c). length (cn_events c))")
    (auto dest!: sys_read_events writen_loop_events simp: writen_def)

declare str_echo.simps [simp del]

section \<open>The echo client\<close>

text \<open>
  \<open>str_cli\<close>: the lines that \<open>fgets\<close> returns, without the terminating zero, the array \<open>recvline\<close>, the bytes
  printed. \<open>None\<close> in the result is the exit when the server has closed the connection.
\<close>

definition c_text :: "byte list \<Rightarrow> byte list res" where
  "c_text mem = rbind (c_strlen mem) (\<lambda>n. Inr (take n mem))"

fun str_cli :: "byte list list \<Rightarrow> byte list \<Rightarrow> conn \<Rightarrow> byte list \<Rightarrow> (conn \<times> byte list option) io" where
  "str_cli [] recvline c out = ioreturn (c, Some out)"
| "str_cli (line # lines) recvline c out =
     iobind (iolift (c_strlen (line @ [0]))) (\<lambda>n.
     iobind (writen (line @ [0]) (of_nat n) c) (\<lambda>(c, r).
     iobind (readline recvline (of_nat MAXLINE) c) (\<lambda>(c, recvline, r).
     if r = 0 then ioreturn (c, None)
     else iobind (iolift (c_text recvline)) (\<lambda>s. str_cli lines recvline c (out @ s)))))"

section \<open>The throughput test\<close>

definition RATTLE_SIZE :: nat where "RATTLE_SIZE = 1460 * 100"

text \<open>\<open>cmp_line\<close>: the first index at which the two arrays differ.\<close>

primrec cmp_line_from :: "nat \<Rightarrow> nat \<Rightarrow> byte list \<Rightarrow> byte list \<Rightarrow> nat option" where
  "cmp_line_from i 0 sendline recvline = None"
| "cmp_line_from i (Suc left) sendline recvline =
     (if sendline ! i \<noteq> recvline ! i then Some i else cmp_line_from (Suc i) left sendline recvline)"

definition cmp_line :: "byte list \<Rightarrow> byte list \<Rightarrow> nat option" where
  "cmp_line sendline recvline = cmp_line_from 0 RATTLE_SIZE sendline recvline"

text \<open>The exchange: whether \<open>writen\<close> and \<open>readn\<close> report errors, and the first difference.\<close>

definition rattle_client :: "byte list \<Rightarrow> byte list \<Rightarrow> conn \<Rightarrow> (conn \<times> bool \<times> bool \<times> nat option) io" where
  "rattle_client sendline recvline c =
     iobind (writen sendline (of_nat RATTLE_SIZE) c) (\<lambda>(c, w).
     iobind (readn recvline (of_nat RATTLE_SIZE) c) (\<lambda>(c, recvline, r).
     ioreturn (c, w < 0, r \<noteq> int RATTLE_SIZE, cmp_line sendline recvline)))"

section \<open>Wrappers and namespaces\<close>

text \<open>The wrappers of \<open>unp.c\<close> end the program if the call returns a negative value.\<close>

definition checked_call :: "int \<Rightarrow> int option" where
  "checked_call rv = (if rv < 0 then None else Some rv)"

text \<open>\<open>Inet_pton\<close> looks for a negative value as well; \<open>inet_pton\<close> returns 0 for a malformed address.\<close>

definition Inet_pton :: "(string \<Rightarrow> int \<times> 'a) \<Rightarrow> string \<Rightarrow> 'a option" where
  "Inet_pton inet_pton src = (case inet_pton src of (rv, dst) \<Rightarrow> if rv < 0 then None else Some dst)"

definition starts_with :: "string \<Rightarrow> string \<Rightarrow> bool" where
  "starts_with pre str = (if length str < length pre then False else pre = take (length pre) str)"

text \<open>\<open>memcpy\<close> of the path and \<open>strncat\<close> of at most 64 characters of the name, into an array of \<open>size\<close> bytes.\<close>

definition ns_file :: "nat \<Rightarrow> string \<Rightarrow> string res" where
  "ns_file len name =
     (let path = ''/var/run/netns/'' @ take 64 name
      in if length path + 1 \<le> len then Inr path else Inl OutOfBounds)"

text \<open>
  \<open>__setns_main\<close>: the arguments and their number as the program sees them. \<open>join\<close> tells whether the
  namespace file can be opened and joined, \<open>argc_loc\<close> is the number in front of the arguments.
\<close>

definition setns_main :: "(string \<Rightarrow> bool) \<Rightarrow> nat \<Rightarrow> string list \<Rightarrow> (nat \<times> string list) res" where
  "setns_main join argc_loc argv =
     (let argc = length argv in
      if argc \<noteq> argc_loc then Inr (argc_loc, argv)
      else if argc < 2 then Inr (argc_loc, argv)
      else if \<not> starts_with ''ns'' (argv ! 1) then Inr (argc_loc, argv)
      else rbind (ns_file (64 + 32) (argv ! 1)) (\<lambda>file.
        if \<not> join file then Inr (argc_loc, argv)
        else Inr (argc - 1, fold (\<lambda>i av. av[i := av ! (i + 1)]) [1..<argc - 1] argv)))"

section \<open>Lemmas\<close>

lemma MAXLINE_unat: "unat (of_nat MAXLINE :: size_t) = 4096"
  by (simp add: MAXLINE_def)

text \<open>\<open>writen\<close> and \<open>readn\<close> on a connection without failures.\<close>

lemma writen_steady:
  assumes "steady n (cn_events c)" and "n \<le> length buf" and "n < 2 ^ 31"
  shows "\<exists>m \<le> n. writen buf (of_nat n) c =
    ioreturn (c\<lparr>cn_out := cn_out c @ take n buf, cn_events := drop m (cn_events c)\<rparr>, int n)"
proof -
  have u: "unat (of_nat n :: size_t) = n" using assms(3) by (simp add: unat_of_nat)
  moreover have "sint (of_nat n :: size_t) = int n" using u assms(3) sint_small [of "of_nat n"] by simp
  ultimately show ?thesis using writen.steady_writes [of "of_nat n" c 0 buf "of_nat n"] assms by (simp add: writen_def)
qed

lemma readn_steady:
  assumes "steady n (cn_events c)" and "n \<le> length (cn_in c)" and "n \<le> length buf" and "n < 2 ^ 31"
  shows "\<exists>m \<le> n. readn buf (of_nat n) c =
    ioreturn (c\<lparr>cn_in := drop n (cn_in c), cn_events := drop m (cn_events c)\<rparr>, take n (cn_in c) @ drop n buf, int n)"
proof -
  have u: "unat (of_nat n :: size_t) = n" using assms(4) by (simp add: unat_of_nat)
  moreover have "sint (of_nat n :: size_t) = int n" using u assms(4) sint_small [of "of_nat n"] by simp
  ultimately show ?thesis using readn.steady_reads [of "of_nat n" c 0 buf "of_nat n"] assms by (simp add: readn_def)
qed

lemma str_echo_steady:
  assumes "length buf = MAXLINE" and "steady (2 * length (cn_in c) + 1) (cn_events c)"
  shows "\<exists>c'. str_echo buf acc c = ioreturn (c', acc + of_nat (length (cn_in c)), False) \<and>
    cn_out c' = cn_out c @ cn_in c \<and> cn_in c' = []"
  using assms
proof (induction "length (cn_in c)" arbitrary: buf acc c rule: less_induct)
  case less
  let ?L = "length (cn_in c)"
  obtain k es where es: "cn_events c = Chunk k # es" "steady (2 * ?L) es"
    using steady_Cons [of "2 * ?L" "cn_events c"] less.prems(2) by auto
  have room: "unat (0 :: size_t) + unat (of_nat MAXLINE :: size_t) \<le> length buf" using less.prems(1) by (simp add: MAXLINE_def)
  obtain j where j: "j = min (min 4096 (max 1 k)) ?L" "sys_read 0 buf (of_nat MAXLINE) c =
      ioreturn (c\<lparr>cn_events := es, cn_in := drop j (cn_in c)\<rparr>, take j (cn_in c) @ drop j buf, int j)"
    using room by (cases rule: sys_read_cases [where c = c]) (use es(1) in \<open>auto simp: MAXLINE_unat\<close>)
  show ?case
  proof (cases "cn_in c = []")
    case True
    then show ?thesis using j by (subst str_echo.simps) simp
  next
    case False
    then have pos: "0 < j" "j \<le> ?L" "j \<le> 4096" using j(1) by auto
    let ?buf = "take j (cn_in c) @ drop j buf" and ?c = "c\<lparr>cn_events := es, cn_in := drop j (cn_in c)\<rparr>"
    have "steady j (cn_events ?c)" using steady_mono [OF es(2)] pos(2) by simp
    from writen_steady [OF this, of ?buf] obtain m where m: "m \<le> j" "writen ?buf (of_nat j) ?c =
        ioreturn (c\<lparr>cn_in := drop j (cn_in c), cn_out := cn_out c @ take j (cn_in c), cn_events := drop m es\<rparr>, int j)"
      using pos less.prems(1) by (auto simp: MAXLINE_def)
    let ?d = "c\<lparr>cn_in := drop j (cn_in c), cn_out := cn_out c @ take j (cn_in c), cn_events := drop m es\<rparr>"
    have run: "str_echo buf acc c = str_echo ?buf (acc + of_nat j) ?d"
      using j(2) m(2) pos(1) by (subst str_echo.simps) simp
    have "steady (2 * ?L - j) (drop m es)" using steady_drop [of j "2 * ?L - j" es m] es(2) pos(2) m(1) by simp
    then have "steady (2 * length (cn_in ?d) + 1) (cn_events ?d)" by (simp, elim steady_mono) (use pos in simp)
    moreover have "length ?buf = MAXLINE" using less.prems(1) pos by (simp add: MAXLINE_def)
    moreover have "length (cn_in ?d) < ?L" using pos by simp
    ultimately obtain c' where "str_echo ?buf (acc + of_nat j) ?d = ioreturn (c', acc + of_nat j + of_nat (?L - j), False)"
        "cn_out c' = cn_out ?d @ cn_in ?d" "cn_in c' = []"
      using less.hyps [of ?d ?buf "acc + of_nat j"] by auto
    then show ?thesis using run pos(2) by (simp add: of_nat_diff)
  qed
qed

text \<open>\<open>readline\<close> up to a newline.\<close>

lemma readline_loop_steady:
  assumes "cn_in c = l @ 10 # rest" and "10 \<notin> set l" and "unat n + length l < unat maxlen" and "unat ptr + length l + 2 \<le> length buf"
    and "unat maxlen < 2 ^ 63" and "length buf < 2 ^ 63" and "steady (Suc (length l)) (cn_events c)"
  shows "readline_loop maxlen n ptr buf c =
    ioreturn (c\<lparr>cn_in := rest, cn_events := drop (Suc (length l)) (cn_events c)\<rparr>,
      take (unat ptr) buf @ l @ 10 # 0 # drop (unat ptr + length l + 2) buf, int (unat n + length l))"
  using assms
proof (induction l arbitrary: c n ptr buf)
  case Nil
  obtain k es where es: "cn_events c = Chunk k # es" using steady_Cons [of 0 "cn_events c"] Nil.prems(7) by auto
  have rd: "sys_read 0 [0] 1 c = ioreturn (c\<lparr>cn_events := es, cn_in := rest\<rparr>, [10], 1)"
    using es Nil.prems(1) by (simp add: sys_read_def mem_write_ok max_def min_def)
  have p1: "unat (ptr + 1) = unat ptr + 1" using Nil.prems(4,6) by (subst unat_add_lt) simp_all
  have "mem_write buf ptr [10] = Inr (take (unat ptr) buf @ 10 # drop (Suc (unat ptr)) buf)"
    using Nil.prems(4) by (simp add: mem_write_ok)
  moreover have "mem_write (take (unat ptr) buf @ 10 # drop (Suc (unat ptr)) buf) (ptr + 1) [0] =
      Inr (take (unat ptr) buf @ 10 # 0 # drop (unat ptr + 2) buf)"
    using Nil.prems(4) p1 by (simp add: mem_write_ok)
  moreover have "sint n = int (unat n)" using Nil.prems(3,5) by (intro sint_small) simp
  moreover have "n < maxlen" using Nil.prems(3) by (simp add: word_less_nat_alt)
  ultimately show ?case using rd es by (subst readline_loop.simps) simp
next
  case (Cons x l)
  obtain k es where es: "cn_events c = Chunk k # es" "steady (Suc (length l)) es" using steady_Cons [of "Suc (length l)" "cn_events c"] Cons.prems(7) by auto
  let ?c = "c\<lparr>cn_events := es, cn_in := l @ 10 # rest\<rparr>" and ?buf = "take (unat ptr) buf @ x # drop (Suc (unat ptr)) buf"
  have rd: "sys_read 0 [0] 1 c = ioreturn (?c, [x], 1)"
    using es(1) Cons.prems(1) by (simp add: sys_read_def mem_write_ok max_def min_def)
  have p1: "unat (ptr + 1) = unat ptr + 1" using Cons.prems(4,6) by (subst unat_add_lt) simp_all
  have n1: "unat (n + 1) = unat n + 1" using Cons.prems(3,5) by (subst unat_add_lt) simp_all
  have "mem_write buf ptr [x] = Inr ?buf" using Cons.prems(4) by (simp add: mem_write_ok)
  moreover have "n < maxlen" using Cons.prems(3) by (simp add: word_less_nat_alt)
  ultimately have "readline_loop maxlen n ptr buf c = readline_loop maxlen (n + 1) (ptr + 1) ?buf ?c"
    using rd Cons.prems(2) by (subst readline_loop.simps) simp
  also have "\<dots> = ioreturn (?c\<lparr>cn_in := rest, cn_events := drop (Suc (length l)) (cn_events ?c)\<rparr>,
      take (unat (ptr + 1)) ?buf @ l @ 10 # 0 # drop (unat (ptr + 1) + length l + 2) ?buf, int (unat (n + 1) + length l))"
    by (rule Cons.IH) (use Cons.prems es p1 n1 in simp_all)
  finally show ?case using es(1) p1 n1 Cons.prems(4) by (simp add: numeral_3_eq_3 add.commute [of "length l"])
qed

lemma readline_steady:
  assumes "cn_in c = l @ 10 # rest" and "10 \<notin> set l" and "length l + 2 \<le> MAXLINE" and "length buf = MAXLINE"
    and "steady (Suc (length l)) (cn_events c)"
  shows "readline buf (of_nat MAXLINE) c =
    ioreturn (c\<lparr>cn_in := rest, cn_events := drop (Suc (length l)) (cn_events c)\<rparr>, l @ 10 # 0 # drop (length l + 2) buf, int (Suc (length l)))"
  using readline_loop_steady [OF assms(1,2), of 1 "of_nat MAXLINE" 0 buf] assms(3-5) by (simp add: readline_def MAXLINE_def)

text \<open>A line as \<open>fgets\<close> returns it: text, no zero byte, one newline at the end.\<close>

definition text_line :: "byte list \<Rightarrow> bool" where
  "text_line s \<longleftrightarrow> (\<exists>l. s = l @ [10] \<and> 10 \<notin> set l \<and> 0 \<notin> set l \<and> length l + 2 \<le> MAXLINE)"

lemma str_cli_steady:
  assumes "list_all text_line lines" and "cn_in c = concat lines @ rest" and "length recvline = MAXLINE"
    and "steady (2 * length (concat lines)) (cn_events c)"
  shows "\<exists>c'. str_cli lines recvline c out = ioreturn (c', Some (out @ concat lines)) \<and>
    cn_out c' = cn_out c @ concat lines \<and> cn_in c' = rest"
  using assms
proof (induction lines arbitrary: recvline c out)
  case (Cons line lines)
  obtain l where l: "line = l @ [10]" "10 \<notin> set l" "0 \<notin> set l" "length l + 2 \<le> MAXLINE" using Cons.prems(1) by (auto simp: text_line_def)
  let ?n = "Suc (length l)" and ?e = "cn_events c"
  have st: "steady (?n + (?n + 2 * length (concat lines))) ?e" using Cons.prems(4) l(1) by (simp add: ac_simps)
  have "c_strlen (line @ [0]) = Inr ?n" using c_strlen_append [of line "[]"] l by simp
  moreover have "steady ?n ?e" using st by (rule steady_mono) simp
  then obtain m where m: "m \<le> ?n" "writen (line @ [0]) (of_nat ?n) c = ioreturn (c\<lparr>cn_out := cn_out c @ line, cn_events := drop m ?e\<rparr>, int ?n)"
    using writen_steady [of ?n c "line @ [0]"] l(1,4) by (auto simp: MAXLINE_def)
  let ?c = "c\<lparr>cn_out := cn_out c @ line, cn_events := drop m ?e\<rparr>"
  have st1: "steady (?n + 2 * length (concat lines)) (cn_events ?c)" using steady_drop [OF st m(1)] by simp
  have "steady ?n (cn_events ?c)" using st1 by (rule steady_mono) simp
  then have "readline recvline (of_nat MAXLINE) ?c =
      ioreturn (?c\<lparr>cn_in := concat lines @ rest, cn_events := drop ?n (cn_events ?c)\<rparr>, l @ 10 # 0 # drop (length l + 2) recvline, int ?n)"
    using readline_steady [of ?c l "concat lines @ rest" recvline] Cons.prems(2,3) l(1,2,4) by simp
  moreover have "c_strlen (line @ 0 # drop (length l + 2) recvline) = Inr ?n"
    using c_strlen_append [of line "drop (length l + 2) recvline"] l by simp
  then have "c_text (l @ 10 # 0 # drop (length l + 2) recvline) = Inr line" using l(1) by (simp add: c_text_def)
  moreover have len: "length (l @ 10 # 0 # drop (length l + 2) recvline) = MAXLINE" using Cons.prems(3) l(4) by (simp add: MAXLINE_def)
  moreover obtain c' where "str_cli lines (l @ 10 # 0 # drop (length l + 2) recvline)
        (?c\<lparr>cn_in := concat lines @ rest, cn_events := drop ?n (cn_events ?c)\<rparr>) (out @ line) =
      ioreturn (c', Some ((out @ line) @ concat lines))" "cn_out c' = (cn_out c @ line) @ concat lines" "cn_in c' = rest"
    using Cons.IH [of "?c\<lparr>cn_in := concat lines @ rest, cn_events := drop ?n (cn_events ?c)\<rparr>" "l @ 10 # 0 # drop (length l + 2) recvline" "out @ line"]
      Cons.prems(1) len steady_drop [OF st1 order_refl] by auto
  ultimately show ?case using m(2) by simp
qed simp

lemma cmp_line_from_equal:
  assumes "i + left \<le> length xs" and "i + left \<le> length ys"
  shows "cmp_line_from i left xs ys = None \<longleftrightarrow> take left (drop i xs) = take left (drop i ys)"
  using assms
proof (induction left arbitrary: i)
  case (Suc left)
  then have "drop i xs = xs ! i # drop (Suc i) xs" "drop i ys = ys ! i # drop (Suc i) ys" by (simp_all add: Cons_nth_drop_Suc)
  then show ?case using Suc.IH [of "Suc i"] Suc.prems by auto
qed simp

text \<open>The loop that removes the first argument.\<close>

lemma shift_args:
  assumes "Suc (Suc k) \<le> length av"
  shows "length (fold (\<lambda>i av. av[i := av ! (i + 1)]) [1..<Suc k] av) = length av \<and>
    (\<forall>i < length av. fold (\<lambda>i av. av[i := av ! (i + 1)]) [1..<Suc k] av ! i = (if 1 \<le> i \<and> i \<le> k then av ! (i + 1) else av ! i))"
  using assms by (induction k) (auto simp: nth_list_update)

section \<open>Properties\<close>

text \<open>
  C34: an echo session. On connections that do not fail, however they cut the data, the server sends
  back what the client sends and counts it, and the client prints its own lines.
\<close>

theorem echo_session:
  assumes "list_all text_line lines" and "length buf = MAXLINE" and "length recvline = MAXLINE"
    and "steady (2 * length (concat lines) + 1) (cn_events d)" and "steady (2 * length (concat lines)) (cn_events c)"
  shows "\<exists>d' echoed c'. str_echo buf 0 (d\<lparr>cn_in := concat lines\<rparr>) = ioreturn (d', of_nat (length (concat lines)), False) \<and>
    cn_out d' = cn_out d @ echoed \<and>
    str_cli lines recvline (c\<lparr>cn_in := echoed\<rparr>) [] = ioreturn (c', Some (concat lines)) \<and> cn_out c' = cn_out c @ concat lines"
proof -
  obtain d' where "str_echo buf 0 (d\<lparr>cn_in := concat lines\<rparr>) = ioreturn (d', of_nat (length (concat lines)), False)"
      "cn_out d' = cn_out d @ concat lines"
    using str_echo_steady [of buf "d\<lparr>cn_in := concat lines\<rparr>" 0] assms(2,4) by auto
  moreover obtain c' where "str_cli lines recvline (c\<lparr>cn_in := concat lines\<rparr>) [] = ioreturn (c', Some (concat lines))"
      "cn_out c' = cn_out c @ concat lines"
    using str_cli_steady [of lines "c\<lparr>cn_in := concat lines\<rparr>" "[]" recvline "[]"] assms(1,3,5) by auto
  ultimately show ?thesis by blast
qed

theorem echo_session_witness:
  "\<exists>d' echoed c'. str_echo (replicate 4096 0) 0 \<lparr>cn_in = [72, 105, 10, 33, 10], cn_out = [], cn_events = replicate 11 (Chunk 2), cn_errno = 0\<rparr> =
      ioreturn (d', 5, False) \<and> cn_out d' = echoed \<and>
    str_cli [[72, 105, 10], [33, 10]] (replicate 4096 0) \<lparr>cn_in = echoed, cn_out = [], cn_events = replicate 10 (Chunk 3), cn_errno = 0\<rparr> [] =
      ioreturn (c', Some [72, 105, 10, 33, 10]) \<and> cn_out c' = [72, 105, 10, 33, 10]"
proof -
  let ?c = "\<lambda>n k. \<lparr>cn_in = [], cn_out = [], cn_events = replicate n (Chunk k), cn_errno = 0\<rparr>"
  have "text_line ([72, 105] @ [10])" "text_line ([33] @ [10])" unfolding text_line_def by (rule exI, rule conjI [OF refl], simp add: MAXLINE_def)+
  then have "list_all text_line [[72, 105, 10], [33, 10]]" by simp
  moreover have "steady 11 (cn_events (?c 11 2))" "steady 10 (cn_events (?c 10 3))" by (simp_all add: steady_def list_all_iff is_chunk_def)
  ultimately show ?thesis
    using echo_session [of "[[72, 105, 10], [33, 10]]" "replicate 4096 0" "replicate 4096 0" "?c 11 2" "?c 10 3"] by (simp add: MAXLINE_def)
qed

text \<open>
  the throughput test against the echo server. On connections that do not fail, neither \<open>writen\<close> nor
  \<open>readn\<close> reports an error and \<open>cmp_line\<close> finds no difference.
\<close>

theorem rattle_session:
  assumes "length sendline = RATTLE_SIZE" and "length recvline = RATTLE_SIZE" and "length buf = MAXLINE"
    and "steady (2 * RATTLE_SIZE + 1) (cn_events d)" and "steady (2 * RATTLE_SIZE) (cn_events c)"
  shows "\<exists>d' n echoed c'. str_echo buf 0 (d\<lparr>cn_in := sendline\<rparr>) = ioreturn (d', n, False) \<and> cn_out d' = cn_out d @ echoed \<and>
    rattle_client sendline recvline (c\<lparr>cn_in := echoed\<rparr>) = ioreturn (c', False, False, None) \<and> cn_out c' = cn_out c @ sendline"
proof -
  let ?c = "c\<lparr>cn_in := sendline\<rparr>"
  have st: "steady (RATTLE_SIZE + RATTLE_SIZE) (cn_events ?c)" using assms(5) by (simp add: mult_2)
  have "steady RATTLE_SIZE (cn_events ?c)" using st by (rule steady_mono) simp
  from writen_steady [OF this, of sendline] assms(1) obtain m where m: "m \<le> RATTLE_SIZE" "writen sendline (of_nat RATTLE_SIZE) ?c =
      ioreturn (?c\<lparr>cn_out := cn_out c @ sendline, cn_events := drop m (cn_events c)\<rparr>, int RATTLE_SIZE)"
    by (auto simp: RATTLE_SIZE_def)
  let ?d = "?c\<lparr>cn_out := cn_out c @ sendline, cn_events := drop m (cn_events c)\<rparr>"
  have "steady RATTLE_SIZE (cn_events ?d)" using steady_drop [OF st m(1)] by simp
  from readn_steady [OF this, of recvline] assms(1,2) obtain k where
      "readn recvline (of_nat RATTLE_SIZE) ?d = ioreturn (?d\<lparr>cn_in := [], cn_events := drop k (cn_events ?d)\<rparr>, sendline, int RATTLE_SIZE)"
    by (auto simp: RATTLE_SIZE_def)
  moreover have "cmp_line sendline sendline = None" using assms(1) by (simp add: cmp_line_def cmp_line_from_equal)
  ultimately have "\<exists>c'. rattle_client sendline recvline ?c = ioreturn (c', False, False, None) \<and> cn_out c' = cn_out c @ sendline"
    using m(2) by (simp add: rattle_client_def)
  moreover obtain d' where "str_echo buf 0 (d\<lparr>cn_in := sendline\<rparr>) = ioreturn (d', of_nat (length sendline), False)" "cn_out d' = cn_out d @ sendline"
    using str_echo_steady [of buf "d\<lparr>cn_in := sendline\<rparr>" 0] assms(1,3,4) by auto
  ultimately show ?thesis by blast
qed

theorem rattle_session_witness:
  "\<exists>d' n echoed c'. str_echo (replicate 4096 0) 0 \<lparr>cn_in = replicate 146000 97, cn_out = [], cn_events = replicate 292001 (Chunk 1460), cn_errno = 0\<rparr> =
      ioreturn (d', n, False) \<and> cn_out d' = echoed \<and>
    rattle_client (replicate 146000 97) (replicate 146000 0) \<lparr>cn_in = echoed, cn_out = [], cn_events = replicate 292000 (Chunk 9), cn_errno = 0\<rparr> =
      ioreturn (c', False, False, None) \<and> cn_out c' = replicate 146000 97"
proof -
  let ?c = "\<lambda>n k. \<lparr>cn_in = [], cn_out = [], cn_events = replicate n (Chunk k), cn_errno = 0\<rparr>"
  have "steady 292001 (replicate 292001 (Chunk 1460))" "steady 292000 (replicate 292000 (Chunk 9))" by (simp_all add: steady_def list_all_iff is_chunk_def)
  then show ?thesis
    using rattle_session [of "replicate 146000 97" "replicate 146000 0" "replicate 4096 0" "?c 292001 1460" "?c 292000 9"]
    by (simp add: RATTLE_SIZE_def MAXLINE_def)
qed

text \<open>
  the choice of a namespace never leaves the buffer for the path, and when the namespace named by
  the first argument is joined the program sees its arguments without that one.
\<close>

theorem setns_main_removes_argument:
  assumes "argv = prog # ns # args" and "starts_with ''ns'' ns" and "join (''/var/run/netns/'' @ take 64 ns)"
  shows "\<exists>argv'. setns_main join (length argv) argv = Inr (length argv - 1, argv') \<and> take (length argv - 1) argv' = prog # args"
proof -
  let ?argv' = "fold (\<lambda>i av. av[i := av ! (i + 1)]) [1..<length argv - 1] argv"
  have run: "setns_main join (length argv) argv = Inr (length argv - 1, ?argv')"
    using assms by (simp add: setns_main_def ns_file_def Let_def del: upt_Suc)
  have sh: "length ?argv' = length argv" "\<forall>i < length argv. ?argv' ! i = (if 1 \<le> i \<and> i \<le> length args then argv ! (i + 1) else argv ! i)"
    using shift_args [of "length args" argv] assms(1) by (simp_all del: upt_Suc)
  have "take (length argv - 1) ?argv' = prog # args"
  proof (rule nth_equalityI)
    show "length (take (length argv - 1) ?argv') = length (prog # args)" using sh(1) assms(1) by (simp del: upt_Suc)
    show "take (length argv - 1) ?argv' ! i = (prog # args) ! i" if "i < length (take (length argv - 1) ?argv')" for i
      using that sh assms(1) by (cases i) (simp_all del: upt_Suc)
  qed
  with run show ?thesis by blast
qed

theorem setns_main_removes_argument_witness:
  "\<exists>argv'. setns_main (\<lambda>f. f = ''/var/run/netns/ns1'') 3 [''echo_client'', ''ns1'', ''10.0.0.2''] = Inr (2, argv') \<and>
    take 2 argv' = [''echo_client'', ''10.0.0.2'']"
  using setns_main_removes_argument [of "[''echo_client'', ''ns1'', ''10.0.0.2'']" "''echo_client''" "''ns1''" "[''10.0.0.2'']"
      "\<lambda>f. f = ''/var/run/netns/ns1''"]
  by (simp add: starts_with_def numeral_3_eq_3 numeral_2_eq_2)

end
