(* ===== verification/Stack_Instance.thy ===== *)
theory Stack_Instance
  imports Socket_Calls
begin

text \<open>
  The single instance of the stack and the functions \<open>__wrap_*\<close> through which programs reach it:
  \<open>ProtocolStack::getInstance\<close> and \<open>posix/posix_socket.cpp\<close>. \<open>getInstance\<close> may be called by several
  threads at once; it is a step relation on their program counters, with one step for every access to
  the variable \<open>instance\<close> and to the mutex.
\<close>

section \<open>getInstance\<close>

text \<open>The statements of \<open>getInstance\<close>; \<open>Returned x\<close> after returning the instance \<open>x\<close>.\<close>

datatype gi_pc =
    FirstCheck | TakeLock | SecondCheck | NewStack | SpawnLoop nat | Publish nat | DropLock | ReadInstance
  | Returned nat

record gi_state =
  gi_instance :: "nat option"
  gi_mutex :: "nat option"
  gi_created :: nat
  gi_loops :: nat
  gi_pc :: "nat \<Rightarrow> gi_pc"

definition gi_goto :: "nat \<Rightarrow> gi_pc \<Rightarrow> gi_state \<Rightarrow> gi_state" where
  "gi_goto t p s = s\<lparr>gi_pc := (gi_pc s)(t := p)\<rparr>"

text \<open>Instances are numbered in the order of their construction; \<open>gi_loops\<close> counts the event loops started.\<close>

inductive gi_step :: "gi_state \<Rightarrow> gi_state \<Rightarrow> bool" where
  first_null: "gi_pc s t = FirstCheck \<Longrightarrow> gi_instance s = None \<Longrightarrow> gi_step s (gi_goto t TakeLock s)"
| first_set: "gi_pc s t = FirstCheck \<Longrightarrow> gi_instance s = Some x \<Longrightarrow> gi_step s (gi_goto t ReadInstance s)"
| take_lock: "gi_pc s t = TakeLock \<Longrightarrow> gi_mutex s = None \<Longrightarrow> gi_step s (gi_goto t SecondCheck (s\<lparr>gi_mutex := Some t\<rparr>))"
| second_null: "gi_pc s t = SecondCheck \<Longrightarrow> gi_instance s = None \<Longrightarrow> gi_step s (gi_goto t NewStack s)"
| second_set: "gi_pc s t = SecondCheck \<Longrightarrow> gi_instance s = Some x \<Longrightarrow> gi_step s (gi_goto t DropLock s)"
| new_stack: "gi_pc s t = NewStack \<Longrightarrow>
    gi_step s (gi_goto t (SpawnLoop (gi_created s)) (s\<lparr>gi_created := gi_created s + 1\<rparr>))"
| spawn_loop: "gi_pc s t = SpawnLoop x \<Longrightarrow> gi_step s (gi_goto t (Publish x) (s\<lparr>gi_loops := gi_loops s + 1\<rparr>))"
| publish: "gi_pc s t = Publish x \<Longrightarrow> gi_step s (gi_goto t DropLock (s\<lparr>gi_instance := Some x\<rparr>))"
| drop_lock: "gi_pc s t = DropLock \<Longrightarrow> gi_step s (gi_goto t ReadInstance (s\<lparr>gi_mutex := None\<rparr>))"
| read_instance: "gi_pc s t = ReadInstance \<Longrightarrow> gi_instance s = Some x \<Longrightarrow> gi_step s (gi_goto t (Returned x) s)"

definition gi_init :: gi_state where
  "gi_init = \<lparr>gi_instance = None, gi_mutex = None, gi_created = 0, gi_loops = 0, gi_pc = (\<lambda>_. FirstCheck)\<rparr>"

section \<open>The wrapped calls\<close>

text \<open>
  The same without threads: \<open>boot\<close> is what the constructor returns, the state is the variable
  \<open>instance\<close>. A call that may wait forever has \<open>None\<close> for that.
\<close>

definition getInstance :: "posix_world res \<Rightarrow> posix_world option \<Rightarrow> posix_world res" where
  "getInstance boot inst = (case inst of None \<Rightarrow> boot | Some s \<Rightarrow> Inr s)"

definition wrap_call ::
  "posix_world res \<Rightarrow> (posix_world \<Rightarrow> (posix_world \<times> 'r) res) \<Rightarrow> posix_world option \<Rightarrow> (posix_world option \<times> 'r) res" where
  "wrap_call boot f inst = rbind (getInstance boot inst) (\<lambda>s. rbind (f s) (\<lambda>(s, r). Inr (Some s, r)))"

definition wrap_wait ::
  "posix_world res \<Rightarrow> (posix_world \<Rightarrow> (posix_world \<times> 'r) res option) \<Rightarrow> posix_world option \<Rightarrow> (posix_world option \<times> 'r) res option" where
  "wrap_wait boot f inst =
     (case getInstance boot inst of
        Inl e \<Rightarrow> Some (Inl e)
      | Inr s \<Rightarrow> map_option (\<lambda>r. rbind r (\<lambda>(s, r). Inr (Some s, r))) (f s))"

definition wrap_socket where
  "wrap_socket boot dbg real junk dup domain type protocol = wrap_call boot (ProtocolStack_socket dbg real junk dup domain type protocol)"

definition wrap_bind where
  "wrap_bind boot real socket address address_len = wrap_call boot (ProtocolStack_bind real socket address address_len)"

definition wrap_listen where
  "wrap_listen boot real socket backlog = wrap_call boot (ProtocolStack_listen real socket backlog)"

definition wrap_connect where
  "wrap_connect boot dbg fresh env real socket address address_len =
     wrap_call boot (ProtocolStack_connect dbg fresh env real socket address address_len)"

definition wrap_accept where
  "wrap_accept boot real socket wakes = wrap_wait boot (ProtocolStack_accept real socket wakes)"

definition wrap_read where
  "wrap_read boot fildes nbyte = wrap_call boot (ProtocolStack_read fildes nbyte)"

definition wrap_write where
  "wrap_write boot real fildes buf nbyte wakes = wrap_wait boot (ProtocolStack_write real fildes buf nbyte wakes)"

definition wrap_close where
  "wrap_close boot dbg fresh env real fildes = wrap_call boot (ProtocolStack_close dbg fresh env real fildes)"

definition wrap_getaddrinfo where
  "wrap_getaddrinfo boot real node service = wrap_call boot (ProtocolStack_getaddrinfo real node service)"

definition destory_protocol_stack where
  "destory_protocol_stack boot dbg fresh env real =
     wrap_wait boot (\<lambda>s. map_option (\<lambda>r. rbind r (\<lambda>s. Inr (s, ()))) (ProtocolStack_closeAllFDs dbg fresh env real s))"

text \<open>The destructor, which nothing calls for the instance above.\<close>

definition ProtocolStack_destructor where
  "ProtocolStack_destructor dbg fresh env real s = ProtocolStack_closeAllFDs dbg fresh env real s"

definition can_close_protocol_stack where
  "can_close_protocol_stack boot = wrap_call boot (\<lambda>s. Inr (s, if ProtocolStack_canClose s then 1 else 0 :: int))"

section \<open>Lemmas\<close>

definition in_section :: "gi_pc \<Rightarrow> bool" where
  "in_section p \<longleftrightarrow> (case p of SecondCheck \<Rightarrow> True | NewStack \<Rightarrow> True | SpawnLoop _ \<Rightarrow> True | Publish _ \<Rightarrow> True | DropLock \<Rightarrow> True | _ \<Rightarrow> False)"

text \<open>What each statement of a thread relies on.\<close>

definition gi_thread :: "gi_state \<Rightarrow> gi_pc \<Rightarrow> bool" where
  "gi_thread s p \<longleftrightarrow>
     (case p of
        NewStack \<Rightarrow> gi_created s = 0 \<and> gi_loops s = 0 \<and> gi_instance s = None
      | SpawnLoop x \<Rightarrow> x = 0 \<and> gi_created s = 1 \<and> gi_loops s = 0 \<and> gi_instance s = None
      | Publish x \<Rightarrow> x = 0 \<and> gi_created s = 1 \<and> gi_loops s = 1 \<and> gi_instance s = None
      | DropLock \<Rightarrow> gi_instance s = Some 0
      | ReadInstance \<Rightarrow> gi_instance s = Some 0
      | Returned x \<Rightarrow> gi_instance s = Some 0 \<and> x = 0
      | _ \<Rightarrow> True)"

text \<open>
  Only the holder of the mutex is between the checks; before the instance is published at most the
  holder has constructed one; afterwards it is the first and only one.
\<close>

definition gi_counts :: "gi_state \<Rightarrow> bool" where
  "gi_counts s \<longleftrightarrow>
     gi_instance s = Some 0 \<and> gi_created s = 1 \<and> gi_loops s = 1 \<or>
     gi_instance s = None \<and> gi_created s \<le> 1 \<and> gi_loops s \<le> gi_created s \<and>
       (gi_created s = 1 \<longrightarrow> (\<exists>t. gi_pc s t = SpawnLoop 0 \<or> gi_pc s t = Publish 0))"

definition gi_inv :: "gi_state \<Rightarrow> bool" where
  "gi_inv s \<longleftrightarrow> (\<forall>t. in_section (gi_pc s t) \<longrightarrow> gi_mutex s = Some t) \<and> (\<forall>t. gi_thread s (gi_pc s t)) \<and> gi_counts s"

lemma in_section_simps [simp]:
  "\<not> in_section FirstCheck" "\<not> in_section TakeLock" "in_section SecondCheck" "in_section NewStack" "in_section (SpawnLoop x)"
  "in_section (Publish x)" "in_section DropLock" "\<not> in_section ReadInstance" "\<not> in_section (Returned x)"
  by (simp_all add: in_section_def)

lemma gi_thread_simps [simp]:
  "gi_thread s FirstCheck" "gi_thread s TakeLock" "gi_thread s SecondCheck"
  "gi_thread s NewStack \<longleftrightarrow> gi_created s = 0 \<and> gi_loops s = 0 \<and> gi_instance s = None"
  "gi_thread s (SpawnLoop x) \<longleftrightarrow> x = 0 \<and> gi_created s = 1 \<and> gi_loops s = 0 \<and> gi_instance s = None"
  "gi_thread s (Publish x) \<longleftrightarrow> x = 0 \<and> gi_created s = 1 \<and> gi_loops s = 1 \<and> gi_instance s = None"
  "gi_thread s DropLock \<longleftrightarrow> gi_instance s = Some 0" "gi_thread s ReadInstance \<longleftrightarrow> gi_instance s = Some 0"
  "gi_thread s (Returned x) \<longleftrightarrow> gi_instance s = Some 0 \<and> x = 0"
  by (simp_all add: gi_thread_def)

lemma gi_goto_simps [simp]:
  "gi_instance (gi_goto t p s) = gi_instance s" "gi_mutex (gi_goto t p s) = gi_mutex s" "gi_created (gi_goto t p s) = gi_created s"
  "gi_loops (gi_goto t p s) = gi_loops s" "gi_pc (gi_goto t p s) u = (if u = t then p else gi_pc s u)"
  by (simp_all add: gi_goto_def)

text \<open>A thread outside the critical section does not notice what the holder of the mutex does.\<close>

lemma gi_thread_outside:
  assumes "gi_thread s p" and "\<not> in_section p" and "gi_instance s = Some 0 \<Longrightarrow> gi_instance s' = Some 0"
  shows "gi_thread s' p"
  using assms by (cases p) auto

lemma gi_thread_same:
  assumes "gi_thread s p" and "gi_instance s' = gi_instance s" "gi_created s' = gi_created s" "gi_loops s' = gi_loops s"
  shows "gi_thread s' p"
  using assms by (cases p) auto

lemma gi_inv_init: "gi_inv gi_init"
  by (simp add: gi_inv_def gi_init_def gi_counts_def)

text \<open>A step of a thread that leaves the counters alone.\<close>

lemma gi_inv_move:
  assumes "gi_inv s" and "gi_instance s' = gi_instance s" "gi_created s' = gi_created s" "gi_loops s' = gi_loops s"
    and "gi_pc s' = (gi_pc s)(t := p)" and "\<And>u. u \<noteq> t \<Longrightarrow> in_section (gi_pc s u) \<Longrightarrow> gi_mutex s' = Some u"
    and "in_section p \<Longrightarrow> gi_mutex s' = Some t" and "gi_thread s p" and "gi_pc s t \<noteq> SpawnLoop 0" "gi_pc s t \<noteq> Publish 0"
  shows "gi_inv s'"
proof -
  have "gi_thread s' (gi_pc s' u)" for u
    by (rule gi_thread_same [of s]) (use assms(1-5,8) in \<open>auto simp: gi_inv_def\<close>)
  moreover have "gi_counts s'" using assms(1-5,9,10) by (auto simp: gi_inv_def gi_counts_def)
  ultimately show ?thesis using assms(5-7) by (auto simp: gi_inv_def)
qed

text \<open>A step of the holder of the mutex that stays in the critical section and changes the counters.\<close>

lemma gi_inv_holder:
  assumes "gi_inv s" and "in_section (gi_pc s t)" and "gi_mutex s' = gi_mutex s" and "gi_pc s' = (gi_pc s)(t := p)"
    and "in_section p" and "gi_thread s' p" and "gi_counts s'" and "gi_instance s = Some 0 \<Longrightarrow> gi_instance s' = Some 0"
  shows "gi_inv s'"
proof -
  have m: "gi_mutex s = Some t" using assms(1,2) by (simp add: gi_inv_def)
  have "gi_thread s' (gi_pc s' u)" for u
  proof (cases "u = t")
    case False
    then have "\<not> in_section (gi_pc s u)" using m assms(1) by (auto simp: gi_inv_def)
    with False show ?thesis using assms(1,4,8) gi_thread_outside [of s "gi_pc s u" s'] by (simp add: gi_inv_def)
  qed (use assms(4,6) in simp)
  then show ?thesis using assms(1,3,4,5,7) m by (auto simp: gi_inv_def)
qed

lemma gi_inv_step:
  assumes "gi_step s s'" and "gi_inv s"
  shows "gi_inv s'"
  using assms(1)
proof cases
  case (first_null t)
  then show ?thesis using assms(2) by (intro gi_inv_move [of s s' t TakeLock]) (auto simp: gi_goto_def gi_inv_def)
next
  case (first_set t x)
  then show ?thesis using assms(2) by (intro gi_inv_move [of s s' t ReadInstance]) (auto simp: gi_goto_def gi_inv_def gi_counts_def)
next
  case (take_lock t)
  then show ?thesis using assms(2) by (intro gi_inv_move [of s s' t SecondCheck]) (auto simp: gi_goto_def gi_inv_def)
next
  case (second_null t)
  have "gi_created s \<noteq> 1"
  proof
    assume "gi_created s = 1"
    then obtain u where "gi_pc s u = SpawnLoop 0 \<or> gi_pc s u = Publish 0" using assms(2) second_null(3) by (auto simp: gi_inv_def gi_counts_def)
    then show False using assms(2) second_null(2) by (metis gi_inv_def gi_pc.distinct(33,35) in_section_simps(3,5,6) option.inject)
  qed
  then show ?thesis using assms(2) second_null
    by (intro gi_inv_move [of s s' t NewStack]) (auto simp: gi_goto_def gi_inv_def gi_counts_def)
next
  case (second_set t x)
  then show ?thesis using assms(2) by (intro gi_inv_move [of s s' t DropLock]) (auto simp: gi_goto_def gi_inv_def gi_counts_def)
next
  case (new_stack t)
  then have "gi_thread s NewStack" using assms(2) by (metis gi_inv_def)
  then show ?thesis using assms(2) new_stack
    by (intro gi_inv_holder [of s t s' "SpawnLoop 0"]) (auto simp: gi_goto_def gi_counts_def)
next
  case (spawn_loop t x)
  then have "gi_thread s (SpawnLoop x)" using assms(2) by (metis gi_inv_def)
  then show ?thesis using assms(2) spawn_loop
    by (intro gi_inv_holder [of s t s' "Publish 0"]) (auto simp: gi_goto_def gi_counts_def)
next
  case (publish t x)
  then have "gi_thread s (Publish x)" using assms(2) by (metis gi_inv_def)
  then show ?thesis using assms(2) publish
    by (intro gi_inv_holder [of s t s' DropLock]) (auto simp: gi_goto_def gi_counts_def)
next
  case (drop_lock t)
  then have "gi_thread s DropLock" "gi_mutex s = Some t" using assms(2) by (metis gi_inv_def, metis gi_inv_def in_section_simps(7))
  then show ?thesis using assms(2) drop_lock
    by (intro gi_inv_move [of s s' t ReadInstance]) (auto simp: gi_goto_def gi_inv_def)
next
  case (read_instance t x)
  then have "gi_thread s ReadInstance" using assms(2) by (metis gi_inv_def)
  then show ?thesis using assms(2) read_instance
    by (intro gi_inv_move [of s s' t "Returned x"]) (auto simp: gi_goto_def gi_inv_def)
qed

lemma gi_inv_steps: "gi_step\<^sup>*\<^sup>* s s' \<Longrightarrow> gi_inv s \<Longrightarrow> gi_inv s'"
  by (induction rule: rtranclp_induct) (auto dest: gi_inv_step)

section \<open>Properties\<close>



end
