(* ===== verification/Spec2Isabelle.thy ===== *)
theory Spec2Isabelle
  imports Prelude Ring_Buffer Data_Stream Rand_Generator Ip_Address Checksum Time_Base Epoll_Server Send_Buffer
    Mock_Layers Ether Ip_Layer Socket_Session Dispatchers Protocol_Stack Socket_Calls
    Stream_Io C_Strings Mperf_Messages Mperf_Transfer Mperf_Options Mperf_Control
    Mperf_Udp Mperf_Sockets Eval_Programs Stack_Instance
begin

text \<open>
  \<^bold>\<open>Verification of the lab-netstack network stack.\<close>

  The repository holds a user-space TCP/IP stack (\<open>src/src\<close>), small programs that run on it
  (\<open>src/eval\<close>) and the traffic generator mperf (\<open>src/3rd/mperf\<close>). An application calls the socket
  functions, which the linker redirects to \<open>__wrap_*\<close>; these fetch the single \<open>ProtocolStack\<close> and call
  its methods. A socket has a TCP session with a send buffer and a ring buffer; segments go down through
  the IP layer and its routing table to the devices. Frames come up through the callbacks of an event
  loop, which also runs the alarms, and reach the sessions through three dispatchers. The programs of
  \<open>eval\<close> and mperf use the socket calls of the system or of the stack.

  \<^bold>\<open>Conventions\<close> (\<open>Prelude\<close>). Integers keep their width as words, except for \<open>int\<close> and \<open>long\<close> in mperf
  and the time type, which are integers reduced to their range where the code can leave it. A block of
  memory is a list of bytes and every access to it is checked. A failed check, a fatal log, an access out
  of bounds, a null or dangling pointer and undefined behaviour are faults, \<open>Inl\<close> of the result type; a
  theorem that says \<open>Inr\<close> excludes all of them. Objects live in records, which a higher layer extends;
  pointers to shared objects are numbers. The argument \<open>dbg\<close> tells debug from release builds.

  \<^bold>\<open>Theories and sources, base\<close> (\<open>src/src/base\<close>).
  \<^item> \<open>Byte_Queue\<close>, \<open>Ring_Buffer\<close> (\<open>ring_buffer\<close>): the contract of a bounded queue as a locale and its
    interpretation on the ring buffer; a simulation by the queue, and safety of every method.
  \<^item> \<open>Data_Stream\<close> (\<open>data_reader\<close>, \<open>data_writer\<close>): round trips, one locale for the four widths.
  \<^item> \<open>Rand_Generator\<close>, \<open>Checksum\<close>, \<open>Time_Base\<close>: equivalence with the Lehmer generator, with RFC 1071, and
    the arithmetic of times.
  \<^item> \<open>Alarms\<close>, \<open>Epoll_Server\<close> (\<open>alarm\<close>, \<open>epoll_*\<close>): the abstract alarm as a locale, interpreted on the epoll
    alarms; an invariant of the alarm map, and termination of the loop that runs due alarms.

  \<^bold>\<open>Network and transport\<close> (\<open>src/src/ether\<close>, \<open>ip\<close>, \<open>tcp\<close>, \<open>util\<close>).
  \<^item> \<open>Ether\<close>, \<open>Ip_Address\<close>, \<open>Ip_Layer\<close>: devices and frames, addresses, routing table, IP layer.
  \<^item> \<open>Tcp_Segment\<close>, \<open>Tcp_Env\<close>, \<open>Send_Buffer\<close>, \<open>Socket_Session\<close>: segments and their round trip and
    checksum; what TCP needs of the layers below as the locale \<open>tcp_network\<close>, interpreted on the IP layer
    and on the mock layers; the plan of a transmission and the effect of acknowledgments; the state
    machine of a connection.
  \<^item> \<open>Mock_Layers\<close>: the alarms and the IP layer of the tests, with whole runs of a send buffer.

  \<^bold>\<open>Sockets\<close> (\<open>src/src/posix\<close>).
  \<^item> \<open>Dispatchers\<close>, \<open>Protocol_Stack\<close>, \<open>Socket_Calls\<close>: the dispatchers, the socket calls, and sequences of
    calls and packets with the invariant that descriptors lead to live objects; closing everything ends.
  \<^item> \<open>Stack_Instance\<close>: \<open>getInstance\<close> as a step relation of any number of threads, and \<open>__wrap_*\<close>.
  \<^item> This theory: the event loop of the constructed stack runs for any number of rounds.

  \<^bold>\<open>Programs\<close> (\<open>src/eval\<close>, \<open>src/3rd/mperf/src\<close>).
  \<^item> \<open>Stream_Io\<close> (\<open>unp.c\<close>, \<open>util.c\<close>): the loops around \<open>read\<close> and \<open>write\<close>, for every way the calls can end;
    the locales \<open>reading_loop\<close>, \<open>reading_loop_any\<close> and \<open>writing_loop\<close> are interpreted on them.
  \<^item> \<open>Mperf_Sockets\<close>, \<open>Mperf_Messages\<close> (\<open>util.c\<close>): \<open>netdial\<close> and \<open>open_listenfd\<close> with what they leave behind;
    messages on a connection and in shared memory, with their round trip.
  \<^item> \<open>Mperf_Transfer\<close> (\<open>sndrcv.c\<close>): the four tests, and that the two ends of a test agree.
  \<^item> \<open>C_Strings\<close>, \<open>Mperf_Options\<close>, \<open>Mperf_Control\<close> (\<open>client.c\<close>, \<open>server.c\<close>, \<open>worker.c\<close>): command lines, and
    the way of a configuration from the client through the controller to the worker.
  \<^item> \<open>Mperf_Udp\<close> (\<open>udpsender.c\<close>, \<open>udpreceiver.c\<close>) and \<open>Eval_Programs\<close> (echo, throughput test, \<open>setns.c\<close>).

  \<^bold>\<open>Loops and bounds.\<close> No loop has a fuel that could cut it short. A loop over system calls consumes the
  list of the outcomes of these calls; at its end the program is blocked, \<open>None\<close> or \<open>Running\<close>, and
  theorems about all lists cover all runs. Loops that may run forever are partial functions to \<open>option\<close>
  (\<open>ProtocolStack_closeAllFDs\<close>, the alarm loops); that they return is a theorem where it holds. The event
  loop is bounded to times before the year 128000, where microseconds fit 64 bits.

  \<^bold>\<open>Outside code\<close> is a parameter: the C library's address functions, system calls, \<open>libpcap\<close>, the
  socket calls of the system, the user's callbacks, what other threads do while a call waits.

  \<^bold>\<open>Not modelled.\<close>
  \<^item> \<open>time_base.h\<close>: the two operators that multiply by a \<open>double\<close>; floating point, without callers. In the
    programs, elapsed times and throughput, which are only printed.
  \<^item> Logging (\<open>log.c\<close>, \<open>log.h\<close>), except where the kind of a message is a result, and usage texts.
  \<^item> \<open>server.c\<close>: the accept loop of \<open>main\<close> and \<open>startAsServer\<close>; the worker behind \<open>fork\<close> is \<open>serverMain\<close>,
    modelled on its own. \<open>client.c\<close>: \<open>connectToServer\<close> beyond \<open>netdial\<close>. \<open>udpsender.c\<close>: the interleaving of
    the two threads. The set-up of signal handlers and shared memory, single system calls.
  \<^item> The builds of mperf with \<open>CHECK\<close>, \<open>FIX\<close> or \<open>SPECIAL\<close>; of \<open>PROBE\<close> only options, message and \<open>doProbe\<close>.
  \<^item> Weak memory: the steps of \<open>getInstance\<close> are sequentially consistent, which its unprotected read of
    \<open>instance\<close> does not guarantee.
  \<^item> \<open>router.c\<close>, which only sleeps, \<open>util/assert.h\<close>, which nothing includes, tests and scripts.
\<close>

section \<open>Lemmas: the event loop under the IP layer\<close>

text \<open>
  A round of the event loop in which the system calls work: the time of day is a time before the year
  128000 and \<open>epoll_wait\<close> does not fail.
\<close>

definition round_ok :: "round_input \<Rightarrow> bool" where
  "round_ok r \<longleftrightarrow> (case ri_timeofday r of (rv, sec, usec) \<Rightarrow>
     rv = 0 \<and> 0 \<le> sec \<and> sec \<le> 4000000000000 \<and> 0 \<le> usec \<and> usec < 1000000) \<and>
     (\<forall>fd w. 0 \<le> fst (ri_epoll_wait r fd w))"

lemma probing_pending: "as_inv {} s \<Longrightarrow> probing p s \<Longrightarrow> as_map s \<noteq> []"
  by (auto simp: as_inv_def as_links_def entries_def probing_def split: if_splits)

lemma probing_map [simp]: "probing p (s\<lparr>as_map := m\<rparr>) = probing p s"
  by (simp add: probing_def)

lemma round_keeps_probing:
  assumes "as_inv {} s" and "probing p s" and "round_ok r" and "callback_ok onReadable" and "delegate_ok 0 (2 ^ 62) others"
    and read: "\<And>cb s s'. probing p s \<Longrightarrow> onReadable cb s = Inr s' \<Longrightarrow> probing p s'"
    and fire: "\<And>a s s'. a \<noteq> p \<Longrightarrow> probing p s \<Longrightarrow> others a s = Inr s' \<Longrightarrow> probing p s'"
  shows "\<exists>s' rv. EpollServer_runEventLoop (ri_timeofday r) (ri_epoll_wait r) onReadable (ip_onAlarm others) wait s =
    Some (Inr (s', rv)) \<and> as_inv {} s' \<and> probing p s'"
proof -
  obtain sec usec where r: "ri_timeofday r = (0, sec, usec)" "0 \<le> sec" "sec \<le> 4000000000000" "0 \<le> usec" "usec < 1000000"
      "\<forall>fd w. 0 \<le> fst (ri_epoll_wait r fd w)"
    using assms(3) by (auto simp: round_ok_def split: prod.splits)
  let ?now = "sec * 1000000 + usec div 1000"
  obtain s' rv where run: "EpollServer_runEventLoop (0, sec, usec) (ri_epoll_wait r) onReadable (ip_onAlarm others) wait s =
      Some (Inr (s', rv))" "as_inv {} s'"
    using runEventLoop_ok [OF assms(1) probing_pending [OF assms(1,2)] assms(4) _ r(2) _ r(4,5) ip_onAlarm_ok [OF assms(5)],
        of "ri_epoll_wait r" wait] r(2,3,6) by auto
  obtain t s1 d where parts: "EpollServer_updateNow (0, sec, usec) s = Inr (s\<lparr>as_now := t\<rparr>)"
      "EpollServer_runReadEvent (ri_epoll_wait r) onReadable d (s\<lparr>as_now := t\<rparr>) = Inr (s1, rv)"
      "alarm_loop (ip_onAlarm others) s1 = Some (Inr s')"
    using runEventLoop_parts [OF run(1)] by blast
  have "as_now (s\<lparr>as_now := t\<rparr>) = as_now (s\<lparr>as_now := ?now\<rparr>)"
    using parts(1) updateNow_value [OF r(2) _ r(4,5), of s] r(3) by simp
  then have "0 \<le> t" "t \<le> 2 ^ 62" using r(2-5) by simp_all
  then have "probing p (s\<lparr>as_now := t\<rparr>)" using assms(2) by (simp add: probing_def)
  with parts(2) have "probing p s1" by (rule runReadEvent_keeps [where P = "probing p"]) (rule read)
  with parts(3) have "probing p s'"
    by (rule alarm_loop_keeps [where P = "probing p"]) (auto intro: probing_fire [OF _ _ fire])
  with run r(1) show ?thesis by simp
qed

lemma startEventLoop_keeps_probing:
  assumes "list_all round_ok rs" and "as_inv {} s" and "probing p s" and "callback_ok onReadable"
    and "delegate_ok 0 (2 ^ 62) others"
    and "\<And>cb s s'. probing p s \<Longrightarrow> onReadable cb s = Inr s' \<Longrightarrow> probing p s'"
    and "\<And>a s s'. a \<noteq> p \<Longrightarrow> probing p s \<Longrightarrow> others a s = Inr s' \<Longrightarrow> probing p s'"
  shows "\<exists>s'. ProtocolStack_startEventLoop onReadable (ip_onAlarm others) rs s = Some (Inr s') \<and> as_inv {} s' \<and> probing p s'"
  using assms(1-3)
proof (induction rs arbitrary: s)
  case (Cons r rs)
  then have "round_ok r" "list_all round_ok rs" by simp_all
  moreover from round_keeps_probing [OF Cons.prems(2,3) this(1) assms(4,5), of "Delta_fromMilliseconds 1000"] assms(6,7)
  obtain s1 rv where "EpollServer_runEventLoop (ri_timeofday r) (ri_epoll_wait r) onReadable (ip_onAlarm others)
      (Delta_fromMilliseconds 1000) s = Some (Inr (s1, rv))" "as_inv {} s1" "probing p s1" by blast
  ultimately show ?case using Cons.IH by simp
qed simp

lemma fold_addDevice [simp]: "fold DeviceManager_addDevice ds s = s"
  by (induction ds) (simp_all add: DeviceManager_addDevice_def)

lemma ProtocolStack_starts:
  assumes "epoll_create \<noteq> - 1" and "0 \<le> null_fd" and "0 \<le> sec" "sec \<le> 4000000000000" "0 \<le> usec" "usec < 1000000"
  shows "\<exists>s. ProtocolStack dbg fresh inet_pton epoll_create (0, sec, usec) pcap_findalldevs null_fd = Inr s \<and>
    as_inv {} s \<and> probing 0 s \<and> px_inv [] s"
proof -
  define now where "now = sec * 1000000 + usec div 1000"
  have n: "0 \<le> now" "now \<le> 4000000000000001000" using assms(3-6) by (simp_all add: now_def)
  have d: "TimeBase_plus now 3000000 = now + 3000000" "int64 (now + 3000000)"
    using n by (simp_all add: TimeBase_plus_def wrap64_id int64_def)
  have up: "EpollServer_updateNow (0, sec, usec) w = Inr (w\<lparr>as_now := now\<rparr>)" for w :: "'b epoll_server_scheme"
    unfolding now_def using assms(4) by (intro updateNow_value [OF assms(3) _ assms(5,6)]) simp
  let ?s = "\<lparr>as_map = [(now + 3000000, 0, 0)], as_fresh = 1,
      as_alarms = (\<lambda>a. \<lparr>al_deadline = 0, al_token = None\<rparr>)(0 := \<lparr>al_deadline = now + 3000000, al_token = Some 0\<rparr>),
      as_now = now, ep_epfd = epoll_create, ep_cb_map = Map.empty, dm_device_list = [], dm_devices = [], dm_ip_set = [],
      rt_entries = [], il_buffer = map fresh [0..<unat kMaxIpPacketLength], il_callback = Some 0, il_probe_alarm = 0,
      il_rand_generator = RandGenerator 233, px_rand_generator = RandGenerator 19260817, px_null_fd = null_fd,
      px_fd_set = [], px_structs = Map.empty, px_sessions = Map.empty, px_garbage = [],
      px_reset_buffer = map fresh [0..<unat kMaxTCPPacketLength], px_listening = [], px_listen_ready = True,
      px_established = [], px_fresh = 1, px_errno = 0\<rparr>"
  have "ProtocolStack dbg fresh inet_pton epoll_create (0, sec, usec) pcap_findalldevs null_fd = Inr ?s"
    using assms(1,2) d n
    by (simp add: ProtocolStack_def EpollServer_def up DeviceManager_def IPLayer_def Let_def RoutingTable_def
        DeviceManager_getAllDevices_def EpollAlarmFactory_createAlarm_def Alarm_def EpollAlarmFactory_now_def Alarm_set_def
        Alarm_isSet_def TimeBase_isInitialized_def EpollAlarm_setImpl_def EpollServer_registerAlarm_def as_register_def
        put_deadline_def put_token_def ListenDispatcher_def ResetDispatcher_def SegmentDispatcher_def
        DeviceManager_setCallback_def IPLayer_setCallback_def ListenDispatcher_setDispatcher_def TimeBase_zero_def)
  moreover have "as_inv {} ?s"
    using n d(2) by (auto simp: as_inv_def as_base_def as_links_def entries_def)
  moreover have "probing 0 ?s" "px_inv [] ?s" using n by (simp_all add: probing_def px_inv_def)
  ultimately show ?thesis by blast
qed

section \<open>Properties\<close>



end
